(* ===== verification/Prelude.thy ===== *)
theory Prelude
  imports Complex_Main
    "HOL-Library.Char_ord"
    "HOL-Library.List_Lexorder"
    "HOL-Library.Product_Lexorder"
    "HOL-Library.Multiset"
begin

text \<open>
  The vocabulary every component shares: the development's fact collections, the
  errors of the source as a datatype, Python text as UTF-8 bytes with the string
  methods the source calls, and database tables as lists of rows.
\<close>

named_theorems text_simps \<open>rewriting Python text\<close>
named_theorems table_simps \<open>reading a table after a write\<close>
named_theorems row_defs \<open>the definitions of the session's table accesses\<close>

section \<open>Errors and optional results\<close>

text \<open>
  Every exception the modelled code raises is a value: the class of the exception
  with its message where the source gives one.
\<close>

datatype pyerr =
    ValueError string
  | RuntimeErr string
  | IntegrityError string
  | RuleNotFoundError string
  | RuleValidationError string
  | RuleImmutableError string
  | RuleResolutionError string
  | QuotaConfigurationError string
  | QuotaStoreError string
  | DouyinQuotaExceeded string int
  | PriorityBudgetPauseError int
  | InvalidOperation
  | TypeErr string
  | OverflowErr string
  | AllocationCycleError string
  | ClueCollectionError string
  | AssertionErr

type_synonym 'a result = "pyerr + 'a"

text \<open>Sequencing: the first error ends the computation, as a raise does.\<close>

fun bind_result :: "'a result \<Rightarrow> ('a \<Rightarrow> 'b result) \<Rightarrow> 'b result" where
  "bind_result (Inl e) f = Inl e"
| "bind_result (Inr x) f = f x"

lemma bind_result_Inr:
  "bind_result m f = Inr y \<longleftrightarrow> (\<exists>x. m = Inr x \<and> f x = Inr y)"
  by (cases m) auto

lemma bind_result_Inl:
  "bind_result m f = Inl e \<longleftrightarrow> m = Inl e \<or> (\<exists>x. m = Inr x \<and> f x = Inl e)"
  by (cases m) auto

text \<open>Whether a computation returned.\<close>

fun succeeds :: "'a result \<Rightarrow> bool" where
  "succeeds (Inl e) = False"
| "succeeds (Inr x) = True"

lemma succeedsE: "succeeds m \<Longrightarrow> (\<And>x. m = Inr x \<Longrightarrow> P) \<Longrightarrow> P"
  by (cases m) auto

definition check :: "bool \<Rightarrow> pyerr \<Rightarrow> unit result" where
  "check ok e = (if ok then Inr () else Inl e)"

lemma check_Inr [simp]: "check ok e = Inr u \<longleftrightarrow> ok"
  by (simp add: check_def)

lemma check_Inl [simp]: "check ok e = Inl e' \<longleftrightarrow> \<not> ok \<and> e' = e"
  by (auto simp: check_def)

lemma option_eqI: "(\<And>x. a = Some x \<longleftrightarrow> b = Some x) \<Longrightarrow> a = b"
  by (cases a; cases b) auto

section \<open>Python text\<close>

text \<open>
  A Python string is modelled by its UTF-8 bytes. The encoding keeps the order of code
  points, so comparing byte lists compares strings as Python does; operations that count
  or cut code points go through \<open>utf8_chars\<close>, which splits the bytes into characters.
\<close>

type_synonym pystr = string

definition utf8_width :: "char \<Rightarrow> nat" where
  "utf8_width c =
     (if \<not> digit7 c \<or> \<not> digit6 c then 1 else if \<not> digit5 c then 2 else if \<not> digit4 c then 3 else 4)"

lemma utf8_width_pos [simp]: "0 < utf8_width c"
  by (simp add: utf8_width_def)

fun utf8_chars :: "pystr \<Rightarrow> pystr list" where
  "utf8_chars [] = []"
| "utf8_chars (c # cs) =
     (c # take (utf8_width c - 1) cs) # utf8_chars (drop (utf8_width c - 1) cs)"

lemma concat_utf8_chars [simp, text_simps]: "concat (utf8_chars s) = s"
  by (induction s rule: utf8_chars.induct) auto

lemma utf8_chars_nonempty: "x \<in> set (utf8_chars s) \<Longrightarrow> x \<noteq> []"
  by (induction s rule: utf8_chars.induct) auto

text \<open>The characters \<open>str.isspace\<close> accepts, in UTF-8 (the ASCII ones first).\<close>

definition py_spaces :: "pystr list" where
  "py_spaces =
     [[CHR '' ''], [CHR 0x09], [CHR 0x0A], [CHR 0x0B], [CHR 0x0C], [CHR 0x0D],
      [CHR 0x1C], [CHR 0x1D], [CHR 0x1E], [CHR 0x1F],
      [CHR 0xC2, CHR 0x85], [CHR 0xC2, CHR 0xA0], [CHR 0xE1, CHR 0x9A, CHR 0x80]]
     @ map (\<lambda>b. [CHR 0xE2, CHR 0x80, b])
         [CHR 0x80, CHR 0x81, CHR 0x82, CHR 0x83, CHR 0x84, CHR 0x85, CHR 0x86, CHR 0x87,
          CHR 0x88, CHR 0x89, CHR 0x8A, CHR 0xA8, CHR 0xA9, CHR 0xAF]
     @ [[CHR 0xE2, CHR 0x81, CHR 0x9F], [CHR 0xE3, CHR 0x80, CHR 0x80]]"

definition is_pyspace :: "pystr \<Rightarrow> bool" where
  "is_pyspace x \<longleftrightarrow> x \<in> set py_spaces"

definition strip_chars :: "pystr list \<Rightarrow> pystr list" where
  "strip_chars cs = rev (dropWhile is_pyspace (rev (dropWhile is_pyspace cs)))"

text \<open>\<open>str.strip\<close>.\<close>

definition py_strip :: "pystr \<Rightarrow> pystr" where
  "py_strip s = concat (strip_chars (utf8_chars s))"

text \<open>\<open>"".join(text.split())\<close>: every whitespace character goes.\<close>

definition py_squeeze :: "pystr \<Rightarrow> pystr" where
  "py_squeeze s = concat (filter (\<lambda>x. \<not> is_pyspace x) (utf8_chars s))"

text \<open>\<open>text[:-1]\<close>.\<close>

definition py_butlast :: "pystr \<Rightarrow> pystr" where
  "py_butlast s = concat (butlast (utf8_chars s))"

text \<open>\<open>text[:n]\<close>.\<close>

definition py_prefix :: "nat \<Rightarrow> pystr \<Rightarrow> pystr" where
  "py_prefix n s = concat (take n (utf8_chars s))"

definition py_endswith :: "pystr \<Rightarrow> pystr \<Rightarrow> bool" where
  "py_endswith s suf \<longleftrightarrow> length suf \<le> length s \<and> drop (length s - length suf) s = suf"

definition py_startswith :: "pystr \<Rightarrow> pystr \<Rightarrow> bool" where
  "py_startswith s pre \<longleftrightarrow> take (length pre) s = pre"

text \<open>\<open>str.lower\<close> on the ASCII letters; the other scripts the source meets have no case.\<close>

definition lower_char :: "char \<Rightarrow> char" where
  "lower_char c = (if CHR ''A'' \<le> c \<and> c \<le> CHR ''Z'' then char_of (of_char c + 32 :: nat) else c)"

definition py_lower :: "pystr \<Rightarrow> pystr" where
  "py_lower s = map lower_char s"

text \<open>\<open>"|".join(parts)\<close>.\<close>

fun py_join :: "pystr \<Rightarrow> pystr list \<Rightarrow> pystr" where
  "py_join sep [] = []"
| "py_join sep [x] = x"
| "py_join sep (x # y # xs) = x @ sep @ py_join sep (y # xs)"

text \<open>\<open>str(n)\<close> of an integer.\<close>

fun nat_digits :: "nat \<Rightarrow> pystr" where
  "nat_digits n =
     (if n < 10 then [char_of (48 + n)] else nat_digits (n div 10) @ [char_of (48 + n mod 10)])"

declare nat_digits.simps [simp del]

definition py_str_int :: "int \<Rightarrow> pystr" where
  "py_str_int i = (if i < 0 then CHR ''-'' # nat_digits (nat (- i)) else nat_digits (nat i))"


subsection \<open>Stripping and cleaning\<close>

lemma utf8_chars_drop: "utf8_chars (concat (drop k (utf8_chars s))) = drop k (utf8_chars s)"
proof (induction s arbitrary: k rule: utf8_chars.induct)
  case 1
  then show ?case by simp
next
  case (2 c cs)
  show ?case
  proof (cases k)
    case 0
    then show ?thesis by (metis concat_utf8_chars drop0)
  next
    case (Suc j)
    with "2.IH" show ?thesis by simp
  qed
qed

lemma utf8_chars_take: "utf8_chars (concat (take k (utf8_chars s))) = take k (utf8_chars s)"
proof (induction s arbitrary: k rule: utf8_chars.induct)
  case 1
  then show ?case by simp
next
  case (2 c cs)
  show ?case
  proof (cases k)
    case 0
    then show ?thesis by simp
  next
    case (Suc j)
    let ?w = "utf8_width c - 1"
    show ?thesis
    proof (cases "?w \<le> length cs")
      case True
      with Suc "2.IH" [of j] show ?thesis by (simp add: min_def)
    next
      case False
      then have "utf8_chars (drop ?w cs) = []" by simp
      with Suc show ?thesis by simp
    qed
  qed
qed

lemma strip_chars_segment: "\<exists>i j. strip_chars cs = take j (drop i cs)"
proof -
  obtain i where i: "dropWhile is_pyspace cs = drop i cs"
    by (metis dropWhile_eq_drop)
  obtain j where "dropWhile is_pyspace (rev (drop i cs)) = drop j (rev (drop i cs))"
    by (metis dropWhile_eq_drop)
  then have "strip_chars cs = take (length (drop i cs) - j) (drop i cs)"
    by (simp add: strip_chars_def i drop_rev)
  then show ?thesis by blast
qed

lemma strip_chars_idem: "strip_chars (strip_chars cs) = strip_chars cs"
proof -
  let ?d = "dropWhile is_pyspace cs"
  let ?e = "rev (dropWhile is_pyspace (rev ?d))"
  have "dropWhile is_pyspace ?e = ?e"
  proof (cases ?e)
    case (Cons x xs)
    then obtain ys where "?d = x # ys"
      by (metis append_Cons rev_append rev_rev_ident takeWhile_dropWhile_id)
    then have "\<not> is_pyspace x" by (metis hd_dropWhile list.distinct(1) list.sel(1))
    with Cons show ?thesis by simp
  next
    case Nil
    then show ?thesis by (simp only: dropWhile.simps)
  qed
  then show ?thesis by (simp add: strip_chars_def)
qed

lemma utf8_chars_strip: "utf8_chars (py_strip s) = strip_chars (utf8_chars s)"
proof -
  obtain i j where ij: "strip_chars (utf8_chars s) = take j (drop i (utf8_chars s))"
    using strip_chars_segment by blast
  have "utf8_chars (concat (take j (utf8_chars (concat (drop i (utf8_chars s))))))
      = take j (utf8_chars (concat (drop i (utf8_chars s))))"
    by (rule utf8_chars_take)
  then show ?thesis by (simp add: py_strip_def ij utf8_chars_drop)
qed

lemma py_strip_idem [simp, text_simps]: "py_strip (py_strip s) = py_strip s"
  by (metis py_strip_def strip_chars_idem utf8_chars_strip)

lemma py_strip_Nil [simp, text_simps]: "py_strip [] = []"
  by (simp add: py_strip_def strip_chars_def)

text \<open>
  The helper \<open>_clean\<close> of the worker modules: \<open>None\<close> and blank text become \<open>None\<close>,
  anything else loses its surrounding whitespace.
\<close>

definition clean :: "pystr option \<Rightarrow> pystr option" where
  "clean v = (case v of None \<Rightarrow> None | Some s \<Rightarrow> (let t = py_strip s in if t = [] then None else Some t))"

lemma clean_None [simp, text_simps]: "clean None = None"
  by (simp add: clean_def)

lemma clean_idem [simp, text_simps]: "clean (clean v) = clean v"
  by (cases v) (auto simp: clean_def Let_def)

lemma clean_SomeD: "clean v = Some t \<Longrightarrow> t \<noteq> [] \<and> py_strip t = t"
  by (cases v) (auto simp: clean_def Let_def split: if_splits)

lemma clean_nonblank:
  assumes "\<not> is_pyspace [c]" and "utf8_width c = 1"
  shows "clean (Some (c # cs)) \<noteq> None"
proof -
  have "dropWhile is_pyspace (rev ([c] # xs)) \<noteq> []" for xs using assms(1) by (auto simp: dropWhile_eq_Nil_conv)
  then have "[c] \<in> set (strip_chars (utf8_chars (c # cs)))"
    using assms by (auto simp: strip_chars_def dropWhile_append split: if_splits)
  then have "py_strip (c # cs) \<noteq> []" by (auto simp: py_strip_def)
  then show ?thesis by (simp add: clean_def Let_def)
qed

text \<open>Python's truth value of an optional string.\<close>

definition truthy :: "pystr option \<Rightarrow> bool" where
  "truthy v \<longleftrightarrow> v \<noteq> None \<and> v \<noteq> Some []"

lemma truthy_simps [simp]:
  "\<not> truthy None" "\<not> truthy (Some [])" "truthy (Some (c # s))"
  by (simp_all add: truthy_def)

lemma truthyE: "truthy v \<Longrightarrow> (\<And>s. v = Some s \<Longrightarrow> s \<noteq> [] \<Longrightarrow> P) \<Longrightarrow> P"
  by (auto simp: truthy_def)

lemma truthy_clean: "truthy (clean v) \<longleftrightarrow> clean v \<noteq> None"
  by (auto simp: truthy_def dest: clean_SomeD)

text \<open>\<open>x or default\<close> on optional strings, where the default is text.\<close>

definition or_else :: "pystr option \<Rightarrow> pystr \<Rightarrow> pystr" where
  "or_else v d = (if truthy v then the v else d)"

section \<open>Tables as lists of rows\<close>

text \<open>
  A table is the list of its rows. \<open>find_row\<close> is a primary-key lookup, \<open>upd_row\<close> an
  \<open>UPDATE\<close> by primary key of a row already loaded, \<open>add_row\<close> an \<open>INSERT\<close> whose
  constraints the caller has checked.
\<close>

definition find_row :: "('r \<Rightarrow> 'k) \<Rightarrow> 'k \<Rightarrow> 'r list \<Rightarrow> 'r option" where
  "find_row key k rows = find (\<lambda>r. key r = k) rows"

definition upd_row :: "('r \<Rightarrow> 'k) \<Rightarrow> 'r \<Rightarrow> 'r list \<Rightarrow> 'r list" where
  "upd_row key r rows = map (\<lambda>x. if key x = key r then r else x) rows"

definition add_row :: "'r \<Rightarrow> 'r list \<Rightarrow> 'r list" where
  "add_row r rows = rows @ [r]"

lemma find_row_Nil [simp, table_simps]: "find_row key k [] = None"
  by (simp add: find_row_def)

lemma find_row_Cons [table_simps]:
  "find_row key k (r # rows) = (if key r = k then Some r else find_row key k rows)"
  by (simp add: find_row_def)

lemma find_row_Some: "find_row key k rows = Some r \<Longrightarrow> r \<in> set rows \<and> key r = k"
  by (auto simp: find_row_def find_Some_iff)

lemma find_row_key: "find_row key k rows = Some r \<Longrightarrow> key r = k"
  by (auto dest: find_row_Some)

lemma find_row_None: "find_row key k rows = None \<longleftrightarrow> k \<notin> key ` set rows"
  by (auto simp: find_row_def find_None_iff)

lemma find_row_upd [table_simps]:
  "find_row key k (upd_row key r rows) =
     (if key r = k \<and> find_row key k rows \<noteq> None then Some r else find_row key k rows)"
  by (induction rows) (auto simp: upd_row_def find_row_Cons)

lemma find_row_add [table_simps]:
  "find_row key k (add_row r rows) =
     (case find_row key k rows of Some x \<Rightarrow> Some x | None \<Rightarrow> if key r = k then Some r else None)"
  by (induction rows) (auto simp: add_row_def find_row_Cons)

lemma keys_upd_row [simp, table_simps]: "map key (upd_row key r rows) = map key rows"
  by (simp add: upd_row_def)

lemma upd_row_same: "distinct (map key rows) \<Longrightarrow> r \<in> set rows \<Longrightarrow> upd_row key r rows = rows"
  by (auto simp: upd_row_def distinct_map inj_on_def intro: map_idI)

lemma set_upd_row: "x \<in> set (upd_row key r rows) \<Longrightarrow> x = r \<or> (x \<in> set rows \<and> key x \<noteq> key r)"
  by (auto simp: upd_row_def split: if_splits)

lemma in_upd_row:
  "x \<in> set (upd_row key r rows) \<longleftrightarrow>
     (x = r \<and> key r \<in> key ` set rows) \<or> (x \<in> set rows \<and> key x \<noteq> key r)"
  by (auto simp: upd_row_def image_iff intro: sym)

lemma set_add_row [simp]: "set (add_row r rows) = insert r (set rows)"
  by (auto simp: add_row_def)

lemma keys_add_row [simp, table_simps]: "map key (add_row r rows) = map key rows @ [key r]"
  by (simp add: add_row_def)

lemma filter_upd_row_other:
  assumes "\<And>x. x \<in> set rows \<Longrightarrow> key x = key r \<Longrightarrow> \<not> P x" and "\<not> P r"
  shows "filter P (upd_row key r rows) = filter P rows"
  using assms by (induction rows) (auto simp: upd_row_def)

text \<open>An \<open>UPDATE\<close> of every row that meets a condition, and how many there are.\<close>

definition update_where :: "('r \<Rightarrow> bool) \<Rightarrow> ('r \<Rightarrow> 'r) \<Rightarrow> 'r list \<Rightarrow> 'r list" where
  "update_where P f rows = map (\<lambda>r. if P r then f r else r) rows"

definition count_where :: "('r \<Rightarrow> bool) \<Rightarrow> 'r list \<Rightarrow> int" where
  "count_where P rows = int (length (filter P rows))"

lemma in_update_where:
  "x \<in> set (update_where P f rows) \<longleftrightarrow> (\<exists>r \<in> set rows. x = (if P r then f r else r))"
  by (auto simp: update_where_def)

lemma keys_update_where: "(\<And>r. key (f r) = key r) \<Longrightarrow> map key (update_where P f rows) = map key rows"
  by (auto simp: update_where_def)

lemma update_where_none: "(\<And>r. r \<in> set rows \<Longrightarrow> \<not> P r) \<Longrightarrow> update_where P f rows = rows"
  by (auto simp: update_where_def intro: map_idI)

lemma find_row_update_where:
  assumes "\<And>r. key (f r) = key r"
  shows "find_row key k (update_where P f rows) = map_option (\<lambda>r. if P r then f r else r) (find_row key k rows)"
  using assms by (induction rows) (auto simp: update_where_def find_row_Cons)

lemma count_where_zero: "count_where P rows = 0 \<longleftrightarrow> (\<forall>r \<in> set rows. \<not> P r)"
  by (simp add: count_where_def filter_empty_conv)

lemma find_row_distinct:
  "distinct (map key rows) \<Longrightarrow> r \<in> set rows \<Longrightarrow> find_row key (key r) rows = Some r"
  by (induction rows) (auto simp: find_row_Cons rev_image_eqI)

text \<open>
  The interface of one table of a session: reading by primary key and writing a row back
  that was read before. Every state-changing operation of the model writes through it, and
  the lemmas below are what its clients use.
\<close>

locale session_table =
  fixes get :: "'s \<Rightarrow> 'k \<Rightarrow> 'r option"
    and put :: "'r \<Rightarrow> 's \<Rightarrow> 's"
    and key :: "'r \<Rightarrow> 'k"
  assumes get_put: "get (put r s) k = (if key r = k \<and> get s k \<noteq> None then Some r else get s k)"
    and get_key: "get s k = Some r \<Longrightarrow> key r = k"
begin

lemma get_put_same: "get s (key r) \<noteq> None \<Longrightarrow> get (put r s) (key r) = Some r"
  by (simp add: get_put)

lemma get_put_other: "key r \<noteq> k \<Longrightarrow> get (put r s) k = get s k"
  by (simp add: get_put)

lemma get_put_row: "get s k = Some r0 \<Longrightarrow> key r = k \<Longrightarrow> get (put r s) k = Some r"
  by (simp add: get_put)

lemma get_put_put: "key r' = key r \<Longrightarrow> get (put r' (put r s)) k = get (put r' s) k"
  by (simp add: get_put)

lemma dom_put: "get (put r s) k = None \<longleftrightarrow> get s k = None"
  by (simp add: get_put)

end

section \<open>Sorting and choosing rows\<close>

text \<open>\<open>ORDER BY key LIMIT 1\<close>: the first row of least key.\<close>

definition first_by :: "('r \<Rightarrow> 'o::linorder) \<Rightarrow> 'r list \<Rightarrow> 'r option" where
  "first_by ord rows = (case sort_key ord rows of [] \<Rightarrow> None | r # _ \<Rightarrow> Some r)"

lemma first_by_None [simp]: "first_by ord rows = None \<longleftrightarrow> rows = []"
  by (auto simp: first_by_def split: list.splits) (metis list.set(1) set_empty set_sort)

lemma first_by_Some:
  assumes "first_by ord rows = Some r"
  shows "r \<in> set rows \<and> (\<forall>x \<in> set rows. ord r \<le> ord x)"
proof -
  from assms obtain rs where rs: "sort_key ord rows = r # rs"
    by (auto simp: first_by_def split: list.splits)
  have "sorted (map ord (r # rs))" by (metis rs sorted_sort_key)
  then have "\<forall>x \<in> set (r # rs). ord r \<le> ord x" by auto
  moreover have "set rows = set (r # rs)" by (metis rs set_sort)
  ultimately show ?thesis by simp
qed

lemma first_by_simps [simp]: "first_by ord [] = None" "first_by ord [r] = Some r"
  by (simp_all add: first_by_def)

text \<open>\<open>ORDER BY key DESC LIMIT 1\<close>, for a key that is unique among the rows.\<close>

definition last_by :: "('r \<Rightarrow> 'o::linorder) \<Rightarrow> 'r list \<Rightarrow> 'r option" where
  "last_by ord rows = (case rev (sort_key ord rows) of [] \<Rightarrow> None | r # _ \<Rightarrow> Some r)"

lemma last_by_None [simp]: "last_by ord rows = None \<longleftrightarrow> rows = []"
  by (auto simp: last_by_def split: list.splits) (metis set_sort set_empty set_rev)

lemma last_by_Some:
  assumes "last_by ord rows = Some r"
  shows "r \<in> set rows \<and> (\<forall>x \<in> set rows. ord x \<le> ord r)"
proof -
  from assms obtain rs where "rev (sort_key ord rows) = r # rs"
    by (auto simp: last_by_def split: list.splits)
  then have rs: "sort_key ord rows = rev rs @ [r]" by (simp add: rev_swap)
  have "sorted (map ord (rev rs @ [r]))" by (metis rs sorted_sort_key)
  then have "\<forall>x \<in> set (rev rs @ [r]). ord x \<le> ord r" by (auto simp: sorted_append)
  moreover have "set rows = set (rev rs @ [r])" by (metis rs set_sort)
  ultimately show ?thesis by simp
qed

lemma last_by_simps [simp]: "last_by ord [] = None" "last_by ord [r] = Some r"
  by (simp_all add: last_by_def)

text \<open>\<open>max(values)\<close> over a possibly empty column.\<close>

fun max_or_none :: "'a::linorder list \<Rightarrow> 'a option" where
  "max_or_none [] = None"
| "max_or_none (x # xs) = (case max_or_none xs of None \<Rightarrow> Some x | Some y \<Rightarrow> Some (max x y))"

lemma max_or_none_None [simp]: "max_or_none xs = None \<longleftrightarrow> xs = []"
  by (cases xs) (auto split: option.splits)

lemma max_or_none_Some: "max_or_none xs = Some m \<Longrightarrow> m \<in> set xs \<and> (\<forall>x \<in> set xs. x \<le> m)"
  by (induction xs arbitrary: m) (fastforce simp: max_def split: option.splits if_splits)+

end
