(* ===== verification/PyValues.thy ===== *)
theory PyValues
  imports Prelude
begin

text \<open>
  Python values as they come out of JSON columns and request payloads: the dynamic type
  of a value is a constructor, so that the source's \<open>isinstance\<close> tests and truth tests
  are case distinctions. Numbers are exact: a finite float or \<open>Decimal\<close> is the rational
  it denotes. \<open>parse_decimal\<close> is the text constructor of \<open>decimal.Decimal\<close>.
\<close>

datatype pynum = Fin rat | Inf bool | NaN

datatype pyval =
    PNone
  | PBool bool
  | PInt int
  | PFloat pynum
  | PDec pynum
  | PStr string
  | PList "pyval list"
  | PDict "(string \<times> pyval) list"

type_synonym pydict = "(string \<times> pyval) list"

section \<open>Dictionaries and truth values\<close>

text \<open>\<open>d.get(k)\<close>, \<open>d.get(k, default)\<close>, \<open>k in d\<close> and \<open>d.setdefault(k, v)\<close>.\<close>

definition dget :: "pydict \<Rightarrow> string \<Rightarrow> pyval" where
  "dget d k = (case map_of d k of None \<Rightarrow> PNone | Some v \<Rightarrow> v)"

definition dget_default :: "pydict \<Rightarrow> string \<Rightarrow> pyval \<Rightarrow> pyval" where
  "dget_default d k v = (case map_of d k of None \<Rightarrow> v | Some w \<Rightarrow> w)"

definition dhas :: "pydict \<Rightarrow> string \<Rightarrow> bool" where
  "dhas d k \<longleftrightarrow> map_of d k \<noteq> None"

definition dsetdefault :: "pydict \<Rightarrow> string \<Rightarrow> pyval \<Rightarrow> pydict" where
  "dsetdefault d k v = (if dhas d k then d else d @ [(k, v)])"

definition dset :: "pydict \<Rightarrow> string \<Rightarrow> pyval \<Rightarrow> pydict" where
  "dset d k v = (if dhas d k then map (\<lambda>(k', w). if k' = k then (k', v) else (k', w)) d else d @ [(k, v)])"

lemma dget_dset: "dget (dset d k v) k' = (if k' = k then v else dget d k')"
proof (cases "dhas d k")
  case True
  have "map_of (map (\<lambda>(k', w). if k' = k then (k', v) else (k', w)) d) k'
      = (if k' = k \<and> map_of d k \<noteq> None then Some v else map_of d k')"
    by (induction d) auto
  with True show ?thesis by (auto simp: dget_def dset_def dhas_def split: option.splits)
next
  case False
  then have "map_of d k = None" by (simp add: dhas_def)
  with False show ?thesis
    by (auto simp: dget_def dset_def dhas_def map_add_def split: option.splits)
qed

lemma dsetdefault_keeps: "dhas d k' \<Longrightarrow> dget (dsetdefault d k v) k' = dget d k'"
  by (auto simp: dget_def dsetdefault_def dhas_def map_add_def split: option.splits)

fun py_truth :: "pyval \<Rightarrow> bool" where
  "py_truth PNone = False"
| "py_truth (PBool b) = b"
| "py_truth (PInt i) = (i \<noteq> 0)"
| "py_truth (PFloat x) = (x \<noteq> Fin 0)"
| "py_truth (PDec x) = (x \<noteq> Fin 0)"
| "py_truth (PStr s) = (s \<noteq> [])"
| "py_truth (PList xs) = (xs \<noteq> [])"
| "py_truth (PDict d) = (d \<noteq> [])"

text \<open>\<open>a or b\<close>.\<close>

definition py_or :: "pyval \<Rightarrow> pyval \<Rightarrow> pyval" where
  "py_or a b = (if py_truth a then a else b)"

fun is_dict :: "pyval \<Rightarrow> bool" where
  "is_dict (PDict _) = True"
| "is_dict _ = False"

fun the_dict :: "pyval \<Rightarrow> pydict" where
  "the_dict (PDict d) = d"
| "the_dict _ = []"

fun is_list :: "pyval \<Rightarrow> bool" where
  "is_list (PList _) = True"
| "is_list _ = False"

fun the_list :: "pyval \<Rightarrow> pyval list" where
  "the_list (PList xs) = xs"
| "the_list _ = []"

text \<open>A nullable text column as a value, and back.\<close>

fun of_text :: "string option \<Rightarrow> pyval" where
  "of_text None = PNone"
| "of_text (Some s) = PStr s"

fun of_int_opt :: "int option \<Rightarrow> pyval" where
  "of_int_opt None = PNone"
| "of_int_opt (Some i) = PInt i"

section \<open>str()\<close>

text \<open>
  \<open>str(v)\<close>. The text of a float with no integral value, of a \<open>Decimal\<close> and of a
  container is \<open>repr\<close>'s, which the functions below take as an argument.
\<close>

fun py_str :: "(pyval \<Rightarrow> string) \<Rightarrow> pyval \<Rightarrow> string" where
  "py_str repr (PStr s) = s"
| "py_str repr PNone = ''None''"
| "py_str repr (PBool b) = (if b then ''True'' else ''False'')"
| "py_str repr (PInt i) = py_str_int i"
| "py_str repr (PFloat x) =
     (case x of
        Fin q \<Rightarrow> (if of_int \<lfloor>q\<rfloor> = q \<and> \<bar>q\<bar> < 10 ^ 16 then py_str_int \<lfloor>q\<rfloor> @ ''.0'' else repr (PFloat x))
      | Inf neg \<Rightarrow> (if neg then ''-inf'' else ''inf'')
      | NaN \<Rightarrow> ''nan'')"
| "py_str repr v = repr v"

section \<open>Decimal text\<close>

definition is_digit :: "char \<Rightarrow> bool" where
  "is_digit c \<longleftrightarrow> CHR ''0'' \<le> c \<and> c \<le> CHR ''9''"

definition digit_val :: "char \<Rightarrow> int" where
  "digit_val c = int (of_char c) - 48"

fun digits_val :: "int \<Rightarrow> string \<Rightarrow> int" where
  "digits_val acc [] = acc"
| "digits_val acc (c # cs) = digits_val (10 * acc + digit_val c) cs"

definition pow10 :: "int \<Rightarrow> rat" where
  "pow10 e = (if 0 \<le> e then 10 ^ nat e else 1 / 10 ^ nat (- e))"

text \<open>An optional sign: whether it is a minus, and the rest.\<close>

fun split_sign :: "string \<Rightarrow> bool \<times> string" where
  "split_sign [] = (False, [])"
| "split_sign (c # cs) =
     (if c = CHR ''-'' then (True, cs) else if c = CHR ''+'' then (False, cs) else (False, c # cs))"

text \<open>The exponent part: nothing, or \<open>e\<close> with a signed digit sequence.\<close>

definition parse_exponent :: "string \<Rightarrow> int option" where
  "parse_exponent s =
     (case s of
        [] \<Rightarrow> Some 0
      | c # cs \<Rightarrow>
          (let (neg, ds) = split_sign cs
           in if (c = CHR ''e'' \<or> c = CHR ''E'') \<and> ds \<noteq> [] \<and> list_all is_digit ds
              then Some (if neg then - digits_val 0 ds else digits_val 0 ds) else None))"

definition parse_numeric :: "bool \<Rightarrow> string \<Rightarrow> pynum option" where
  "parse_numeric neg s =
     (let ip = takeWhile is_digit s;
          r1 = dropWhile is_digit s;
          pointed = (r1 \<noteq> [] \<and> hd r1 = CHR ''.'');
          fp = (if pointed then takeWhile is_digit (tl r1) else []);
          r2 = (if pointed then dropWhile is_digit (tl r1) else r1)
      in if ip @ fp = [] then None
         else map_option
           (\<lambda>e. Fin ((if neg then -1 else 1) * of_int (digits_val 0 (ip @ fp)) * pow10 (e - int (length fp))))
           (parse_exponent r2))"

definition parse_decimal :: "string \<Rightarrow> pynum option" where
  "parse_decimal s =
     (let t = filter (\<lambda>c. c \<noteq> CHR ''_'') (py_strip s);
          (neg, u) = split_sign t;
          l = py_lower u
      in if l = ''inf'' \<or> l = ''infinity'' then Some (Inf neg)
         else if (py_startswith l ''nan'' \<and> list_all is_digit (drop 3 l))
               \<or> (py_startswith l ''snan'' \<and> list_all is_digit (drop 4 l)) then Some NaN
         else parse_numeric neg u)"

text \<open>
  \<open>Decimal(str(v))\<close>, and \<open>None\<close> where it raises. A finite float stands for the decimal its
  \<open>repr\<close> shows; the text of \<open>None\<close>, of a truth value and of a container is no number.
\<close>

fun decimal_of :: "pyval \<Rightarrow> pynum option" where
  "decimal_of (PInt i) = Some (Fin (of_int i))"
| "decimal_of (PFloat x) = Some x"
| "decimal_of (PDec x) = Some x"
| "decimal_of (PStr s) = parse_decimal s"
| "decimal_of _ = None"

text \<open>Rationals that are whole numbers.\<close>

definition is_integral :: "rat \<Rightarrow> bool" where
  "is_integral q \<longleftrightarrow> of_int \<lfloor>q\<rfloor> = q"

lemma is_integral_of_int [simp]: "is_integral (of_int i)"
  by (simp add: is_integral_def)

lemma is_integralD: "is_integral q \<Longrightarrow> q = of_int \<lfloor>q\<rfloor>"
  by (metis is_integral_def)

text \<open>Rounding to the nearest integer, a tie to the even one.\<close>

definition round_half_even :: "rat \<Rightarrow> int" where
  "round_half_even q =
     (let f = \<lfloor>q\<rfloor>; d = q - of_int f
      in if d < 1/2 then f else if d > 1/2 then f + 1 else if even f then f else f + 1)"

lemma round_half_even_of_int [simp]: "round_half_even (of_int i) = i"
  by (simp add: round_half_even_def)

lemma round_half_even_close: "\<bar>of_int (round_half_even q) - q\<bar> \<le> 1/2"
proof -
  have "of_int \<lfloor>q\<rfloor> \<le> q" "q < of_int \<lfloor>q\<rfloor> + 1" by linarith+
  then show ?thesis by (simp add: round_half_even_def Let_def abs_le_iff)
qed

text \<open>\<open>pat in text\<close>, for an ASCII or UTF-8 encoded pattern.\<close>

fun py_contains :: "string \<Rightarrow> string \<Rightarrow> bool" where
  "py_contains pat [] \<longleftrightarrow> pat = []"
| "py_contains pat (c # cs) \<longleftrightarrow> py_startswith (c # cs) pat \<or> py_contains pat cs"

section \<open>int()\<close>

text \<open>
  \<open>int(text)\<close> on ASCII digits, with single underscores between them; \<open>int(number)\<close> drops the
  fraction.
\<close>

fun digit_groups :: "bool \<Rightarrow> string \<Rightarrow> bool" where
  "digit_groups prev [] = prev"
| "digit_groups prev (c # cs) =
     (if is_digit c then digit_groups True cs else c = CHR ''_'' \<and> prev \<and> digit_groups False cs)"

definition int_text :: "string \<Rightarrow> int option" where
  "int_text s =
     (let (neg, u) = split_sign (py_strip s); n = digits_val 0 (filter is_digit u)
      in if digit_groups False u then Some (if neg then - n else n) else None)"

definition trunc_rat :: "rat \<Rightarrow> int" where
  "trunc_rat q = (if 0 \<le> q then \<lfloor>q\<rfloor> else - \<lfloor>- q\<rfloor>)"

fun int_of_num :: "pynum \<Rightarrow> int result" where
  "int_of_num (Fin q) = Inr (trunc_rat q)"
| "int_of_num (Inf neg) = Inl (OverflowErr ''cannot convert infinity to integer'')"
| "int_of_num NaN = Inl (ValueError ''cannot convert NaN to integer'')"

fun py_int :: "pyval \<Rightarrow> int result" where
  "py_int (PBool b) = Inr (if b then 1 else 0)"
| "py_int (PInt i) = Inr i"
| "py_int (PFloat x) = int_of_num x"
| "py_int (PDec x) = int_of_num x"
| "py_int (PStr s) =
     (case int_text s of None \<Rightarrow> Inl (ValueError ''invalid literal for int()'') | Some i \<Rightarrow> Inr i)"
| "py_int v = Inl (TypeErr ''int() argument must be a string or a number'')"

section \<open>float()\<close>

text \<open>A float is the rational it denotes, infinite where \<open>float()\<close> of a text overflows; an integer that overflows raises.\<close>

fun grouped :: "bool \<Rightarrow> string \<Rightarrow> bool" where
  "grouped prev [] = True"
| "grouped prev (c # cs) =
     (if c = CHR ''_'' then prev \<and> (case cs of [] \<Rightarrow> False | d # _ \<Rightarrow> is_digit d) \<and> grouped False cs else grouped (is_digit c) cs)"

fun float_clamp :: "pynum \<Rightarrow> pynum" where
  "float_clamp (Fin q) = (if \<bar>q\<bar> < 2 ^ 1024 - 2 ^ 970 then Fin q else Inf (q < 0))"
| "float_clamp x = x"

definition float_text :: "string \<Rightarrow> pynum option" where
  "float_text s =
     (let (neg, u) = split_sign (py_strip s); l = py_lower u
      in if l = ''inf'' \<or> l = ''infinity'' then Some (Inf neg)
         else if l = ''nan'' then Some NaN
         else if grouped False u then map_option float_clamp (parse_numeric neg (filter (\<lambda>c. c \<noteq> CHR ''_'') u))
         else None)"

fun py_float :: "pyval \<Rightarrow> pynum result" where
  "py_float (PBool b) = Inr (Fin (if b then 1 else 0))"
| "py_float (PInt i) =
     (if float_clamp (Fin (of_int i)) = Fin (of_int i) then Inr (Fin (of_int i)) else Inl (OverflowErr ''int too large to convert to float''))"
| "py_float (PFloat x) = Inr x"
| "py_float (PDec x) = Inr (float_clamp x)"
| "py_float (PStr s) = (case float_text s of None \<Rightarrow> Inl (ValueError ''could not convert string to float'') | Some x \<Rightarrow> Inr x)"
| "py_float v = Inl (TypeErr ''float() argument must be a string or a real number'')"

lemma trunc_rat_of_int [simp]: "trunc_rat (of_int i) = i"
  by (simp add: trunc_rat_def)

subsection \<open>Decimal text of an integer reads back\<close>

lemma digits_val_append: "digits_val acc (xs @ [c]) = 10 * digits_val acc xs + digit_val c"
  by (induction xs arbitrary: acc) auto

lemma is_digit_cases: "is_digit c \<Longrightarrow> c \<in> set ''0123456789''"
proof -
  assume d: "is_digit c"
  let ?n = "of_char c :: nat"
  from d have "?n \<in> {48..<58}"
    by (simp add: is_digit_def less_eq_char_def atLeastLessThan_iff del: set_upt)
  then have "?n \<in> set [48..<58]" by (simp only: set_upt)
  then have "char_of ?n \<in> set (map char_of [48..<58::nat])"
    unfolding set_map by (rule imageI)
  also have "map char_of [48..<58::nat] = ''0123456789''" by code_simp
  finally show ?thesis by (simp only: char_of_char)
qed

lemma is_digit_char_of: "(d::nat) < 10 \<Longrightarrow> is_digit (char_of (48 + d))"
  by (simp add: is_digit_def less_eq_char_def)

lemma digit_val_char_of: "(d::nat) < 10 \<Longrightarrow> digit_val (char_of (48 + d)) = int d"
  by (simp add: digit_val_def)

lemma nat_digits_digits: "list_all is_digit (nat_digits n) \<and> nat_digits n \<noteq> []"
proof (induction n rule: nat_digits.induct)
  case (1 n)
  then show ?case
    by (cases "n < 10") (auto simp: nat_digits.simps [of n] is_digit_char_of)
qed

lemma digits_val_nat_digits: "digits_val 0 (nat_digits n) = int n"
proof (induction n rule: nat_digits.induct)
  case (1 n)
  show ?case
  proof (cases "n < 10")
    case True
    then show ?thesis by (simp add: nat_digits.simps [of n] digit_val_char_of)
  next
    case False
    with "1.IH" show ?thesis
      by (simp add: nat_digits.simps [of n] digits_val_append digit_val_char_of zdiv_int zmod_int)
  qed
qed

text \<open>Text whose bytes are all ASCII and not spaces is its own characters.\<close>

definition plain_ascii :: "string \<Rightarrow> bool" where
  "plain_ascii s \<longleftrightarrow> list_all (\<lambda>c. \<not> digit7 c \<and> \<not> is_pyspace [c]) s"

lemma utf8_chars_plain: "plain_ascii s \<Longrightarrow> utf8_chars s = map (\<lambda>c. [c]) s"
  by (induction s) (auto simp: plain_ascii_def utf8_width_def)

lemma strip_chars_none: "list_all (\<lambda>x. \<not> is_pyspace x) cs \<Longrightarrow> strip_chars cs = cs"
proof -
  assume a: "list_all (\<lambda>x. \<not> is_pyspace x) cs"
  then have "dropWhile is_pyspace cs = cs" by (cases cs) auto
  moreover from a have "dropWhile is_pyspace (rev cs) = rev cs"
    by (cases "cs = []") (auto simp: dropWhile_eq_self_iff hd_rev list_all_iff)
  ultimately show ?thesis by (simp add: strip_chars_def)
qed

lemma py_strip_plain: "plain_ascii s \<Longrightarrow> py_strip s = s"
proof -
  assume p: "plain_ascii s"
  then have "list_all (\<lambda>x. \<not> is_pyspace x) (utf8_chars s)"
    by (auto simp: utf8_chars_plain plain_ascii_def list_all_iff)
  then show ?thesis by (simp add: py_strip_def strip_chars_none)
qed

lemma is_digit_plain: "is_digit c \<Longrightarrow> \<not> digit7 c \<and> \<not> is_pyspace [c]"
  by (drule is_digit_cases) (auto simp: is_pyspace_def py_spaces_def)

lemma py_str_int_plain: "plain_ascii (py_str_int i)"
proof -
  have "plain_ascii (nat_digits n)" for n
    using nat_digits_digits [of n] by (auto simp: plain_ascii_def list_all_iff is_digit_plain)
  moreover have "\<not> is_pyspace ''-''" by (simp add: is_pyspace_def py_spaces_def)
  ultimately show ?thesis by (simp add: py_str_int_def plain_ascii_def)
qed

lemma lower_char_digit: "is_digit c \<Longrightarrow> lower_char c = c"
  by (drule is_digit_cases) (auto simp: lower_char_def less_eq_char_def)

lemma parse_numeric_nat: "parse_numeric neg (nat_digits n) = Some (Fin ((if neg then -1 else 1) * of_nat n))"
proof -
  have all: "list_all is_digit (nat_digits n)" and ne: "nat_digits n \<noteq> []"
    using nat_digits_digits by auto
  from all have tw: "takeWhile is_digit (nat_digits n) = nat_digits n"
    and dw: "dropWhile is_digit (nat_digits n) = []"
    by (simp_all add: list_all_iff)
  show ?thesis
    by (simp add: parse_numeric_def parse_exponent_def digits_val_nat_digits pow10_def tw dw ne Let_def)
qed

lemma split_sign_digits: "split_sign (nat_digits n) = (False, nat_digits n)"
proof -
  obtain c cs where c: "nat_digits n = c # cs" and "is_digit c"
    using nat_digits_digits [of n] by (cases "nat_digits n") auto
  then have "c \<noteq> CHR ''-''" "c \<noteq> CHR ''+''" by (auto dest: is_digit_cases)
  with c show ?thesis by simp
qed

lemma filter_digits: "list_all is_digit s \<Longrightarrow> filter (\<lambda>c. c \<noteq> CHR ''_'') s = s"
  by (induction s) (auto dest: is_digit_cases)

lemma lower_digits: "list_all is_digit s \<Longrightarrow> py_lower s = s"
  by (induction s) (auto simp: py_lower_def lower_char_digit)

lemma digits_not_named:
  assumes "list_all is_digit s"
  shows "s \<noteq> ''inf'' \<and> s \<noteq> ''infinity'' \<and> \<not> py_startswith s ''nan'' \<and> \<not> py_startswith s ''snan''"
  using assms by (cases s) (auto simp: py_startswith_def dest: is_digit_cases)

theorem parse_decimal_str_int: "parse_decimal (py_str_int i) = Some (Fin (of_int i))"
proof -
  let ?ds = "nat_digits (nat \<bar>i\<bar>)"
  have all: "list_all is_digit ?ds" using nat_digits_digits by blast
  have split: "split_sign (py_str_int i) = (i < 0, ?ds)"
    by (cases "i < 0") (simp_all add: py_str_int_def split_sign_digits)
  have "filter (\<lambda>c. c \<noteq> CHR ''_'') (py_str_int i) = py_str_int i"
    using all filter_digits by (cases "i < 0") (simp_all add: py_str_int_def)
  then have "parse_decimal (py_str_int i) = parse_numeric (i < 0) ?ds"
    using digits_not_named [OF all]
    by (simp add: parse_decimal_def py_strip_plain py_str_int_plain split lower_digits all Let_def)
  then show ?thesis by (simp add: parse_numeric_nat)
qed

end
