(* ===== verification/OrderStatus.thy ===== *)
theory OrderStatus
  imports PyValues
begin

text \<open>
  The order-status vocabulary of \<open>apps/worker/order_status.py\<close>: how a platform status, the
  certificates embedded in an order payload and the projected order and coupon statuses
  become the status of an order, of a coupon and of a clue.
\<close>

section \<open>Vocabulary\<close>

definition active_order_statuses :: "string list" where
  "active_order_statuses =
     [''201'',
      [CHR 0xE5, CHR 0xB1, CHR 0xA5, CHR 0xE7, CHR 0xBA, CHR 0xA6, CHR 0xE4, CHR 0xB8, CHR 0xAD],
      [CHR 0xE5, CHR 0xBE, CHR 0x85, CHR 0xE4, CHR 0xBD, CHR 0xBF, CHR 0xE7, CHR 0x94, CHR 0xA8]]"

definition completed_order_statuses :: "string list" where
  "completed_order_statuses =
     [''1'',
      [CHR 0xE5, CHR 0xB7, CHR 0xB2, CHR 0xE5, CHR 0xAE, CHR 0x8C, CHR 0xE6, CHR 0x88, CHR 0x90],
      [CHR 0xE5, CHR 0xB7, CHR 0xB2, CHR 0xE6, CHR 0xA0, CHR 0xB8, CHR 0xE9, CHR 0x94, CHR 0x80],
      [CHR 0xE4, CHR 0xBA, CHR 0xA4, CHR 0xE6, CHR 0x98, CHR 0x93, CHR 0xE6, CHR 0x88, CHR 0x90,
       CHR 0xE5, CHR 0x8A, CHR 0x9F],
      ''completed'', ''fulfilled'', ''transaction_success'']"

definition paid_order_statuses :: "string list" where
  "paid_order_statuses =
     [''200'', ''paid'', ''success'', ''payment_success'',
      [CHR 0xE6, CHR 0x94, CHR 0xAF, CHR 0xE4, CHR 0xBB, CHR 0x98, CHR 0xE6, CHR 0x88, CHR 0x90,
       CHR 0xE5, CHR 0x8A, CHR 0x9F]]"

definition closed_order_statuses :: "string list" where
  "closed_order_statuses =
     [''101'', ''closed'', ''cancelled'', ''canceled'', ''unpaid_closed'',
      [CHR 0xE6, CHR 0x94, CHR 0xAF, CHR 0xE4, CHR 0xBB, CHR 0x98, CHR 0xE5, CHR 0x8F, CHR 0x96,
       CHR 0xE6, CHR 0xB6, CHR 0x88],
      [CHR 0xE4, CHR 0xBA, CHR 0xA4, CHR 0xE6, CHR 0x98, CHR 0x93, CHR 0xE5, CHR 0x85, CHR 0xB3,
       CHR 0xE9, CHR 0x97, CHR 0xAD]]"

definition refunded_order_statuses :: "string list" where
  "refunded_order_statuses =
     [''300'', ''301'', ''refund'', ''refunded'', ''fully_refunded'',
      [CHR 0xE5, CHR 0xB7, CHR 0xB2, CHR 0xE9, CHR 0x80, CHR 0x80, CHR 0xE6, CHR 0xAC, CHR 0xBE]]"

definition active_coupon_statuses :: "string list" where
  "active_coupon_statuses = [''100'', ''200'', ''201'', ''400'', ''available'', ''unused'', ''valid'']"

definition verified_coupon_statuses :: "string list" where
  "verified_coupon_statuses =
     [''1'', ''401'', ''fulfilled'', ''verified'', ''used'', ''success'', ''transaction_success'']"

definition refunded_coupon_statuses :: "string list" where
  "refunded_coupon_statuses = [''301'', ''refund'', ''refunded'', ''fully_refunded'']"

definition closed_coupon_statuses :: "string list" where
  "closed_coupon_statuses =
     [''101'', ''closed'', ''cancelled'', ''canceled'',
      [CHR 0xE4, CHR 0xBA, CHR 0xA4, CHR 0xE6, CHR 0x98, CHR 0x93, CHR 0xE5, CHR 0x85, CHR 0xB3,
       CHR 0xE9, CHR 0x97, CHR 0xAD]]"

section \<open>Reading a status\<close>

definition dash_to_underscore :: "char \<Rightarrow> char" where
  "dash_to_underscore c = (if c = CHR ''-'' then CHR ''_'' else c)"

definition status_text :: "(pyval \<Rightarrow> string) \<Rightarrow> pyval \<Rightarrow> string" where
  "status_text repr v =
     (if v = PNone \<or> v = PStr [] then []
      else let result = map dash_to_underscore (py_lower (py_strip (py_str repr v)))
           in if py_endswith result ''.0'' then take (length result - 2) result else result)"

text \<open>\<open>value in (None, "", 0, "0")\<close>: every numeric zero and \<open>False\<close> equal \<open>0\<close>.\<close>

fun no_refund_time :: "pyval \<Rightarrow> bool" where
  "no_refund_time PNone = True"
| "no_refund_time (PStr s) = (s = [] \<or> s = ''0'')"
| "no_refund_time (PInt i) = (i = 0)"
| "no_refund_time (PBool b) = (\<not> b)"
| "no_refund_time (PFloat x) = (x = Fin 0)"
| "no_refund_time (PDec x) = (x = Fin 0)"
| "no_refund_time _ = False"

definition refund_time_text :: "(pyval \<Rightarrow> string) \<Rightarrow> pyval \<Rightarrow> string option" where
  "refund_time_text repr v = (if no_refund_time v then None else clean (Some (py_str repr v)))"

type_synonym certificate = "string \<times> string option"

definition dicts_of :: "pyval \<Rightarrow> pydict list" where
  "dicts_of v = map the_dict (filter is_dict (the_list v))"

definition certificate_rows :: "pydict \<Rightarrow> pydict list" where
  "certificate_rows payload =
     (let rows = concat (map (\<lambda>k. dicts_of (dget payload k))
                  [''certificate'', ''certificates'', ''certificate_list'', ''coupons'', ''coupon_list''])
      in if rows \<noteq> [] then rows
         else concat (map (\<lambda>item. dicts_of (py_or (dget item ''certificates'') (dget item ''coupons'')))
                (dicts_of (py_or (dget payload ''order_items'') (dget payload ''items'')))))"

definition certificate_statuses :: "(pyval \<Rightarrow> string) \<Rightarrow> pyval \<Rightarrow> certificate list" where
  "certificate_statuses repr payload =
     (case payload of
        PDict d \<Rightarrow>
          map (\<lambda>row.
             (status_text repr
                (dget_default row ''item_status''
                   (dget_default row ''coupon_status'' (dget row ''status''))),
              refund_time_text repr
                (dget_default row ''refund_time'' (dget row ''coupon_refund_time''))))
           (certificate_rows d)
      | _ \<Rightarrow> [])"

fun is_refunded_certificate :: "certificate \<Rightarrow> bool" where
  "is_refunded_certificate (status, refund_time) =
     (status \<in> set refunded_coupon_statuses \<or> (truthy refund_time \<and> refund_time \<noteq> Some ''0''))"

definition all_certificates_refunded :: "certificate list \<Rightarrow> bool" where
  "all_certificates_refunded cs \<longleftrightarrow> cs \<noteq> [] \<and> list_all is_refunded_certificate cs"

definition has_verified_certificate :: "certificate list \<Rightarrow> bool" where
  "has_verified_certificate cs \<longleftrightarrow> list_ex (\<lambda>(s, _). s \<in> set verified_coupon_statuses) cs"

definition has_active_certificate :: "certificate list \<Rightarrow> bool" where
  "has_active_certificate cs \<longleftrightarrow> list_ex (\<lambda>(s, _). s \<in> set active_coupon_statuses) cs"

definition all_certificates_closed :: "certificate list \<Rightarrow> bool" where
  "all_certificates_closed cs \<longleftrightarrow> cs \<noteq> [] \<and> list_all (\<lambda>(s, _). s \<in> set closed_coupon_statuses) cs"

section \<open>Normalisation\<close>

definition normalize_order_status :: "(pyval \<Rightarrow> string) \<Rightarrow> pyval \<Rightarrow> pyval \<Rightarrow> string" where
  "normalize_order_status repr v payload =
     (let status = status_text repr v;
          certificates = certificate_statuses repr payload
      in if status \<in> set closed_order_statuses then ''closed''
         else if status \<in> set refunded_order_statuses \<or> all_certificates_refunded certificates then ''refunded''
         else if all_certificates_closed certificates then ''closed''
         else if status \<in> set active_order_statuses \<or> status \<in> set paid_order_statuses then ''paid''
         else if status \<in> set completed_order_statuses \<or> status = ''150'' then ''paid''
         else ''unknown'')"

definition any_in :: "string list \<Rightarrow> string list \<Rightarrow> bool" where
  "any_in xs ys \<longleftrightarrow> list_ex (\<lambda>x. x \<in> set ys) xs"

definition all_in :: "string list \<Rightarrow> string list \<Rightarrow> bool" where
  "all_in xs ys \<longleftrightarrow> xs \<noteq> [] \<and> list_all (\<lambda>x. x \<in> set ys) xs"

definition normalized_coupons :: "(pyval \<Rightarrow> string) \<Rightarrow> pyval list \<Rightarrow> string list" where
  "normalized_coupons repr cs = filter (\<lambda>s. s \<noteq> []) (map (status_text repr) cs)"

definition resolve_clue_order_status ::
  "(pyval \<Rightarrow> string) \<Rightarrow> pyval \<Rightarrow> pyval \<Rightarrow> pyval \<Rightarrow> pyval list \<Rightarrow> string" where
  "resolve_clue_order_status repr v payload normalized_order_status coupon_statuses =
     (let status = status_text repr v;
          certificates = certificate_statuses repr payload;
          normalized_order = status_text repr normalized_order_status;
          coupons = normalized_coupons repr coupon_statuses
      in if status \<in> set closed_order_statuses then ''closed''
         else if status \<in> set refunded_order_statuses \<or> all_certificates_refunded certificates then ''refunded''
         else if normalized_order = ''closed'' then ''closed''
         else if normalized_order = ''refunded'' then ''refunded''
         else if all_in coupons closed_coupon_statuses then ''closed''
         else if all_in coupons refunded_coupon_statuses then ''refunded''
         else if any_in coupons verified_coupon_statuses \<and> \<not> any_in coupons active_coupon_statuses
           then ''verified''
         else if status \<in> set active_order_statuses \<or> status \<in> set paid_order_statuses then
           (if all_certificates_closed certificates then ''closed''
            else if has_verified_certificate certificates \<and> \<not> has_active_certificate certificates
              then ''verified''
            else if status \<in> set active_order_statuses then ''active''
            else if normalized_order \<in> set active_order_statuses \<or> normalized_order = ''active''
                  \<or> has_active_certificate certificates \<or> any_in coupons active_coupon_statuses
              then ''active''
            else ''unknown'')
         else if status \<in> set completed_order_statuses then
           (if all_certificates_closed certificates then ''closed''
            else if has_verified_certificate certificates then ''verified''
            else if status \<noteq> ''1'' then ''verified'' else ''unknown'')
         else ''unknown'')"

definition normalize_coupon_status :: "(pyval \<Rightarrow> string) \<Rightarrow> pyval \<Rightarrow> string" where
  "normalize_coupon_status repr v =
     (let status = status_text repr v
      in if status \<in> set refunded_coupon_statuses then ''refunded''
         else if status \<in> set verified_coupon_statuses then ''verified''
         else if status \<in> set active_coupon_statuses then ''available''
         else if status \<in> set closed_coupon_statuses then ''closed''
         else if status \<in> {''300'', ''cancelled'', ''canceled'', ''revoked'', ''reversed'', ''refund_pending''}
           then ''cancelled''
         else ''unknown'')"

section \<open>Properties\<close>

lemma status_text_normal_forms [simp]:
  "status_text repr (PStr ''paid'') = ''paid''"
  "status_text repr (PStr ''closed'') = ''closed''"
  "status_text repr (PStr ''refunded'') = ''refunded''"
  "status_text repr (PStr ''unknown'') = ''unknown''"
  by code_simp+

lemma normal_form_vocabulary [simp]:
  "''paid'' \<notin> set closed_order_statuses" "''paid'' \<notin> set refunded_order_statuses"
  "''paid'' \<in> set paid_order_statuses" "''closed'' \<in> set closed_order_statuses"
  "''refunded'' \<notin> set closed_order_statuses" "''refunded'' \<in> set refunded_order_statuses"
  "''unknown'' \<notin> set closed_order_statuses" "''unknown'' \<notin> set refunded_order_statuses"
  "''unknown'' \<notin> set active_order_statuses" "''unknown'' \<notin> set paid_order_statuses"
  "''unknown'' \<notin> set completed_order_statuses"
  by code_simp+

text \<open>
  The normalised order status is a fixed point: normalising an order again, from the stored
  normalised value and the same payload, changes nothing.
\<close>

theorem normalize_order_status_idempotent:
  "normalize_order_status repr (PStr (normalize_order_status repr v payload)) payload
     = normalize_order_status repr v payload"
  by (simp add: normalize_order_status_def Let_def)

text \<open>
  The clue resolver never contradicts the order layer on a terminal order: once
  normalisation says closed or refunded, the resolver given that normalised status says the
  same, whatever the coupon projection holds.
\<close>

theorem resolve_agrees_on_terminal_orders:
  assumes "normalize_order_status repr v payload \<in> {''closed'', ''refunded''}"
  shows "resolve_clue_order_status repr v payload (PStr (normalize_order_status repr v payload)) coupons
           = normalize_order_status repr v payload"
proof -
  let ?s = "status_text repr v" and ?cs = "certificate_statuses repr payload"
  let ?n = "normalize_order_status repr v payload"
  let ?res = "\<lambda>n. resolve_clue_order_status repr v payload n coupons"
  consider (closed) "?s \<in> set closed_order_statuses"
    | (refunded) "?s \<notin> set closed_order_statuses" "?s \<in> set refunded_order_statuses \<or> all_certificates_refunded ?cs"
    | (other) "?s \<notin> set closed_order_statuses" "\<not> (?s \<in> set refunded_order_statuses \<or> all_certificates_refunded ?cs)"
    by blast
  then show ?thesis
  proof cases
    case closed
    then have "?n = ''closed''" "?res n = ''closed''" for n
      by (simp_all add: normalize_order_status_def resolve_clue_order_status_def Let_def)
    then show ?thesis by simp
  next
    case refunded
    then have "?n = ''refunded''" "?res n = ''refunded''" for n
      by (simp_all add: normalize_order_status_def resolve_clue_order_status_def Let_def)
    then show ?thesis by simp
  next
    case other
    with assms have "?n = ''closed''"
      by (simp add: normalize_order_status_def Let_def split: if_splits)
    with other show ?thesis by (simp add: resolve_clue_order_status_def Let_def)
  qed
qed

theorem resolve_agrees_on_terminal_orders_witness:
  "resolve_clue_order_status (\<lambda>_. []) (PInt 301) PNone
     (PStr (normalize_order_status (\<lambda>_. []) (PInt 301) PNone)) [PStr ''available''] = ''refunded''"
proof -
  have n: "normalize_order_status (\<lambda>_. []) (PInt 301) PNone = ''refunded''" by code_simp
  show ?thesis
    using resolve_agrees_on_terminal_orders [of "\<lambda>_. []" "PInt 301" PNone "[PStr ''available'']"]
    by (simp add: n)
qed



end
