(* ===== verification/ClueModel.thy ===== *)
theory ClueModel
  imports PyValues
begin

text \<open>
  The clue tables of \<open>apps/api/dy_api/models.py\<close> as records, with the columns the modelled
  operations read or write, and a database session as the record of its tables. Reads and
  writes go through one accessor pair per table; each pair is shown to be a
  \<open>session_table\<close>.

  A session is modelled by the rows its next query would see: flushing, row locks and
  \<open>populate_existing\<close> do not change them. Time stamps are microseconds since the epoch in
  UTC, so \<open>_aware\<close> is the identity on them; \<open>utcnow()\<close> is an argument.
\<close>

type_synonym instant = int

definition hours :: "int \<Rightarrow> int" where
  "hours n = n * 3600000000"

definition days :: "int \<Rightarrow> int" where
  "days n = n * 86400000000"

section \<open>Rows\<close>

record clue_master_lead =
  l_lead_key :: string
  l_master_kind :: int
  l_order_id :: "string option"
  l_raw_order_status :: "string option"
  l_normalized_order_status :: string
  l_status_source :: string
  l_order_status_observed_at :: "instant option"
  l_lifecycle_status :: string
  l_pool_location :: "string option"
  l_allocation_state :: string
  l_current_assignment_round_id :: "string option"
  l_allocation_cycle_id :: "string option"
  l_ended_without_assignment :: bool
  l_closed_at :: "instant option"
  l_closed_reason :: "string option"
  l_anchor_poi_id :: "string option"
  l_anchor_store_id :: "string option"
  l_anchor_source :: "string option"
  l_anchor_unavailable_reason :: "string option"
  l_anchor_province :: "string option"
  l_anchor_city :: "string option"
  l_anchor_city_code :: "string option"
  l_anchor_longitude :: "rat option"
  l_anchor_latitude :: "rat option"
  l_is_complete_pool :: bool
  l_state_version :: int
  l_updated_at :: instant

record clue_center_order =
  c_order_id :: string
  c_lead_status :: string
  c_current_assignment_round_id :: "string option"
  c_current_round_no :: int
  c_current_round_status :: string
  c_assigned_at :: "instant option"
  c_assigned_at_source :: string
  c_assigned_store_id :: "string option"
  c_assigned_store_name :: "string option"
  c_assigned_city :: "string option"
  c_assigned_province :: "string option"
  c_follow_result :: string
  c_is_followed :: bool
  c_is_follow_success :: bool
  c_verified_store_id :: "string option"
  c_verified_store_name :: "string option"
  c_verified_at :: "instant option"
  c_is_self_store_verified :: bool
  c_expires_at :: "instant option"
  c_reassign_reason :: "string option"
  c_created_at :: instant
  c_updated_at :: instant

record clue_assignment_round =
  r_assignment_round_id :: string
  r_order_id :: string
  r_lead_key :: "string option"
  r_rule_version_id :: "string option"
  r_strategy_type :: "string option"
  r_allocation_decision_id :: "string option"
  r_allocation_cycle_id :: "string option"
  r_round_no :: int
  r_assigned_at :: "instant option"
  r_assigned_at_source :: string
  r_assigned_store_id :: "string option"
  r_assigned_store_name :: "string option"
  r_followed_at :: "instant option"
  r_follow_result :: string
  r_is_followed :: bool
  r_is_follow_success :: bool
  r_round_status :: string
  r_execution_mode :: string
  r_matured_at :: "instant option"
  r_terminal_reason :: "string option"
  r_expires_at :: "instant option"
  r_first_sla_expires_at :: "instant option"
  r_protection_started_at :: "instant option"
  r_protection_expires_at :: "instant option"
  r_auto_expiry_enabled :: "bool option"
  r_first_follow_up_sla_hours :: "int option"
  r_protection_days :: "int option"
  r_reassign_reason :: "string option"
  r_reassigned_at :: "instant option"
  r_verified_store_id :: "string option"
  r_verified_at :: "instant option"
  r_created_at :: instant
  r_updated_at :: instant

record clue_follow_up_record =
  f_follow_up_record_id :: string
  f_order_id :: string
  f_assignment_round_id :: string
  f_round_no :: int
  f_assigned_store_id :: "string option"
  f_follow_result :: string
  f_note :: "string option"
  f_operator_user_id :: "string option"
  f_operator_username :: "string option"
  f_created_at :: instant
  f_deleted_at :: "instant option"
  f_deleted_by_user_id :: "string option"
  f_deleted_by_username :: "string option"
  f_deletion_reason :: "string option"

record dim_store =
  s_store_id :: string
  s_store_name :: string
  s_is_active :: bool
  s_standard_province :: "string option"
  s_standard_city :: "string option"
  s_city_code :: "string option"
  s_longitude :: "rat option"
  s_latitude :: "rat option"
  s_is_douyin_clue_applicable :: bool
  s_participates_in_clue_allocation :: bool
  s_location_status :: string

record store_score_snapshot =
  sc_snapshot_id :: string
  sc_snapshot_run_id :: string
  sc_snapshot_date :: string
  sc_store_id :: string
  sc_conversion_rate :: rat
  sc_conversion_value_source :: string
  sc_follow_24h_rate :: rat
  sc_follow_24h_value_source :: string
  sc_store_weight :: rat
  sc_composite_score :: rat
  sc_config_json :: pyval
  sc_computed_at :: instant

record clue_store_group =
  g_store_group_id :: string
  g_group_name :: string
  g_created_by :: "string option"
  g_updated_at :: instant

record clue_store_group_member =
  gm_store_group_id :: string
  gm_store_id :: string

record clue_allocation_rule =
  ru_rule_id :: string
  ru_rule_name :: string
  ru_scope_type :: string
  ru_scope_key :: string
  ru_scope_city_code :: "string option"
  ru_scope_store_group_id :: "string option"
  ru_scope_anchor_store_id :: "string option"
  ru_created_by :: "string option"

text \<open>
  The settings of a rule version are checked by \<open>isinstance\<close> when it is published, so they
  keep the value the caller gave; the two weights are decimals.
\<close>

record clue_allocation_rule_version =
  v_rule_version_id :: string
  v_rule_id :: string
  v_version_no :: int
  v_status :: string
  v_auto_expiry_enabled :: pyval
  v_first_follow_up_sla_hours :: pyval
  v_protection_days :: pyval
  v_conversion_weight :: "pynum option"
  v_follow_24h_weight :: "pynum option"
  v_lookback_days :: pyval
  v_min_samples :: pyval
  v_created_by :: "string option"
  v_updated_by :: "string option"
  v_published_by :: "string option"
  v_retired_by :: "string option"
  v_published_at :: "instant option"
  v_retired_at :: "instant option"
  v_updated_at :: instant

record clue_allocation_strategy_config =
  cf_strategy_config_id :: string
  cf_rule_version_id :: string
  cf_strategy_type :: string
  cf_enabled :: pyval
  cf_execution_order :: pyval
  cf_params_json :: pydict

record clue_lead_rule_version_binding =
  b_lead_key :: string
  b_rule_version_id :: string
  b_scope_type :: string
  b_scope_key :: string
  b_scope_resolution_snapshot :: pydict
  b_rule_version_snapshot :: pydict

record clue_allocation_decision =
  d_decision_id :: string
  d_attempt_key :: string
  d_lead_key :: string
  d_order_id :: "string option"
  d_rule_id :: pyval
  d_rule_version_id :: "string option"
  d_scope_type :: "string option"
  d_scope_key :: "string option"
  d_strategy_type :: string
  d_execution_order :: "int option"
  d_allocation_cycle_id :: "string option"
  d_execution_mode :: string
  d_assignment_round_id :: "string option"
  d_round_no :: "int option"
  d_selected_store_id :: "string option"
  d_selected_store_name :: "string option"
  d_decision_status :: string
  d_reason :: "string option"
  d_decision_snapshot :: pydict
  d_actor :: "string option"
  d_executed_at :: instant

record clue_headquarters_pool_entry =
  e_headquarters_pool_entry_id :: string
  e_lead_key :: string
  e_status :: string
  e_reason :: string
  e_entered_at :: instant
  e_closed_at :: "instant option"
  e_close_reason :: "string option"
  e_source_assignment_round_id :: "string option"
  e_source_decision_id :: "string option"
  e_source_rule_version_id :: "string option"
  e_allocation_cycle_id :: "string option"
  e_source_snapshot :: pydict
  e_created_at :: instant
  e_updated_at :: instant

record clue_order_status_event =
  ev_event_id :: string
  ev_event_key :: string
  ev_lead_key :: string
  ev_order_id :: "string option"
  ev_raw_status :: "string option"
  ev_normalized_status :: string
  ev_status_source :: string
  ev_observed_at :: instant
  ev_created_at :: instant

text \<open>The raw evidence tables: rows the platform collectors stored.\<close>

record raw_douyin_order =
  o_id :: int
  o_order_id :: string
  o_order_status :: "string option"
  o_order_status_normalized :: "string option"
  o_raw_payload :: pyval
  o_source_observed_at :: "instant option"
  o_updated_at :: "instant option"

record raw_douyin_order_coupon =
  cp_coupon_id :: string
  cp_order_id :: string
  cp_raw_order_id :: int
  cp_order_item_id :: "string option"
  cp_coupon_status :: "string option"
  cp_coupon_status_raw :: "string option"
  cp_coupon_status_normalized :: "string option"
  cp_coupon_updated_at :: "instant option"
  cp_coupon_refund_time :: "instant option"
  cp_latest_refund_at :: "instant option"
  cp_raw_payload :: pyval
  cp_source_observed_at :: "instant option"

record raw_douyin_verify_record =
  vr_verify_id :: string
  vr_coupon_id :: "string option"
  vr_verify_status :: "string option"
  vr_verify_time :: "instant option"
  vr_poi_id :: "string option"
  vr_cancel_time :: "instant option"
  vr_source_observed_at :: "instant option"

record raw_douyin_clue =
  rc_clue_row_key :: string
  rc_clue_id :: "string option"
  rc_source_window_start :: "instant option"
  rc_source_window_end :: "instant option"
  rc_fetched_at :: "instant option"
  rc_create_time_detail :: "instant option"
  rc_modify_time :: "instant option"
  rc_name :: "string option"
  rc_telephone :: "string option"
  rc_enc_telephone :: "string option"
  rc_product_id :: "string option"
  rc_product_name :: "string option"
  rc_order_id :: "string option"
  rc_order_status :: "string option"
  rc_follow_life_account_id :: "string option"
  rc_follow_life_account_name :: "string option"
  rc_follow_poi_id :: "string option"
  rc_intention_poi_id :: "string option"
  rc_auto_city_name :: "string option"
  rc_auto_province_name :: "string option"
  rc_author_nickname :: "string option"
  rc_raw_payload :: pyval
  rc_source_file :: "string option"
  rc_source_run_id :: "string option"
  rc_payload_fingerprint :: "string option"
  rc_source_observed_at :: "instant option"
  rc_observation_key :: "string option"
  rc_imported_at :: "instant option"
  rc_updated_at :: "instant option"

record raw_douyin_refund_record =
  rr_source_record_key :: string
  rr_order_id :: string
  rr_normalized_refund_status :: int
  rr_refund_completed_at :: "instant option"
  rr_source_observed_at :: "instant option"
  rr_raw_payload :: pyval
  rr_gmt_modified :: "instant option"

record douyin_refund_event =
  re_refund_event_id :: string
  re_order_id :: string
  re_refund_type :: int
  re_refund_status :: int
  re_occurred_at :: "instant option"
  re_source_observed_at :: "instant option"
  re_updated_at :: "instant option"

record settlement_order_detail =
  sd_coupon_id :: string
  sd_order_id :: string
  sd_verify_id :: "string option"
  sd_sale_store_id :: "string option"
  sd_is_verified :: bool
  sd_verify_store_id :: "string option"
  sd_verify_time :: "instant option"
  sd_updated_at :: "instant option"

section \<open>The session\<close>

record db =
  t_leads :: "clue_master_lead list"
  t_rounds :: "clue_assignment_round list"
  t_centers :: "clue_center_order list"
  t_entries :: "clue_headquarters_pool_entry list"
  t_decisions :: "clue_allocation_decision list"
  t_bindings :: "clue_lead_rule_version_binding list"
  t_follow_ups :: "clue_follow_up_record list"
  t_events :: "clue_order_status_event list"
  t_stores :: "dim_store list"
  t_scores :: "store_score_snapshot list"
  t_groups :: "clue_store_group list"
  t_members :: "clue_store_group_member list"
  t_rules :: "clue_allocation_rule list"
  t_versions :: "clue_allocation_rule_version list"
  t_configs :: "clue_allocation_strategy_config list"
  t_orders :: "raw_douyin_order list"
  t_coupons :: "raw_douyin_order_coupon list"
  t_verifies :: "raw_douyin_verify_record list"
  t_raw_clues :: "raw_douyin_clue list"
  t_refunds :: "raw_douyin_refund_record list"
  t_refund_events :: "douyin_refund_event list"
  t_settlements :: "settlement_order_detail list"

text \<open>
  What the code takes from its platform: the hexadecimal SHA-256 digest of a text, the ISO
  text of an instant, reading an ISO text, the \<open>repr\<close> of a value, the floating-point
  great-circle distance and the ISO text of a date column (stored as such).
\<close>

record platform =
  hex_digest :: "string \<Rightarrow> string"
  iso_format :: "instant \<Rightarrow> string"
  iso_parse :: "string \<Rightarrow> instant option"
  py_repr :: "pyval \<Rightarrow> string"
  km_between :: "rat \<Rightarrow> rat \<Rightarrow> rat \<Rightarrow> rat \<Rightarrow> rat"

definition get_lead :: "db \<Rightarrow> string \<Rightarrow> clue_master_lead option" where
  "get_lead s k = find_row l_lead_key k (t_leads s)"

definition put_lead :: "clue_master_lead \<Rightarrow> db \<Rightarrow> db" where
  "put_lead l s = s\<lparr>t_leads := upd_row l_lead_key l (t_leads s)\<rparr>"

definition get_round :: "db \<Rightarrow> string \<Rightarrow> clue_assignment_round option" where
  "get_round s k = find_row r_assignment_round_id k (t_rounds s)"

definition put_round :: "clue_assignment_round \<Rightarrow> db \<Rightarrow> db" where
  "put_round r s = s\<lparr>t_rounds := upd_row r_assignment_round_id r (t_rounds s)\<rparr>"

definition get_center :: "db \<Rightarrow> string \<Rightarrow> clue_center_order option" where
  "get_center s k = find_row c_order_id k (t_centers s)"

definition put_center :: "clue_center_order \<Rightarrow> db \<Rightarrow> db" where
  "put_center c s = s\<lparr>t_centers := upd_row c_order_id c (t_centers s)\<rparr>"

definition get_entry :: "db \<Rightarrow> string \<Rightarrow> clue_headquarters_pool_entry option" where
  "get_entry s k = find_row e_headquarters_pool_entry_id k (t_entries s)"

definition put_entry :: "clue_headquarters_pool_entry \<Rightarrow> db \<Rightarrow> db" where
  "put_entry e s = s\<lparr>t_entries := upd_row e_headquarters_pool_entry_id e (t_entries s)\<rparr>"

definition get_version :: "db \<Rightarrow> string \<Rightarrow> clue_allocation_rule_version option" where
  "get_version s k = find_row v_rule_version_id k (t_versions s)"

definition put_version :: "clue_allocation_rule_version \<Rightarrow> db \<Rightarrow> db" where
  "put_version v s = s\<lparr>t_versions := upd_row v_rule_version_id v (t_versions s)\<rparr>"

definition get_follow_up :: "db \<Rightarrow> string \<Rightarrow> clue_follow_up_record option" where
  "get_follow_up s k = find_row f_follow_up_record_id k (t_follow_ups s)"

definition put_follow_up :: "clue_follow_up_record \<Rightarrow> db \<Rightarrow> db" where
  "put_follow_up f s = s\<lparr>t_follow_ups := upd_row f_follow_up_record_id f (t_follow_ups s)\<rparr>"

lemmas session_defs =
  get_lead_def put_lead_def get_round_def put_round_def get_center_def put_center_def
  get_entry_def put_entry_def get_version_def put_version_def get_follow_up_def put_follow_up_def

interpretation lead_table: session_table get_lead put_lead l_lead_key
  by unfold_locales (auto simp: session_defs find_row_upd dest: find_row_key)

interpretation round_table: session_table get_round put_round r_assignment_round_id
  by unfold_locales (auto simp: session_defs find_row_upd dest: find_row_key)

interpretation center_table: session_table get_center put_center c_order_id
  by unfold_locales (auto simp: session_defs find_row_upd dest: find_row_key)

interpretation entry_table: session_table get_entry put_entry e_headquarters_pool_entry_id
  by unfold_locales (auto simp: session_defs find_row_upd dest: find_row_key)

interpretation version_table: session_table get_version put_version v_rule_version_id
  by unfold_locales (auto simp: session_defs find_row_upd dest: find_row_key)

interpretation follow_up_table: session_table get_follow_up put_follow_up f_follow_up_record_id
  by unfold_locales (auto simp: session_defs find_row_upd dest: find_row_key)

section \<open>Example rows\<close>

text \<open>Concrete rows and a concrete platform, for the examples of the later theories.\<close>

definition example_platform :: platform where
  "example_platform =
     \<lparr>hex_digest = (\<lambda>t. t), iso_format = py_str_int, iso_parse = (\<lambda>_. None), py_repr = (\<lambda>_. []),
      km_between = (\<lambda>a b c d. 111 * (\<bar>a - c\<bar> + \<bar>b - d\<bar>))\<rparr>"

definition empty_db :: db where
  "empty_db =
     \<lparr>t_leads = [], t_rounds = [], t_centers = [], t_entries = [], t_decisions = [], t_bindings = [],
      t_follow_ups = [], t_events = [], t_stores = [], t_scores = [], t_groups = [], t_members = [],
      t_rules = [], t_versions = [], t_configs = [], t_orders = [], t_coupons = [], t_verifies = [],
      t_raw_clues = [], t_refunds = [], t_refund_events = [], t_settlements = []\<rparr>"

definition example_lead :: clue_master_lead where
  "example_lead =
     \<lparr>l_lead_key = ''L1'', l_master_kind = 1, l_order_id = Some ''O1'', l_raw_order_status = Some ''201'',
      l_normalized_order_status = ''active'', l_status_source = ''order'',
      l_order_status_observed_at = Some 5, l_lifecycle_status = ''active'', l_pool_location = None,
      l_allocation_state = ''pending_allocation'', l_current_assignment_round_id = None,
      l_allocation_cycle_id = None, l_ended_without_assignment = False, l_closed_at = None,
      l_closed_reason = None, l_anchor_poi_id = Some ''P1'', l_anchor_store_id = Some ''S1'',
      l_anchor_source = Some ''douyin_follow_poi'', l_anchor_unavailable_reason = None,
      l_anchor_province = Some ''Zhejiang'', l_anchor_city = Some ''Hangzhou'',
      l_anchor_city_code = Some ''Hangzhou'', l_anchor_longitude = Some 120, l_anchor_latitude = Some 30,
      l_is_complete_pool = True, l_state_version = 1, l_updated_at = 5\<rparr>"

definition example_store :: dim_store where
  "example_store =
     \<lparr>s_store_id = ''S1'', s_store_name = ''Store 1'', s_is_active = True,
      s_standard_province = Some ''Zhejiang'', s_standard_city = Some ''Hangzhou'',
      s_city_code = Some ''Hangzhou'', s_longitude = Some 120, s_latitude = Some 30,
      s_is_douyin_clue_applicable = True, s_participates_in_clue_allocation = True,
      s_location_status = ''valid''\<rparr>"

definition example_round :: clue_assignment_round where
  "example_round =
     \<lparr>r_assignment_round_id = ''R1'', r_order_id = ''O1'', r_lead_key = Some ''L1'', r_rule_version_id = Some ''V1'',
      r_strategy_type = Some ''nearby_city_optimization'', r_allocation_decision_id = Some ''D1'',
      r_allocation_cycle_id = None, r_round_no = 1, r_assigned_at = Some 10,
      r_assigned_at_source = ''clue_allocation_engine'', r_assigned_store_id = Some ''S1'',
      r_assigned_store_name = Some ''Store 1'', r_followed_at = None, r_follow_result = ''pending'',
      r_is_followed = False, r_is_follow_success = False, r_round_status = ''active_unfollowed'',
      r_execution_mode = ''formal'', r_matured_at = None, r_terminal_reason = None,
      r_expires_at = Some (10 + hours 24), r_first_sla_expires_at = Some (10 + hours 24),
      r_protection_started_at = None, r_protection_expires_at = None, r_auto_expiry_enabled = Some True,
      r_first_follow_up_sla_hours = Some 24, r_protection_days = Some 7, r_reassign_reason = None,
      r_reassigned_at = None, r_verified_store_id = None, r_verified_at = None, r_created_at = 10, r_updated_at = 10\<rparr>"

text \<open>The example lead while the example round is being followed up.\<close>

definition example_assigned_lead :: clue_master_lead where
  "example_assigned_lead = example_lead\<lparr>l_pool_location := Some ''store_follow_up_pool'', l_allocation_state := ''assigned'',
     l_current_assignment_round_id := Some ''R1''\<rparr>"

end
