(* ===== verification/Headquarters.thy ===== *)
theory Headquarters
  imports ClueModel
begin

text \<open>
  The headquarters pool of \<open>apps/worker/clue_headquarters_pool.py\<close>: leads no store can take,
  one active entry per lead. The functions are modelled for their direct callers, which
  pass no cache of active entries and let every write flush.
\<close>

section \<open>Reason codes\<close>

definition headquarters_pool_reason_codes :: "string list" where
  "headquarters_pool_reason_codes =
     [''missing_follow_poi'', ''anchor_store_unmapped'', ''anchor_geo_invalid'', ''no_published_rule'',
      ''all_strategies_disabled'', ''no_eligible_candidate'', ''all_strategies_exhausted'',
      ''data_inconsistency'']"

definition headquarters_pool_reason_aliases :: "(string \<times> string) list" where
  "headquarters_pool_reason_aliases =
     [(''missing_follow_poi'', ''missing_follow_poi''),
      (''follow_poi_missing'', ''missing_follow_poi''),
      (''anchor_store_unmapped'', ''anchor_store_unmapped''),
      (''follow_poi_unmapped'', ''anchor_store_unmapped''),
      (''follow_poi_store_missing'', ''anchor_store_unmapped''),
      (''anchor_geo_invalid'', ''anchor_geo_invalid''),
      (''anchor_coordinates_invalid'', ''anchor_geo_invalid''),
      (''anchor_province_missing'', ''anchor_geo_invalid''),
      (''anchor_city_missing'', ''anchor_geo_invalid''),
      (''anchor_city_code_missing'', ''anchor_geo_invalid''),
      (''no_published_rule'', ''no_published_rule''),
      (''rule_version_unavailable'', ''no_published_rule''),
      (''all_strategies_disabled'', ''all_strategies_disabled''),
      (''strategy_disabled'', ''all_strategies_disabled''),
      (''no_eligible_candidate'', ''no_eligible_candidate''),
      (''no_candidate'', ''no_eligible_candidate''),
      (''sale_store_unmapped'', ''no_eligible_candidate''),
      (''all_strategies_exhausted'', ''all_strategies_exhausted''),
      (''strategies_exhausted'', ''all_strategies_exhausted''),
      (''data_inconsistency'', ''data_inconsistency''),
      (''headquarters_pool_retained'', ''data_inconsistency''),
      (''order_id_missing'', ''data_inconsistency''),
      (''headquarters'', ''data_inconsistency'')]"

definition canonical_headquarters_pool_reason :: "string option \<Rightarrow> string" where
  "canonical_headquarters_pool_reason v =
     (case map_of headquarters_pool_reason_aliases (py_strip (or_else v [])) of
        Some code \<Rightarrow> code
      | None \<Rightarrow> ''data_inconsistency'')"

definition headquarters_pool_reason_storage_values :: "string \<Rightarrow> string list" where
  "headquarters_pool_reason_storage_values reason_code =
     sort (map fst (filter (\<lambda>(v, mapped). mapped = canonical_headquarters_pool_reason (Some reason_code))
                     headquarters_pool_reason_aliases))"

section \<open>Entries\<close>

definition is_active_entry :: "clue_headquarters_pool_entry \<Rightarrow> bool" where
  "is_active_entry e \<longleftrightarrow> e_status e = ''active''"

definition get_active_headquarters_pool_entry :: "db \<Rightarrow> string \<Rightarrow> clue_headquarters_pool_entry option" where
  "get_active_headquarters_pool_entry s lead_key =
     last_by (\<lambda>e. (e_entered_at e, e_headquarters_pool_entry_id e))
       (filter (\<lambda>e. e_lead_key e = lead_key \<and> is_active_entry e) (t_entries s))"

text \<open>
  Adding an entry: the primary key is new and the partial unique index allows one active
  entry per lead.
\<close>

definition add_entry :: "clue_headquarters_pool_entry \<Rightarrow> db \<Rightarrow> db result" where
  "add_entry e s =
     (if e_headquarters_pool_entry_id e \<in> e_headquarters_pool_entry_id ` set (t_entries s)
         \<or> (is_active_entry e \<and> e_lead_key e \<in> e_lead_key ` set (filter is_active_entry (t_entries s)))
      then Inl (IntegrityError ''clue_headquarters_pool_entries'')
      else Inr (s\<lparr>t_entries := add_row e (t_entries s)\<rparr>))"

definition close_current_headquarters_pool_entry ::
  "db \<Rightarrow> string \<Rightarrow> instant \<Rightarrow> string \<Rightarrow> string \<Rightarrow> clue_headquarters_pool_entry option \<times> db" where
  "close_current_headquarters_pool_entry s lead_key closed_at close_reason status =
     (case get_active_headquarters_pool_entry s lead_key of
        None \<Rightarrow> (None, s)
      | Some entry \<Rightarrow>
          (let entry' = entry\<lparr>e_status := status, e_closed_at := Some closed_at,
                              e_close_reason := Some close_reason, e_updated_at := closed_at\<rparr>
           in (Some entry', put_entry entry' s)))"

definition if_none :: "'a option \<Rightarrow> 'a option \<Rightarrow> 'a option" where
  "if_none v d = (case v of None \<Rightarrow> d | Some x \<Rightarrow> Some x)"

text \<open>The entry \<open>enter_headquarters_pool\<close> stores for a lead, a reason and its sources.\<close>

definition new_pool_entry ::
  "platform \<Rightarrow> string \<Rightarrow> string \<Rightarrow> instant \<Rightarrow> clue_allocation_decision option \<Rightarrow> string option
   \<Rightarrow> string option \<Rightarrow> string option \<Rightarrow> pydict \<Rightarrow> clue_headquarters_pool_entry" where
  "new_pool_entry P lead_key reason occurred_at source_decision source_assignment_round_id
       source_rule_version_id allocation_cycle_id source_snapshot =
     (let original_reason = py_strip reason;
          canonical_reason = canonical_headquarters_pool_reason (Some original_reason);
          decision_id = map_option d_decision_id source_decision;
          snapshot0 = (case source_decision of Some d \<Rightarrow> d_decision_snapshot d | None \<Rightarrow> source_snapshot);
          snapshot = (if original_reason \<noteq> [] \<and> original_reason \<noteq> canonical_reason
                      then dsetdefault snapshot0 ''original_reason_code'' (PStr original_reason)
                      else snapshot0);
          entry_key = py_join ''|''
            [lead_key, or_else decision_id [], canonical_reason, or_else allocation_cycle_id [],
             iso_format P occurred_at]
      in \<lparr>e_headquarters_pool_entry_id = ''headquarters-pool-'' @ take 24 (hex_digest P entry_key),
          e_lead_key = lead_key, e_status = ''active'', e_reason = canonical_reason,
          e_entered_at = occurred_at, e_closed_at = None, e_close_reason = None,
          e_source_assignment_round_id =
            if_none source_assignment_round_id (Option.bind source_decision d_assignment_round_id),
          e_source_decision_id = decision_id,
          e_source_rule_version_id =
            if_none source_rule_version_id (Option.bind source_decision d_rule_version_id),
          e_allocation_cycle_id =
            if_none allocation_cycle_id (Option.bind source_decision d_allocation_cycle_id),
          e_source_snapshot = snapshot, e_created_at = occurred_at, e_updated_at = occurred_at\<rparr>)"

definition enter_headquarters_pool ::
  "platform \<Rightarrow> db \<Rightarrow> clue_master_lead \<Rightarrow> string \<Rightarrow> instant \<Rightarrow> clue_allocation_decision option
   \<Rightarrow> string option \<Rightarrow> string option \<Rightarrow> string option \<Rightarrow> pydict
   \<Rightarrow> (clue_headquarters_pool_entry \<times> db) result" where
  "enter_headquarters_pool P s lead reason occurred_at source_decision source_assignment_round_id
       source_rule_version_id allocation_cycle_id source_snapshot =
     (let active = get_active_headquarters_pool_entry s (l_lead_key lead);
          entry = new_pool_entry P (l_lead_key lead) reason occurred_at source_decision
                    source_assignment_round_id source_rule_version_id allocation_cycle_id source_snapshot
      in case active of
           Some a \<Rightarrow>
             (if e_source_decision_id a = map_option d_decision_id source_decision then Inr (a, s)
              else let (_, s') = close_current_headquarters_pool_entry s (l_lead_key lead) occurred_at
                                   ''superseded_by_new_allocation'' ''superseded''
                   in bind_result (add_entry entry s') (\<lambda>s''. Inr (entry, s'')))
         | None \<Rightarrow> bind_result (add_entry entry s) (\<lambda>s''. Inr (entry, s'')))"

definition ensure_active_headquarters_pool_entry ::
  "platform \<Rightarrow> db \<Rightarrow> clue_master_lead \<Rightarrow> string \<Rightarrow> instant \<Rightarrow> pydict
   \<Rightarrow> (clue_headquarters_pool_entry \<times> db) result" where
  "ensure_active_headquarters_pool_entry P s lead reason entered_at source_snapshot =
     (case get_active_headquarters_pool_entry s (l_lead_key lead) of
        Some active \<Rightarrow> Inr (active, s)
      | None \<Rightarrow> enter_headquarters_pool P s lead reason entered_at None None None None source_snapshot)"

section \<open>The invariant and the pool as a map\<close>

definition pool_inv :: "db \<Rightarrow> bool" where
  "pool_inv s \<longleftrightarrow> distinct (map e_headquarters_pool_entry_id (t_entries s))
     \<and> distinct (map e_lead_key (filter is_active_entry (t_entries s)))"

text \<open>
  What a client relies on: an invariant, the active entry of a lead, closing it, and
  entering a lead.
\<close>

locale lead_pool =
  fixes inv :: "'s \<Rightarrow> bool"
    and active :: "'s \<Rightarrow> string \<Rightarrow> 'e option"
    and close :: "'s \<Rightarrow> string \<Rightarrow> 'c \<Rightarrow> 's"
    and key :: "'l \<Rightarrow> string"
    and enter :: "'s \<Rightarrow> 'l \<Rightarrow> 'a \<Rightarrow> ('e \<times> 's) result"
  assumes close_inv: "inv s \<Longrightarrow> inv (close s k c)"
    and active_close: "inv s \<Longrightarrow> active (close s k c) k' = (if k' = k then None else active s k')"
    and enter_inv: "inv s \<Longrightarrow> enter s l a = Inr (e, s') \<Longrightarrow> inv s'"
    and active_enter:
      "inv s \<Longrightarrow> enter s l a = Inr (e, s') \<Longrightarrow> active s' k = (if k = key l then Some e else active s k)"
begin

lemma close_idem: "inv s \<Longrightarrow> active (close (close s k c) k d) = active (close s k c)"
  by (rule ext) (simp add: active_close close_inv)

lemma enter_then_close:
  "inv s \<Longrightarrow> enter s l a = Inr (e, s') \<Longrightarrow> active (close s' (key l) c) = (active s)(key l := None)"
  by (rule ext) (simp add: active_close active_enter enter_inv)

lemma close_then_enter:
  "inv s \<Longrightarrow> enter (close s (key l) c) l a = Inr (e, s') \<Longrightarrow> active s' = (active s)(key l \<mapsto> e)"
  by (rule ext) (simp add: active_close active_enter [OF close_inv])

end

subsection \<open>Reading and closing\<close>

lemma active_entry_Some:
  assumes "get_active_headquarters_pool_entry s k = Some e"
  shows "e \<in> set (t_entries s) \<and> e_lead_key e = k \<and> e_status e = ''active''"
  using last_by_Some [OF assms [unfolded get_active_headquarters_pool_entry_def]]
  by (auto simp: is_active_entry_def)

lemma active_entry_None:
  "get_active_headquarters_pool_entry s k = None \<longleftrightarrow> k \<notin> e_lead_key ` set (filter is_active_entry (t_entries s))"
  by (auto simp: get_active_headquarters_pool_entry_def filter_empty_conv)

text \<open>Under the invariant the ordering of the query is immaterial.\<close>

lemma active_entry_iff:
  assumes "pool_inv s"
  shows "get_active_headquarters_pool_entry s k = Some e
     \<longleftrightarrow> e \<in> set (t_entries s) \<and> is_active_entry e \<and> e_lead_key e = k"
proof
  assume "get_active_headquarters_pool_entry s k = Some e"
  then show "e \<in> set (t_entries s) \<and> is_active_entry e \<and> e_lead_key e = k"
    by (auto simp: is_active_entry_def dest: active_entry_Some)
next
  assume e: "e \<in> set (t_entries s) \<and> is_active_entry e \<and> e_lead_key e = k"
  then obtain e' where e': "get_active_headquarters_pool_entry s k = Some e'"
    by (cases "get_active_headquarters_pool_entry s k") (auto simp: active_entry_None)
  have "inj_on e_lead_key (set (filter is_active_entry (t_entries s)))"
    using assms by (auto simp: pool_inv_def distinct_map)
  then have "e' = e" using e active_entry_Some [OF e'] by (auto simp: inj_on_def is_active_entry_def)
  with e' show "get_active_headquarters_pool_entry s k = Some e" by simp
qed

lemma filter_upd_row_drop:
  assumes "distinct (map key rows)" and "\<not> P r" and "r0 \<in> set rows" and "key r0 = key r"
  shows "filter P (upd_row key r rows) = filter (\<lambda>x. P x \<and> x \<noteq> r0) rows"
  using assms
proof (induction rows)
  case (Cons x xs)
  have other: "upd_row key r xs = xs" if "key r \<notin> key ` set xs"
    using that by (auto simp: upd_row_def image_iff intro!: map_idI)
  show ?case
  proof (cases "x = r0")
    case True
    then have fresh: "key r \<notin> key ` set xs" using Cons.prems by auto
    then have "r0 \<notin> set xs" using Cons.prems(4) by (auto simp: image_iff)
    then have "filter (\<lambda>y. P y \<and> y \<noteq> r0) xs = filter P xs" by (auto intro!: filter_cong)
    then show ?thesis using True Cons.prems other [OF fresh] by (simp add: upd_row_def)
  next
    case False
    then have "r0 \<in> set xs" "key x \<noteq> key r" using Cons.prems by (auto simp: image_iff)
    with Cons False show ?thesis by (auto simp: upd_row_def)
  qed
qed simp

lemma close_entries:
  assumes "pool_inv s" and "status \<noteq> ''active''"
    and "get_active_headquarters_pool_entry s k = Some e"
  shows "filter is_active_entry (t_entries (snd (close_current_headquarters_pool_entry s k t r status)))
     = filter (\<lambda>x. is_active_entry x \<and> x \<noteq> e) (t_entries s)"
proof -
  have "e \<in> set (t_entries s)" using active_entry_Some [OF assms(3)] by simp
  with assms show ?thesis
    by (simp add: close_current_headquarters_pool_entry_def Let_def put_entry_def pool_inv_def
        filter_upd_row_drop [where ?r0.0 = e] is_active_entry_def)
qed

lemma close_pool_inv:
  assumes "pool_inv s" and "status \<noteq> ''active''"
  shows "pool_inv (snd (close_current_headquarters_pool_entry s k t r status))"
proof (cases "get_active_headquarters_pool_entry s k")
  case None
  with assms show ?thesis by (simp add: close_current_headquarters_pool_entry_def)
next
  case (Some e)
  let ?s = "snd (close_current_headquarters_pool_entry s k t r status)"
  have "distinct (map e_headquarters_pool_entry_id (t_entries ?s))"
    using assms Some
    by (simp add: close_current_headquarters_pool_entry_def Let_def put_entry_def pool_inv_def)
  moreover have "distinct (map e_lead_key (filter is_active_entry (t_entries ?s)))"
    using assms close_entries [OF assms Some, of t r]
    by (auto simp: pool_inv_def distinct_map inj_on_def)
  ultimately show ?thesis by (simp add: pool_inv_def)
qed

lemma active_after_close:
  assumes "pool_inv s" and "status \<noteq> ''active''"
  shows "get_active_headquarters_pool_entry (snd (close_current_headquarters_pool_entry s k t r status)) k'
     = (if k' = k then None else get_active_headquarters_pool_entry s k')"
proof (cases "get_active_headquarters_pool_entry s k")
  case None
  then show ?thesis by (simp add: close_current_headquarters_pool_entry_def)
next
  case (Some e)
  let ?s = "snd (close_current_headquarters_pool_entry s k t r status)"
  have inv: "pool_inv ?s" by (rule close_pool_inv [OF assms])
  have "x \<in> set (filter is_active_entry (t_entries ?s))
     \<longleftrightarrow> x \<in> set (filter (\<lambda>x. is_active_entry x \<and> x \<noteq> e) (t_entries s))" for x
    by (simp only: close_entries [OF assms Some])
  then have mem: "x \<in> set (t_entries ?s) \<and> is_active_entry x
     \<longleftrightarrow> x \<in> set (t_entries s) \<and> is_active_entry x \<and> x \<noteq> e" for x
    by (simp only: set_filter mem_Collect_eq)
  have iff: "get_active_headquarters_pool_entry ?s k' = Some x
     \<longleftrightarrow> get_active_headquarters_pool_entry s k' = Some x \<and> x \<noteq> e" for x
    unfolding active_entry_iff [OF inv] active_entry_iff [OF assms(1)] using mem [of x] by argo
  have "e_lead_key e = k" using active_entry_Some [OF Some] by simp
  then have own: "x \<noteq> e \<longleftrightarrow> k' \<noteq> k" if "get_active_headquarters_pool_entry s k' = Some x" for x
    using Some that active_entry_Some [OF that] by (metis option.inject)
  show ?thesis
  proof (rule option_eqI)
    fix x
    show "get_active_headquarters_pool_entry ?s k' = Some x
       \<longleftrightarrow> (if k' = k then None else get_active_headquarters_pool_entry s k') = Some x"
      using iff [of x] own [of x] by auto
  qed
qed

subsection \<open>Entering\<close>

lemma new_pool_entry_simps [simp]:
  "e_lead_key (new_pool_entry P k reason t d rd rv cy snap) = k"
  "e_status (new_pool_entry P k reason t d rd rv cy snap) = ''active''"
  "e_source_decision_id (new_pool_entry P k reason t d rd rv cy snap) = map_option d_decision_id d"
  "e_reason (new_pool_entry P k reason t d rd rv cy snap)
     = canonical_headquarters_pool_reason (Some (py_strip reason))"
  "is_active_entry (new_pool_entry P k reason t d rd rv cy snap)"
  by (simp_all add: new_pool_entry_def Let_def is_active_entry_def)

lemma add_entry_pool:
  assumes "pool_inv s" and "add_entry e s = Inr s'" and "is_active_entry e"
  shows "pool_inv s' \<and> get_active_headquarters_pool_entry s' k
     = (if k = e_lead_key e then Some e else get_active_headquarters_pool_entry s k)"
proof -
  from assms have s': "s' = s\<lparr>t_entries := add_row e (t_entries s)\<rparr>"
    and fresh: "e_headquarters_pool_entry_id e \<notin> e_headquarters_pool_entry_id ` set (t_entries s)"
      "e_lead_key e \<notin> e_lead_key ` set (filter is_active_entry (t_entries s))"
    by (auto simp: add_entry_def split: if_splits)
  have inv: "pool_inv s'"
    using assms(1,3) fresh by (simp add: s' pool_inv_def add_row_def)
  have "set (t_entries s') = insert e (set (t_entries s))" by (simp add: s')
  then have "get_active_headquarters_pool_entry s' k = Some x \<longleftrightarrow>
     (if k = e_lead_key e then x = e else get_active_headquarters_pool_entry s k = Some x)" for x
    using fresh assms(3) by (auto simp: active_entry_iff [OF inv] active_entry_iff [OF assms(1)] image_iff)
  then have "get_active_headquarters_pool_entry s' k
     = (if k = e_lead_key e then Some e else get_active_headquarters_pool_entry s k)"
    by (intro option_eqI) auto
  with inv show ?thesis by simp
qed

lemma enter_pool:
  assumes inv: "pool_inv s" and "enter_headquarters_pool P s lead reason t d rd rv cy snap = Inr (e, s')"
  shows "pool_inv s' \<and> get_active_headquarters_pool_entry s' k
     = (if k = l_lead_key lead then Some e else get_active_headquarters_pool_entry s k)"
proof -
  let ?k = "l_lead_key lead"
  let ?e = "new_pool_entry P ?k reason t d rd rv cy snap"
  let ?c = "snd (close_current_headquarters_pool_entry s ?k t ''superseded_by_new_allocation'' ''superseded'')"
  have c: "pool_inv ?c" using close_pool_inv [OF inv] by simp
  show ?thesis
  proof (cases "get_active_headquarters_pool_entry s ?k")
    case None
    with assms(2) have "add_entry ?e s = Inr s' \<and> ?e = e"
      by (auto simp: enter_headquarters_pool_def Let_def bind_result_Inr)
    then show ?thesis using add_entry_pool [OF inv, of ?e s' k] by auto
  next
    case (Some a)
    show ?thesis
    proof (cases "e_source_decision_id a = map_option d_decision_id d")
      case True
      with Some assms show ?thesis by (simp add: enter_headquarters_pool_def)
    next
      case False
      with Some assms(2) have "add_entry ?e ?c = Inr s' \<and> ?e = e"
        by (auto simp: enter_headquarters_pool_def Let_def bind_result_Inr split: prod.splits)
      then show ?thesis using add_entry_pool [OF c, of ?e s' k]
        by (auto simp: active_after_close [OF inv])
    qed
  qed
qed

interpretation hq: lead_pool pool_inv get_active_headquarters_pool_entry
  "\<lambda>s k (t, r, superseded). snd (close_current_headquarters_pool_entry s k t r
      (if superseded then ''superseded'' else ''closed''))"
  l_lead_key
  "\<lambda>s lead (P, reason, t, d, rd, rv, cy, snap). enter_headquarters_pool P s lead reason t d rd rv cy snap"
proof (unfold_locales, goal_cases)
  case (3 s l a e s')
  then show ?case by (cases a) (auto dest: enter_pool)
next
  case (4 s l a e s' k)
  then show ?case using enter_pool [of s _ l _ _ _ _ _ _ _ e s' k] by (fastforce split: prod.splits)
qed (auto simp: close_pool_inv active_after_close split: prod.splits)

section \<open>Properties\<close>

lemma reason_alias_range:
  assumes "map_of headquarters_pool_reason_aliases r = Some c"
  shows "c \<in> set headquarters_pool_reason_codes"
proof -
  have "list_all (\<lambda>(_, c). c \<in> set headquarters_pool_reason_codes) headquarters_pool_reason_aliases"
    by code_simp
  with map_of_SomeD [OF assms] show ?thesis by (auto simp: list_all_iff)
qed

lemma reason_code_fixed:
  "list_all (\<lambda>c. canonical_headquarters_pool_reason (Some c) = c) headquarters_pool_reason_codes"
  by code_simp

lemma canonical_in_codes: "canonical_headquarters_pool_reason r \<in> set headquarters_pool_reason_codes"
proof (cases "map_of headquarters_pool_reason_aliases (py_strip (or_else r []))")
  case None
  then show ?thesis
    by (simp add: canonical_headquarters_pool_reason_def headquarters_pool_reason_codes_def)
next
  case (Some c)
  then show ?thesis using reason_alias_range by (simp add: canonical_headquarters_pool_reason_def)
qed

lemma reason_aliases_distinct: "distinct (map fst headquarters_pool_reason_aliases)"
  by code_simp

text \<open>
  The canonical reason is one of the eight published codes for every input, and
  canonicalising it again changes nothing.
\<close>

theorem canonical_reason_total_idempotent:
  "canonical_headquarters_pool_reason r \<in> set headquarters_pool_reason_codes
   \<and> canonical_headquarters_pool_reason (Some (canonical_headquarters_pool_reason r))
       = canonical_headquarters_pool_reason r"
  using canonical_in_codes [of r] reason_code_fixed by (auto simp: list_all_iff)

text \<open>
  The storage values a query filters on are exactly the spellings that canonicalise to the
  reason, and the canonical code itself is among them, so every entry the pool stores under
  the reason is found.
\<close>

theorem storage_values_complete:
  "set (headquarters_pool_reason_storage_values reason)
     = {v. map_of headquarters_pool_reason_aliases v = Some (canonical_headquarters_pool_reason (Some reason))}
   \<and> canonical_headquarters_pool_reason (Some reason) \<in> set (headquarters_pool_reason_storage_values reason)"
proof -
  let ?c = "canonical_headquarters_pool_reason (Some reason)"
  have eq: "set (headquarters_pool_reason_storage_values reason) = {v. map_of headquarters_pool_reason_aliases v = Some ?c}"
    by (simp add: headquarters_pool_reason_storage_values_def map_of_eq_Some_iff [OF reason_aliases_distinct]
        image_iff set_eq_iff)
  have "list_all (\<lambda>c. map_of headquarters_pool_reason_aliases c = Some c) headquarters_pool_reason_codes"
    by code_simp
  with canonical_in_codes [of "Some reason"] have "map_of headquarters_pool_reason_aliases ?c = Some ?c"
    by (auto simp: list_all_iff)
  with eq show ?thesis by simp
qed

text \<open>
  Entering a lead makes the returned entry its one active entry, for the deciding source
  and under a published reason code, leaves every other lead's active entry alone and keeps the
  rule that a lead has at most one active entry.
\<close>

theorem enter_headquarters_pool_correct:
  assumes "pool_inv s" and "enter_headquarters_pool P s lead reason t d rd rv cy snap = Inr (e, s')"
  shows "pool_inv s' \<and> get_active_headquarters_pool_entry s' = (get_active_headquarters_pool_entry s)(l_lead_key lead \<mapsto> e)
     \<and> e_source_decision_id e = map_option d_decision_id d"
proof -
  have "e_source_decision_id e = map_option d_decision_id d"
    using assms(2)
    by (auto simp: enter_headquarters_pool_def Let_def bind_result_Inr split: option.splits if_splits prod.splits)
  then show ?thesis using enter_pool [OF assms] by (simp add: fun_eq_iff)
qed

theorem enter_headquarters_pool_correct_witness:
  "\<exists>e s'. enter_headquarters_pool example_platform empty_db example_lead ''no_candidate'' 7 None None None None []
       = Inr (e, s') \<and> pool_inv s' \<and> get_active_headquarters_pool_entry s' ''L1'' = Some e"
proof -
  have inv: "pool_inv empty_db" by (simp add: pool_inv_def empty_db_def)
  obtain e s' where enter: "enter_headquarters_pool example_platform empty_db example_lead ''no_candidate'' 7
      None None None None [] = Inr (e, s')"
    by (simp add: enter_headquarters_pool_def get_active_headquarters_pool_entry_def add_entry_def empty_db_def Let_def)
  have "l_lead_key example_lead = ''L1''" by (simp add: example_lead_def)
  with enter enter_headquarters_pool_correct [OF inv enter] show ?thesis by auto
qed

text \<open>
  The only way entering can fail is a primary-key collision of the derived entry id: the
  one-active-entry index can never reject it, because the previous entry is superseded first.
\<close>

theorem enter_headquarters_pool_fails_only_on_id_collision:
  assumes "pool_inv s" and "enter_headquarters_pool P s lead reason t d rd rv cy snap = Inl err"
  shows "e_headquarters_pool_entry_id (new_pool_entry P (l_lead_key lead) reason t d rd rv cy snap)
     \<in> e_headquarters_pool_entry_id ` set (t_entries s)"
proof -
  let ?k = "l_lead_key lead"
  let ?e = "new_pool_entry P ?k reason t d rd rv cy snap"
  let ?c = "snd (close_current_headquarters_pool_entry s ?k t ''superseded_by_new_allocation'' ''superseded'')"
  have ids: "map e_headquarters_pool_entry_id (t_entries ?c) = map e_headquarters_pool_entry_id (t_entries s)"
    by (simp add: close_current_headquarters_pool_entry_def Let_def put_entry_def split: option.splits)
  show ?thesis
  proof (cases "get_active_headquarters_pool_entry s ?k")
    case None
    then have "?k \<notin> e_lead_key ` set (filter is_active_entry (t_entries s))" by (simp add: active_entry_None)
    with None assms(2) show ?thesis
      by (auto simp: enter_headquarters_pool_def Let_def bind_result_Inl add_entry_def split: if_splits)
  next
    case (Some a)
    with assms(2) have "add_entry ?e ?c = Inl err"
      by (auto simp: enter_headquarters_pool_def Let_def bind_result_Inl split: if_splits prod.splits)
    moreover have "get_active_headquarters_pool_entry ?c ?k = None"
      by (simp add: active_after_close [OF assms(1)])
    then have "?k \<notin> e_lead_key ` set (filter is_active_entry (t_entries ?c))" by (simp add: active_entry_None)
    ultimately have "e_headquarters_pool_entry_id ?e \<in> set (map e_headquarters_pool_entry_id (t_entries ?c))"
      by (auto simp: add_entry_def split: if_splits)
    then show ?thesis by (simp add: ids)
  qed
qed

theorem enter_headquarters_pool_fails_only_on_id_collision_witness:
  "\<exists>err s. enter_headquarters_pool example_platform s example_lead ''no_candidate'' 7 None None None None [] = Inl err
     \<and> e_headquarters_pool_entry_id (new_pool_entry example_platform ''L1'' ''no_candidate'' 7 None None None None [])
         \<in> e_headquarters_pool_entry_id ` set (t_entries s)"
proof -
  let ?e = "new_pool_entry example_platform ''L1'' ''no_candidate'' 7 None None None None []"
  let ?s = "empty_db\<lparr>t_entries := [?e\<lparr>e_status := ''closed''\<rparr>]\<rparr>"
  have k: "l_lead_key example_lead = ''L1''" by (simp add: example_lead_def)
  have inv: "pool_inv ?s" by (simp add: pool_inv_def is_active_entry_def)
  have f: "enter_headquarters_pool example_platform ?s example_lead ''no_candidate'' 7 None None None None []
     = Inl (IntegrityError ''clue_headquarters_pool_entries'')"
    by (simp add: enter_headquarters_pool_def get_active_headquarters_pool_entry_def is_active_entry_def
        add_entry_def k Let_def)
  from enter_headquarters_pool_fails_only_on_id_collision [OF inv f] f show ?thesis
    unfolding k by blast
qed

end
