(* ===== verification/RuleVersions.thy ===== *)
theory RuleVersions
  imports ClueModel
begin

text \<open>
  Versioned allocation rules, \<open>apps/worker/clue_rule_versions.py\<close>: store groups, logical rules
  with one scope each, draft, published and retired versions, the resolution of the rule that
  applies to a lead and the immutable binding of a lead to the version it was resolved to.
  Identifiers made by \<open>uuid4\<close> and the clock are arguments.
\<close>

section \<open>Text\<close>

definition required_text :: "string option \<Rightarrow> string \<Rightarrow> string result" where
  "required_text v name =
     (case clean v of None \<Rightarrow> Inl (RuleValidationError (name @ '' is required'')) | Some t \<Rightarrow> Inr t)"

definition city_suffix :: string where
  "city_suffix = [CHR 0xE5, CHR 0xB8, CHR 0x82]"

definition canonical_city_code :: "string option \<Rightarrow> string option" where
  "canonical_city_code v =
     map_option (\<lambda>c. if py_endswith c city_suffix then py_butlast c else c) (clean v)"

section \<open>Store groups\<close>

fun required_texts :: "string option list \<Rightarrow> string \<Rightarrow> string list result" where
  "required_texts [] name = Inr []"
| "required_texts (v # vs) name =
     bind_result (required_text v name) (\<lambda>t. bind_result (required_texts vs name) (\<lambda>ts. Inr (t # ts)))"

definition normalized_store_ids :: "string option list \<Rightarrow> string list result" where
  "normalized_store_ids ids =
     bind_result (required_texts ids ''member_store_id'') (\<lambda>ts.
       if distinct ts then Inr (sort ts)
       else Inl (RuleValidationError ''store group members must be unique''))"

definition validate_store_ids :: "db \<Rightarrow> string list \<Rightarrow> unit result" where
  "validate_store_ids s ids =
     check (list_all (\<lambda>i. i \<in> s_store_id ` set (t_stores s)) ids) (RuleValidationError ''unknown store ids'')"

definition validate_store_group_members_available :: "db \<Rightarrow> string list \<Rightarrow> string option \<Rightarrow> unit result" where
  "validate_store_group_members_available s ids excluding =
     check (\<not> list_ex (\<lambda>m. gm_store_id m \<in> set ids \<and> (truthy excluding \<longrightarrow> gm_store_group_id m \<noteq> the excluding)) (t_members s))
       (RuleValidationError ''stores can belong to only one allocation store group'')"

definition get_store_group :: "db \<Rightarrow> string \<Rightarrow> clue_store_group result" where
  "get_store_group s k =
     (case find_row g_store_group_id k (t_groups s) of
        None \<Rightarrow> Inl (RuleNotFoundError ''clue store group was not found'') | Some g \<Rightarrow> Inr g)"

definition group_members :: "string \<Rightarrow> string list \<Rightarrow> clue_store_group_member list" where
  "group_members g ids = map (\<lambda>i. \<lparr>gm_store_group_id = g, gm_store_id = i\<rparr>) ids"

definition create_store_group ::
  "db \<Rightarrow> string \<Rightarrow> instant \<Rightarrow> string option \<Rightarrow> string option list \<Rightarrow> string option \<Rightarrow> (clue_store_group \<times> db) result" where
  "create_store_group s uid now name member_store_ids created_by =
     bind_result (required_text name ''name'') (\<lambda>group_name.
     bind_result (check (group_name \<notin> g_group_name ` set (t_groups s))
                   (RuleValidationError ''store group name already exists'')) (\<lambda>_.
     bind_result (normalized_store_ids member_store_ids) (\<lambda>ids.
     bind_result (validate_store_ids s ids) (\<lambda>_.
     bind_result (validate_store_group_members_available s ids None) (\<lambda>_.
       let group = \<lparr>g_store_group_id = ''store-group-'' @ uid, g_group_name = group_name,
                    g_created_by = created_by, g_updated_at = now\<rparr>
       in Inr (group, s\<lparr>t_groups := add_row group (t_groups s),
                        t_members := t_members s @ group_members (g_store_group_id group) ids\<rparr>))))))"

definition replace_store_group_members ::
  "db \<Rightarrow> instant \<Rightarrow> string \<Rightarrow> string option list \<Rightarrow> (clue_store_group \<times> db) result" where
  "replace_store_group_members s now store_group_id member_store_ids =
     bind_result (get_store_group s store_group_id) (\<lambda>group.
     bind_result (normalized_store_ids member_store_ids) (\<lambda>ids.
     bind_result (validate_store_ids s ids) (\<lambda>_.
     bind_result (validate_store_group_members_available s ids (Some (g_store_group_id group))) (\<lambda>_.
       let group' = group\<lparr>g_updated_at := now\<rparr>;
           kept = filter (\<lambda>m. gm_store_group_id m \<noteq> g_store_group_id group) (t_members s)
       in Inr (group', s\<lparr>t_groups := upd_row g_store_group_id group' (t_groups s),
                         t_members := kept @ group_members (g_store_group_id group) ids\<rparr>)))))"

section \<open>Rules\<close>

definition scope_types :: "string list" where
  "scope_types = [''global'', ''city'', ''store_group'', ''anchor_store'']"

definition strategy_types :: "string list" where
  "strategy_types = [''sales_store_priority'', ''nearby_city_optimization'', ''city_fallback'']"

definition distance_strategy_types :: "string list" where
  "distance_strategy_types = [''sales_store_priority'', ''nearby_city_optimization'']"

record rule_scope =
  sp_scope_type :: string
  sp_scope_key :: string
  sp_scope_city_code :: "string option"
  sp_scope_store_group_id :: "string option"
  sp_scope_anchor_store_id :: "string option"

definition normalize_scope ::
  "string \<Rightarrow> string option \<Rightarrow> string option \<Rightarrow> string option \<Rightarrow> rule_scope result" where
  "normalize_scope scope_type city_code store_group_id anchor_store_id =
     (let city = canonical_city_code city_code;
          grp = clean store_group_id;
          anchor = clean anchor_store_id;
          targets = [(''city'', city), (''store_group'', grp), (''anchor_store'', anchor)]
      in if scope_type \<notin> set scope_types then Inl (RuleValidationError ''scope_type must be one of the scope types'')
         else if scope_type = ''global'' then
           (if list_ex (\<lambda>(_, t). truthy t) targets
            then Inl (RuleValidationError ''global scope cannot include a city, store group, or anchor store'')
            else Inr \<lparr>sp_scope_type = scope_type, sp_scope_key = ''global'', sp_scope_city_code = None,
                      sp_scope_store_group_id = None, sp_scope_anchor_store_id = None\<rparr>)
         else (case map_of targets scope_type of
                 Some (Some target) \<Rightarrow>
                   (if target = [] then Inl (RuleValidationError (scope_type @ '' scope requires its target identifier''))
                    else if list_ex (\<lambda>(name, t). name \<noteq> scope_type \<and> truthy t) targets
                    then Inl (RuleValidationError ''a logical rule scope can only declare one target'')
                    else Inr \<lparr>sp_scope_type = scope_type, sp_scope_key = scope_type @ '':'' @ target,
                              sp_scope_city_code = (if scope_type = ''city'' then city else None),
                              sp_scope_store_group_id = (if scope_type = ''store_group'' then grp else None),
                              sp_scope_anchor_store_id = (if scope_type = ''anchor_store'' then anchor else None)\<rparr>)
               | _ \<Rightarrow> Inl (RuleValidationError (scope_type @ '' scope requires its target identifier''))))"

definition create_rule ::
  "db \<Rightarrow> string \<Rightarrow> string option \<Rightarrow> string option \<Rightarrow> string option \<Rightarrow> string option \<Rightarrow> string option \<Rightarrow> string option
   \<Rightarrow> (clue_allocation_rule \<times> db) result" where
  "create_rule s uid name scope_type city_code store_group_id anchor_store_id created_by =
     bind_result (required_text scope_type ''scope_type'') (\<lambda>st.
     bind_result (normalize_scope st city_code store_group_id anchor_store_id) (\<lambda>scope.
     bind_result (check (sp_scope_key scope \<notin> ru_scope_key ` set (t_rules s))
                   (RuleValidationError ''a logical rule already exists for this scope'')) (\<lambda>_.
     bind_result (if truthy (sp_scope_store_group_id scope)
                  then bind_result (get_store_group s (the (sp_scope_store_group_id scope))) (\<lambda>_. Inr ())
                  else Inr ()) (\<lambda>_.
     bind_result (check (truthy (sp_scope_anchor_store_id scope)
                          \<longrightarrow> the (sp_scope_anchor_store_id scope) \<in> s_store_id ` set (t_stores s))
                   (RuleValidationError ''anchor_store_id does not reference a known store'')) (\<lambda>_.
     bind_result (required_text name ''name'') (\<lambda>rule_name.
       let rule = \<lparr>ru_rule_id = ''rule-'' @ uid, ru_rule_name = rule_name,
                   ru_scope_type = sp_scope_type scope, ru_scope_key = sp_scope_key scope,
                   ru_scope_city_code = sp_scope_city_code scope,
                   ru_scope_store_group_id = sp_scope_store_group_id scope,
                   ru_scope_anchor_store_id = sp_scope_anchor_store_id scope,
                   ru_created_by = created_by\<rparr>
       in Inr (rule, s\<lparr>t_rules := add_row rule (t_rules s)\<rparr>)))))))"

definition get_rule :: "db \<Rightarrow> string \<Rightarrow> clue_allocation_rule result" where
  "get_rule s k =
     (case find_row ru_rule_id k (t_rules s) of
        None \<Rightarrow> Inl (RuleNotFoundError ''clue allocation rule was not found'') | Some r \<Rightarrow> Inr r)"

definition get_rule_version :: "db \<Rightarrow> string \<Rightarrow> clue_allocation_rule_version result" where
  "get_rule_version s k =
     (case get_version s k of
        None \<Rightarrow> Inl (RuleNotFoundError ''clue allocation rule version was not found'') | Some v \<Rightarrow> Inr v)"

definition require_draft :: "clue_allocation_rule_version \<Rightarrow> unit result" where
  "require_draft v = check (v_status v = ''draft'') (RuleImmutableError ''only draft versions can be changed or deleted'')"

section \<open>Versions\<close>

definition as_decimal_or_none :: "pyval \<Rightarrow> string \<Rightarrow> pynum option result" where
  "as_decimal_or_none v name =
     (if v = PNone then Inr None
      else case decimal_of v of
             Some x \<Rightarrow> Inr (Some x)
           | None \<Rightarrow> Inl (RuleValidationError (name @ '' must be numeric'')))"

fun strategy_config_rows ::
  "(pyval \<Rightarrow> string) \<Rightarrow> (nat \<Rightarrow> string) \<Rightarrow> nat \<Rightarrow> string \<Rightarrow> pyval list \<Rightarrow> clue_allocation_strategy_config list result" where
  "strategy_config_rows repr uid n version_id [] = Inr []"
| "strategy_config_rows repr uid n version_id (config # configs) =
     (case config of
        PDict d \<Rightarrow>
          (case dget_default d ''params'' (PDict []) of
             PDict params \<Rightarrow>
               bind_result (strategy_config_rows repr uid (Suc n) version_id configs) (\<lambda>rows.
                 Inr (\<lparr>cf_strategy_config_id = ''strategy-config-'' @ uid n, cf_rule_version_id = version_id,
                       cf_strategy_type =
                         py_strip (py_str repr (py_or (dget d ''strategy_type'') (PStr []))),
                       cf_enabled = dget d ''enabled'', cf_execution_order = dget d ''execution_order'',
                       cf_params_json = params\<rparr> # rows))
           | _ \<Rightarrow> Inl (RuleValidationError ''strategy config params must be an object''))
      | _ \<Rightarrow> Inl (RuleValidationError ''each strategy config must be an object''))"

text \<open>
  \<open>_replace_strategy_configs\<close> followed by its caller's flush: the version's configurations are
  replaced, and the two columns that may not be null are checked.
\<close>

definition replace_strategy_configs ::
  "(pyval \<Rightarrow> string) \<Rightarrow> (nat \<Rightarrow> string) \<Rightarrow> db \<Rightarrow> string \<Rightarrow> pyval \<Rightarrow> db result" where
  "replace_strategy_configs repr uid s version_id strategy_configs =
     bind_result (check (is_list strategy_configs) (RuleValidationError ''strategy_configs must be a list'')) (\<lambda>_.
     bind_result (strategy_config_rows repr uid 0 version_id (the_list strategy_configs)) (\<lambda>rows.
     bind_result (check (list_all (\<lambda>c. cf_enabled c \<noteq> PNone \<and> cf_execution_order c \<noteq> PNone) rows)
                   (IntegrityError ''clue_allocation_strategy_configs'')) (\<lambda>_.
       Inr (s\<lparr>t_configs := filter (\<lambda>c. cf_rule_version_id c \<noteq> version_id) (t_configs s) @ rows\<rparr>))))"

record rule_settings =
  st_auto_expiry_enabled :: pyval
  st_first_follow_up_sla_hours :: pyval
  st_protection_days :: pyval
  st_conversion_weight :: pyval
  st_follow_24h_weight :: pyval
  st_lookback_days :: pyval
  st_min_samples :: pyval

definition create_rule_version ::
  "platform \<Rightarrow> db \<Rightarrow> string \<Rightarrow> (nat \<Rightarrow> string) \<Rightarrow> instant \<Rightarrow> string \<Rightarrow> rule_settings \<Rightarrow> pyval \<Rightarrow> string option
   \<Rightarrow> (clue_allocation_rule_version \<times> db) result" where
  "create_rule_version P s uid config_uid now rule_id st strategy_configs created_by =
     bind_result (get_rule s rule_id) (\<lambda>rule.
     bind_result (as_decimal_or_none (st_conversion_weight st) ''conversion_weight'') (\<lambda>cw.
     bind_result (as_decimal_or_none (st_follow_24h_weight st) ''follow_24h_weight'') (\<lambda>fw.
       let current_max = max_or_none (map v_version_no (filter (\<lambda>v. v_rule_id v = ru_rule_id rule) (t_versions s)));
           version = \<lparr>v_rule_version_id = ''rule-version-'' @ uid, v_rule_id = ru_rule_id rule,
                      v_version_no = (case current_max of None \<Rightarrow> 0 | Some n \<Rightarrow> n) + 1, v_status = ''draft'',
                      v_auto_expiry_enabled = st_auto_expiry_enabled st,
                      v_first_follow_up_sla_hours = st_first_follow_up_sla_hours st,
                      v_protection_days = st_protection_days st,
                      v_conversion_weight = cw, v_follow_24h_weight = fw,
                      v_lookback_days = st_lookback_days st, v_min_samples = st_min_samples st,
                      v_created_by = created_by, v_updated_by = created_by, v_published_by = None,
                      v_retired_by = None, v_published_at = None, v_retired_at = None, v_updated_at = now\<rparr>
       in bind_result (replace_strategy_configs (py_repr P) config_uid
                         (s\<lparr>t_versions := add_row version (t_versions s)\<rparr>)
                         (v_rule_version_id version) strategy_configs) (\<lambda>s'. Inr (version, s')))))"

text \<open>The keyword arguments of \<open>update_rule_version\<close>: \<open>None\<close> for a field that is not given.\<close>

record version_changes =
  ch_auto_expiry_enabled :: "pyval option"
  ch_first_follow_up_sla_hours :: "pyval option"
  ch_protection_days :: "pyval option"
  ch_conversion_weight :: "pyval option"
  ch_follow_24h_weight :: "pyval option"
  ch_lookback_days :: "pyval option"
  ch_min_samples :: "pyval option"
  ch_updated_by :: "string option option"
  ch_strategy_configs :: "pyval option"
  ch_unknown_fields :: "string list"

definition given :: "'a option \<Rightarrow> 'a \<Rightarrow> 'a" where
  "given v old = (case v of None \<Rightarrow> old | Some x \<Rightarrow> x)"

definition changed_weight :: "pyval option \<Rightarrow> string \<Rightarrow> pynum option \<Rightarrow> pynum option result" where
  "changed_weight v name old = (case v of None \<Rightarrow> Inr old | Some x \<Rightarrow> as_decimal_or_none x name)"

definition update_rule_version ::
  "platform \<Rightarrow> db \<Rightarrow> (nat \<Rightarrow> string) \<Rightarrow> instant \<Rightarrow> string \<Rightarrow> version_changes
   \<Rightarrow> (clue_allocation_rule_version \<times> db) result" where
  "update_rule_version P s config_uid now rule_version_id ch =
     bind_result (get_rule_version s rule_version_id) (\<lambda>version.
     bind_result (require_draft version) (\<lambda>_.
     bind_result (check (ch_unknown_fields ch = []) (RuleValidationError ''unsupported rule version fields'')) (\<lambda>_.
     bind_result (changed_weight (ch_conversion_weight ch) ''conversion_weight'' (v_conversion_weight version)) (\<lambda>cw.
     bind_result (changed_weight (ch_follow_24h_weight ch) ''follow_24h_weight'' (v_follow_24h_weight version)) (\<lambda>fw.
       let version' = version\<lparr>
             v_auto_expiry_enabled := given (ch_auto_expiry_enabled ch) (v_auto_expiry_enabled version),
             v_first_follow_up_sla_hours := given (ch_first_follow_up_sla_hours ch) (v_first_follow_up_sla_hours version),
             v_protection_days := given (ch_protection_days ch) (v_protection_days version),
             v_conversion_weight := cw, v_follow_24h_weight := fw,
             v_lookback_days := given (ch_lookback_days ch) (v_lookback_days version),
             v_min_samples := given (ch_min_samples ch) (v_min_samples version),
             v_updated_by := given (ch_updated_by ch) (v_updated_by version),
             v_updated_at := now\<rparr>;
           s1 = put_version version' s
       in bind_result (case ch_strategy_configs ch of
                         None \<Rightarrow> Inr s1
                       | Some configs \<Rightarrow>
                           replace_strategy_configs (py_repr P) config_uid s1 (v_rule_version_id version) configs)
            (\<lambda>s2. Inr (version', s2)))))))"

text \<open>Deleting a version; its configurations go with it by the foreign key's cascade.\<close>

definition delete_rule_version :: "db \<Rightarrow> string \<Rightarrow> db result" where
  "delete_rule_version s rule_version_id =
     bind_result (get_rule_version s rule_version_id) (\<lambda>version.
     bind_result (require_draft version) (\<lambda>_.
       Inr (s\<lparr>t_versions := filter (\<lambda>v. v_rule_version_id v \<noteq> rule_version_id) (t_versions s),
              t_configs := filter (\<lambda>c. cf_rule_version_id c \<noteq> rule_version_id) (t_configs s)\<rparr>)))"

section \<open>Publication\<close>

definition validate_integer_range :: "pyval \<Rightarrow> string \<Rightarrow> int \<Rightarrow> int \<Rightarrow> unit result" where
  "validate_integer_range v name lo hi =
     (case v of
        PInt i \<Rightarrow> check (lo \<le> i \<and> i \<le> hi) (RuleValidationError (name @ '' is out of range''))
      | _ \<Rightarrow> Inl (RuleValidationError (name @ '' is out of range'')))"

text \<open>Ordering a decimal NaN raises \<open>decimal.InvalidOperation\<close>.\<close>

definition validate_weight :: "pynum option \<Rightarrow> string \<Rightarrow> rat result" where
  "validate_weight v name =
     (case v of
        None \<Rightarrow> Inl (RuleValidationError (name @ '' is required''))
      | Some NaN \<Rightarrow> Inl InvalidOperation
      | Some (Inf _) \<Rightarrow> Inl (RuleValidationError (name @ '' must be between 0 and 1''))
      | Some (Fin q) \<Rightarrow>
          (if q < 0 \<or> q > 1 then Inl (RuleValidationError (name @ '' must be between 0 and 1'')) else Inr q))"

definition max_distance_bound :: rat where
  "max_distance_bound = 1000"

definition validate_distance :: "pydict \<Rightarrow> string \<Rightarrow> unit result" where
  "validate_distance params strategy_type =
     (case decimal_of (dget params ''max_distance_km'') of
        None \<Rightarrow> Inl (RuleValidationError (strategy_type @ ''.max_distance_km must be a positive number''))
      | Some NaN \<Rightarrow> Inl InvalidOperation
      | Some (Inf _) \<Rightarrow> Inl (RuleValidationError (strategy_type @ ''.max_distance_km must be between 0 and 1000''))
      | Some (Fin q) \<Rightarrow>
          check (0 < q \<and> q \<le> max_distance_bound)
            (RuleValidationError (strategy_type @ ''.max_distance_km must be between 0 and 1000'')))"

definition order_of :: "pyval \<Rightarrow> int" where
  "order_of v = (case v of PInt i \<Rightarrow> i | PBool b \<Rightarrow> (if b then 1 else 0) | _ \<Rightarrow> 0)"

definition version_configs :: "db \<Rightarrow> string \<Rightarrow> clue_allocation_strategy_config list" where
  "version_configs s version_id =
     sort_key (\<lambda>c. (order_of (cf_execution_order c), cf_strategy_config_id c))
       (filter (\<lambda>c. cf_rule_version_id c = version_id) (t_configs s))"

definition config_of_type :: "clue_allocation_strategy_config list \<Rightarrow> string \<Rightarrow> clue_allocation_strategy_config option" where
  "config_of_type configs t = find_row cf_strategy_type t configs"

fun validate_configs :: "clue_allocation_strategy_config list \<Rightarrow> int list result" where
  "validate_configs [] = Inr []"
| "validate_configs (c # cs) =
     bind_result (case cf_enabled c of PBool _ \<Rightarrow> Inr ()
                  | _ \<Rightarrow> Inl (RuleValidationError ''strategy enabled must be a boolean'')) (\<lambda>_.
     bind_result (case cf_execution_order c of
                    PInt i \<Rightarrow> (if i \<le> 0 then Inl (RuleValidationError ''strategy execution_order must be a positive integer'')
                               else Inr i)
                  | _ \<Rightarrow> Inl (RuleValidationError ''strategy execution_order must be a positive integer'')) (\<lambda>i.
     bind_result (if cf_strategy_type c \<in> set distance_strategy_types \<or> dhas (cf_params_json c) ''max_distance_km''
                  then validate_distance (cf_params_json c) (cf_strategy_type c) else Inr ()) (\<lambda>_.
     bind_result (validate_configs cs) (\<lambda>orders. Inr (i # orders)))))"

definition validate_strategy_configs :: "clue_allocation_strategy_config list \<Rightarrow> unit result" where
  "validate_strategy_configs configs =
     (let types = map cf_strategy_type configs
      in if length configs \<noteq> length strategy_types \<or> set types \<noteq> set strategy_types
         then Inl (RuleValidationError ''all three fixed strategy types must be present exactly once'')
         else
         (let nearby = the (config_of_type configs ''nearby_city_optimization'');
              fallback = the (config_of_type configs ''city_fallback'');
              mode = dget_default (cf_params_json nearby) ''selection_mode'' (PStr ''score'')
          in bind_result
               (case mode of
                  PStr m \<Rightarrow> check (m = ''score'' \<or> m = ''douyin_source_store'') (RuleValidationError ''unsupported selection_mode'')
                | PList _ \<Rightarrow> Inl (TypeErr ''unhashable type'')
                | PDict _ \<Rightarrow> Inl (TypeErr ''unhashable type'')
                | _ \<Rightarrow> Inl (RuleValidationError ''unsupported selection_mode'')) (\<lambda>_.
             bind_result
               (if mode = PStr ''douyin_source_store'' then
                  bind_result (check (py_truth (cf_enabled nearby) \<and> \<not> py_truth (cf_enabled fallback))
                    (RuleValidationError ''source-store mode requires the source strategy and disables city fallback'')) (\<lambda>_.
                  check (types = strategy_types)
                    (RuleValidationError ''source-store mode requires sales priority before source store''))
                else Inr ()) (\<lambda>_.
             bind_result (validate_configs configs) (\<lambda>orders.
               check (distinct orders) (RuleValidationError ''strategy execution_order values must be unique''))))))"

definition has_global_default :: "db \<Rightarrow> bool" where
  "has_global_default s \<longleftrightarrow>
     list_ex (\<lambda>v. v_status v = ''published''
        \<and> list_ex (\<lambda>r. ru_rule_id r = v_rule_id v \<and> ru_scope_type r = ''global'') (t_rules s)) (t_versions s)"

definition validate_for_publish :: "db \<Rightarrow> clue_allocation_rule \<Rightarrow> clue_allocation_rule_version \<Rightarrow> unit result" where
  "validate_for_publish s rule version =
     bind_result (check (ru_scope_type rule = ''global'' \<or> has_global_default s)
       (RuleValidationError ''a published global default rule is required before publishing this scope'')) (\<lambda>_.
     bind_result (case v_auto_expiry_enabled version of
                    PBool b \<Rightarrow> Inr b
                  | _ \<Rightarrow> Inl (RuleValidationError ''auto_expiry_enabled must be an explicit boolean'')) (\<lambda>auto_expiry.
     bind_result (if auto_expiry \<or> v_first_follow_up_sla_hours version \<noteq> PNone
                  then validate_integer_range (v_first_follow_up_sla_hours version) ''first_follow_up_sla_hours'' 1 168
                  else Inr ()) (\<lambda>_.
     bind_result (validate_integer_range (v_protection_days version) ''protection_days'' 1 365) (\<lambda>_.
     bind_result (validate_integer_range (v_lookback_days version) ''lookback_days'' 1 365) (\<lambda>_.
     bind_result (validate_integer_range (v_min_samples version) ''min_samples'' 1 10000) (\<lambda>_.
     bind_result (validate_weight (v_conversion_weight version) ''conversion_weight'') (\<lambda>cw.
     bind_result (validate_weight (v_follow_24h_weight version) ''follow_24h_weight'') (\<lambda>fw.
     bind_result (check (cw + fw = 1) (RuleValidationError ''score weights must sum to 1'')) (\<lambda>_.
       validate_strategy_configs (version_configs s (v_rule_version_id version)))))))))))"

definition retire_published :: "instant \<Rightarrow> string option \<Rightarrow> string \<Rightarrow> clue_allocation_rule_version \<Rightarrow> clue_allocation_rule_version" where
  "retire_published now published_by rule_id v =
     (if v_rule_id v = rule_id \<and> v_status v = ''published''
      then v\<lparr>v_status := ''retired'', v_retired_by := published_by, v_retired_at := Some now, v_updated_at := now\<rparr>
      else v)"

definition publish_rule_version ::
  "db \<Rightarrow> instant \<Rightarrow> string \<Rightarrow> string option \<Rightarrow> (clue_allocation_rule_version \<times> db) result" where
  "publish_rule_version s now rule_version_id published_by =
     bind_result (get_rule_version s rule_version_id) (\<lambda>version.
     bind_result (require_draft version) (\<lambda>_.
     bind_result (get_rule s (v_rule_id version)) (\<lambda>rule.
     bind_result (validate_for_publish s rule version) (\<lambda>_.
       let s1 = s\<lparr>t_versions := map (retire_published now published_by (ru_rule_id rule)) (t_versions s)\<rparr>;
           version' = version\<lparr>v_status := ''published'', v_published_by := published_by,
                              v_published_at := Some now, v_updated_by := published_by, v_updated_at := now\<rparr>
       in Inr (version', put_version version' s1)))))"

definition retire_rule_version ::
  "db \<Rightarrow> instant \<Rightarrow> string \<Rightarrow> string option \<Rightarrow> (clue_allocation_rule_version \<times> db) result" where
  "retire_rule_version s now rule_version_id retired_by =
     bind_result (get_rule_version s rule_version_id) (\<lambda>version.
     bind_result (check (v_status version = ''published'') (RuleImmutableError ''only published versions can be retired'')) (\<lambda>_.
     bind_result (get_rule s (v_rule_id version)) (\<lambda>rule.
     bind_result (check (ru_scope_type rule \<noteq> ''global'')
       (RuleImmutableError ''the current global default can only be replaced by publishing a new version'')) (\<lambda>_.
       let version' = version\<lparr>v_status := ''retired'', v_retired_by := retired_by, v_retired_at := Some now,
                              v_updated_at := now\<rparr>
       in Inr (version', put_version version' s)))))"

section \<open>Resolution and binding\<close>

definition publication_order :: "clue_allocation_rule \<times> clue_allocation_rule_version \<Rightarrow> (int \<times> int) \<times> string" where
  "publication_order = (\<lambda>(rule, v).
     ((case v_published_at v of None \<Rightarrow> (0, 0) | Some t \<Rightarrow> (1, - t)), ru_rule_id rule))"

definition published_match ::
  "db \<Rightarrow> (clue_allocation_rule \<Rightarrow> bool) \<Rightarrow> (clue_allocation_rule \<times> clue_allocation_rule_version) option" where
  "published_match s cond =
     first_by publication_order
       [(rule, v). rule \<leftarrow> t_rules s, v \<leftarrow> t_versions s,
                   v_rule_id v = ru_rule_id rule, v_status v = ''published'', cond rule]"

definition resolve_published_rule_version ::
  "db \<Rightarrow> string option \<Rightarrow> string option \<Rightarrow> (clue_allocation_rule \<times> clue_allocation_rule_version) option" where
  "resolve_published_rule_version s anchor_store_id anchor_city_code =
     (let store_match = (if truthy anchor_store_id
            then published_match s (\<lambda>r. ru_scope_type r = ''anchor_store'' \<and> ru_scope_anchor_store_id r = anchor_store_id)
            else None);
          group_ids = map gm_store_group_id (filter (\<lambda>m. Some (gm_store_id m) = anchor_store_id) (t_members s));
          group_match = (if truthy anchor_store_id \<and> group_ids \<noteq> []
            then published_match s (\<lambda>r. ru_scope_type r = ''store_group''
                   \<and> (case ru_scope_store_group_id r of None \<Rightarrow> False | Some g \<Rightarrow> g \<in> set group_ids))
            else None);
          city_match = (if truthy anchor_city_code
            then published_match s (\<lambda>r. ru_scope_type r = ''city'' \<and> ru_scope_city_code r = anchor_city_code)
            else None)
      in case store_match of Some m \<Rightarrow> Some m
         | None \<Rightarrow> (case group_match of Some m \<Rightarrow> Some m
           | None \<Rightarrow> (case city_match of Some m \<Rightarrow> Some m
             | None \<Rightarrow> published_match s (\<lambda>r. ru_scope_type r = ''global''))))"

definition of_weight :: "pynum option \<Rightarrow> pyval" where
  "of_weight w = (case w of None \<Rightarrow> PNone | Some x \<Rightarrow> PFloat x)"

definition rule_version_snapshot :: "db \<Rightarrow> clue_allocation_rule_version \<Rightarrow> pydict" where
  "rule_version_snapshot s v =
     [(''rule_version_id'', PStr (v_rule_version_id v)),
      (''version_no'', PInt (v_version_no v)),
      (''auto_expiry_enabled'', v_auto_expiry_enabled v),
      (''first_follow_up_sla_hours'', v_first_follow_up_sla_hours v),
      (''protection_days'', v_protection_days v),
      (''conversion_weight'', of_weight (v_conversion_weight v)),
      (''follow_24h_weight'', of_weight (v_follow_24h_weight v)),
      (''lookback_days'', v_lookback_days v),
      (''min_samples'', v_min_samples v),
      (''strategy_configs'', PList (map (\<lambda>c. PDict
         [(''strategy_type'', PStr (cf_strategy_type c)), (''enabled'', cf_enabled c),
          (''execution_order'', cf_execution_order c), (''params'', PDict (cf_params_json c))])
        (version_configs s (v_rule_version_id v))))]"

definition get_binding :: "db \<Rightarrow> string \<Rightarrow> clue_lead_rule_version_binding option" where
  "get_binding s k = find_row b_lead_key k (t_bindings s)"

definition scope_snapshot ::
  "clue_allocation_rule \<Rightarrow> clue_allocation_rule_version \<Rightarrow> string option \<Rightarrow> string option \<Rightarrow> pydict" where
  "scope_snapshot rule v anchor_store_id anchor_city_code =
     [(''matched_scope'', PStr (ru_scope_type rule)), (''scope_key'', PStr (ru_scope_key rule)),
      (''rule_id'', PStr (ru_rule_id rule)), (''rule_version_id'', PStr (v_rule_version_id v)),
      (''version_no'', PInt (v_version_no v)),
      (''scope_city_code'', of_text (ru_scope_city_code rule)),
      (''scope_store_group_id'', of_text (ru_scope_store_group_id rule)),
      (''scope_anchor_store_id'', of_text (ru_scope_anchor_store_id rule)),
      (''anchor_store_id'', of_text anchor_store_id), (''anchor_city_code'', of_text anchor_city_code)]"

definition bind_lead_rule_version ::
  "db \<Rightarrow> string option \<Rightarrow> string option \<Rightarrow> string option \<Rightarrow> (clue_lead_rule_version_binding \<times> db) result" where
  "bind_lead_rule_version s lead_key anchor_store_id anchor_city_code =
     bind_result (required_text lead_key ''lead_key'') (\<lambda>k.
       case get_binding s k of
         Some existing \<Rightarrow> Inr (existing, s)
       | None \<Rightarrow>
           (case resolve_published_rule_version s anchor_store_id anchor_city_code of
              None \<Rightarrow> Inl (RuleResolutionError ''no published clue allocation rule matches this lead'')
            | Some (rule, v) \<Rightarrow>
                (let binding = \<lparr>b_lead_key = k, b_rule_version_id = v_rule_version_id v,
                                b_scope_type = ru_scope_type rule, b_scope_key = ru_scope_key rule,
                                b_scope_resolution_snapshot = scope_snapshot rule v anchor_store_id anchor_city_code,
                                b_rule_version_snapshot = rule_version_snapshot s v\<rparr>
                 in Inr (binding, s\<lparr>t_bindings := add_row binding (t_bindings s)\<rparr>))))"

section \<open>The life of rules\<close>

text \<open>
  One step of the rule base: any of the operations that change it, on any arguments. Fresh
  identifiers are what \<open>uuid4\<close> provides.
\<close>

inductive rule_step :: "db \<Rightarrow> db \<Rightarrow> bool" where
  create_group: "create_store_group s uid now name ids by_user = Inr (g, s') \<Longrightarrow> rule_step s s'"
| replace_members: "replace_store_group_members s now k ids = Inr (g, s') \<Longrightarrow> rule_step s s'"
| new_rule: "create_rule s uid name st city grp anchor by_user = Inr (r, s') \<Longrightarrow>
    ''rule-'' @ uid \<notin> ru_rule_id ` set (t_rules s) \<Longrightarrow> rule_step s s'"
| new_version: "create_rule_version P s uid cuid now k st configs by_user = Inr (v, s') \<Longrightarrow>
    ''rule-version-'' @ uid \<notin> v_rule_version_id ` set (t_versions s) \<Longrightarrow> rule_step s s'"
| update: "update_rule_version P s cuid now k ch = Inr (v, s') \<Longrightarrow> rule_step s s'"
| delete: "delete_rule_version s k = Inr s' \<Longrightarrow> rule_step s s'"
| publish: "publish_rule_version s now k by_user = Inr (v, s') \<Longrightarrow> rule_step s s'"
| retire: "retire_rule_version s now k by_user = Inr (v, s') \<Longrightarrow> rule_step s s'"
| bind: "bind_lead_rule_version s k store city = Inr (b, s') \<Longrightarrow> rule_step s s'"

inductive_cases rule_stepE: "rule_step s s'"

definition is_published :: "clue_allocation_rule_version \<Rightarrow> bool" where
  "is_published v \<longleftrightarrow> v_status v = ''published''"

definition rules_inv :: "db \<Rightarrow> bool" where
  "rules_inv s \<longleftrightarrow>
     distinct (map ru_rule_id (t_rules s)) \<and> distinct (map ru_scope_key (t_rules s))
     \<and> distinct (map v_rule_version_id (t_versions s))
     \<and> distinct (map v_rule_id (filter is_published (t_versions s)))
     \<and> distinct (map gm_store_id (t_members s)) \<and> distinct (map b_lead_key (t_bindings s))"

subsection \<open>What each operation changes\<close>

lemma replace_configs_frame:
  "replace_strategy_configs repr uid s k cs = Inr s' \<Longrightarrow> \<exists>rows. s' = s\<lparr>t_configs := rows\<rparr>"
  by (auto simp: replace_strategy_configs_def bind_result_Inr)

lemma get_rule_Inr: "get_rule s k = Inr r \<longleftrightarrow> find_row ru_rule_id k (t_rules s) = Some r"
  by (auto simp: get_rule_def split: option.splits)

lemma get_rule_version_Inr: "get_rule_version s k = Inr v \<longleftrightarrow> get_version s k = Some v"
  by (auto simp: get_rule_version_def split: option.splits)

lemma create_rule_version_frame:
  assumes "create_rule_version P s uid cuid now k st configs by_user = Inr (v, s')"
  shows "\<exists>rows. s' = s\<lparr>t_versions := add_row v (t_versions s), t_configs := rows\<rparr>
     \<and> v_rule_version_id v = ''rule-version-'' @ uid \<and> v_status v = ''draft''"
  using assms by (auto simp: create_rule_version_def Let_def bind_result_Inr dest!: replace_configs_frame)

lemma update_rule_version_frame:
  assumes "update_rule_version P s cuid now k ch = Inr (v, s')"
  shows "\<exists>rows v0. s' = (put_version v s)\<lparr>t_configs := rows\<rparr> \<and> get_version s k = Some v0
     \<and> v_status v0 = ''draft'' \<and> v_rule_version_id v = v_rule_version_id v0 \<and> v_status v = ''draft''
     \<and> v_rule_id v = v_rule_id v0"
proof -
  from assms obtain v0 s1 where v0: "get_version s k = Some v0" "v_status v0 = ''draft''"
    and v: "v_rule_version_id v = v_rule_version_id v0" "v_status v = ''draft''" "v_rule_id v = v_rule_id v0"
    and s1: "s1 = put_version v s"
    and s': "(case ch_strategy_configs ch of None \<Rightarrow> Inr s1
       | Some configs \<Rightarrow> replace_strategy_configs (py_repr P) cuid s1 (v_rule_version_id v0) configs) = Inr s'"
    by (auto simp: update_rule_version_def Let_def bind_result_Inr get_rule_version_Inr require_draft_def)
  from s' have "\<exists>rows. s' = s1\<lparr>t_configs := rows\<rparr>"
    by (cases "ch_strategy_configs ch") (auto dest!: replace_configs_frame intro: exI [of _ "t_configs s1"])
  with v0 v s1 show ?thesis by blast
qed

lemma delete_rule_version_frame:
  assumes "delete_rule_version s k = Inr s'"
  shows "\<exists>rows v. s' = s\<lparr>t_versions := filter (\<lambda>x. v_rule_version_id x \<noteq> k) (t_versions s), t_configs := rows\<rparr>
     \<and> get_version s k = Some v \<and> v_status v = ''draft''"
  using assms by (auto simp: delete_rule_version_def bind_result_Inr get_rule_version_Inr require_draft_def)

lemma publish_rule_version_frame:
  assumes "publish_rule_version s now k by_user = Inr (v, s')"
  shows "\<exists>v0 r. get_version s k = Some v0 \<and> v_status v0 = ''draft''
     \<and> find_row ru_rule_id (v_rule_id v0) (t_rules s) = Some r \<and> validate_for_publish s r v0 = Inr ()
     \<and> v = v0\<lparr>v_status := ''published'', v_published_by := by_user, v_published_at := Some now,
              v_updated_by := by_user, v_updated_at := now\<rparr>
     \<and> s' = put_version v (s\<lparr>t_versions := map (retire_published now by_user (v_rule_id v0)) (t_versions s)\<rparr>)"
proof -
  from assms obtain v0 r where v0: "get_version s k = Some v0" "v_status v0 = ''draft''"
    and r: "find_row ru_rule_id (v_rule_id v0) (t_rules s) = Some r" "validate_for_publish s r v0 = Inr ()"
    and v: "v = v0\<lparr>v_status := ''published'', v_published_by := by_user, v_published_at := Some now,
              v_updated_by := by_user, v_updated_at := now\<rparr>"
    and s': "s' = put_version v (s\<lparr>t_versions := map (retire_published now by_user (ru_rule_id r)) (t_versions s)\<rparr>)"
    by (auto simp: publish_rule_version_def Let_def bind_result_Inr get_rule_version_Inr get_rule_Inr require_draft_def)
  from r(1) have "ru_rule_id r = v_rule_id v0" by (rule find_row_key)
  with v0 r v s' show ?thesis by metis
qed

lemma retire_rule_version_frame:
  assumes "retire_rule_version s now k by_user = Inr (v, s')"
  shows "\<exists>v0 r. get_version s k = Some v0 \<and> v_status v0 = ''published''
     \<and> find_row ru_rule_id (v_rule_id v0) (t_rules s) = Some r \<and> ru_scope_type r \<noteq> ''global''
     \<and> v_rule_version_id v = v_rule_version_id v0 \<and> v_status v = ''retired'' \<and> v_rule_id v = v_rule_id v0
     \<and> s' = put_version v s"
  using assms by (auto simp: retire_rule_version_def Let_def bind_result_Inr get_rule_version_Inr get_rule_Inr)

lemma bind_frame:
  assumes "bind_lead_rule_version s k store city = Inr (b, s')"
  shows "s' = s \<or> (s' = s\<lparr>t_bindings := add_row b (t_bindings s)\<rparr> \<and> get_binding s (b_lead_key b) = None)"
  using assms
  by (auto simp: bind_lead_rule_version_def bind_result_Inr Let_def split: option.splits prod.splits)

subsection \<open>Invariant\<close>

lemma one_published_iff:
  assumes "distinct (map v_rule_version_id vs)"
  shows "distinct (map v_rule_id (filter is_published vs)) \<longleftrightarrow>
    (\<forall>x\<in>set vs. \<forall>y\<in>set vs. is_published x \<longrightarrow> is_published y \<longrightarrow> v_rule_id x = v_rule_id y \<longrightarrow> x = y)"
  using assms by (auto simp: distinct_map inj_on_def)

lemma retire_published_simps [simp]:
  "v_rule_version_id (retire_published now b rid v) = v_rule_version_id v"
  "v_rule_id (retire_published now b rid v) = v_rule_id v"
  "is_published (retire_published now b rid v) \<longleftrightarrow> is_published v \<and> v_rule_id v \<noteq> rid"
  by (auto simp: retire_published_def is_published_def)

lemma retire_published_other: "is_published (retire_published now b rid v) \<Longrightarrow> retire_published now b rid v = v"
  by (simp only: retire_published_simps) (simp add: retire_published_def)

lemma publish_keeps_inv:
  assumes "rules_inv s" and "publish_rule_version s now k by_user = Inr (v, s')"
  shows "rules_inv s'"
proof -
  obtain v0 where v0: "get_version s k = Some v0"
    and v: "v_rule_version_id v = v_rule_version_id v0" "v_rule_id v = v_rule_id v0"
    and s': "s' = put_version v (s\<lparr>t_versions := map (retire_published now by_user (v_rule_id v0)) (t_versions s)\<rparr>)"
    using publish_rule_version_frame [OF assms(2)] by auto
  let ?ret = "retire_published now by_user (v_rule_id v0)"
  have ids: "map v_rule_version_id (t_versions s') = map v_rule_version_id (t_versions s)"
    by (simp add: s' put_version_def comp_def)
  have old: "x = y" if "x \<in> set (t_versions s)" "y \<in> set (t_versions s)" "is_published x" "is_published y"
      "v_rule_id x = v_rule_id y" for x y
    using assms(1) that one_published_iff [of "t_versions s"] by (auto simp: rules_inv_def)
  have member: "x = v \<or> (x \<in> set (t_versions s) \<and> v_rule_id x \<noteq> v_rule_id v)"
    if "x \<in> set (t_versions s')" "is_published x" for x
  proof -
    from that(1) have "x = v \<or> (\<exists>y \<in> set (t_versions s). x = ?ret y)"
      by (auto simp: s' put_version_def dest!: set_upd_row)
    then show ?thesis using that(2) by (auto simp: v retire_published_other dest: retire_published_other)
  qed
  have "distinct (map v_rule_id (filter is_published (t_versions s')))"
    using assms(1) ids member old by (subst one_published_iff) (auto simp: rules_inv_def, metis+)
  then show ?thesis using assms(1) ids by (simp add: rules_inv_def s' put_version_def comp_def)
qed

lemma put_version_keeps_inv:
  assumes "rules_inv s" and "get_version s k = Some v0" and "v_rule_version_id v = v_rule_version_id v0"
    and "\<not> is_published v"
  shows "rules_inv (put_version v s)"
proof -
  let ?s = "put_version v s"
  have ids: "map v_rule_version_id (t_versions ?s) = map v_rule_version_id (t_versions s)"
    by (simp add: put_version_def)
  have member: "x \<in> set (t_versions s)" if "x \<in> set (t_versions ?s)" "is_published x" for x
    using that assms(4) by (auto simp: put_version_def dest!: set_upd_row)
  have "distinct (map v_rule_id (filter is_published (t_versions ?s)))"
    using assms(1) ids member by (subst one_published_iff)
      (auto simp: rules_inv_def one_published_iff)
  then show ?thesis using assms(1) ids by (simp add: rules_inv_def put_version_def)
qed

lemma rules_inv_configs [simp]: "rules_inv (s\<lparr>t_configs := rows\<rparr>) = rules_inv s"
  by (simp add: rules_inv_def)

lemma normalized_ids_distinct: "normalized_store_ids ids = Inr ts \<Longrightarrow> distinct ts"
  by (auto simp: normalized_store_ids_def bind_result_Inr split: if_splits)

lemma group_members_store_ids: "map gm_store_id (group_members g ts) = ts"
  by (simp add: group_members_def comp_def)

lemma create_group_keeps_inv:
  assumes "rules_inv s" and "create_store_group s uid now name ids by_user = Inr (g, s')"
  shows "rules_inv s'"
proof -
  from assms(2) obtain ts gid where ts: "normalized_store_ids ids = Inr ts"
    and free: "\<not> list_ex (\<lambda>m. gm_store_id m \<in> set ts) (t_members s)"
    and s': "s' = s\<lparr>t_groups := add_row g (t_groups s), t_members := t_members s @ group_members gid ts\<rparr>"
    by (auto simp: create_store_group_def Let_def bind_result_Inr validate_store_group_members_available_def)
  have "distinct (map gm_store_id (t_members s'))"
    using assms(1) free normalized_ids_distinct [OF ts]
    by (auto simp: s' rules_inv_def group_members_store_ids list_ex_iff)
  then show ?thesis using assms(1) by (simp add: s' rules_inv_def)
qed

lemma replace_members_keeps_inv:
  assumes "rules_inv s" and "replace_store_group_members s now k ids = Inr (g, s')"
  shows "rules_inv s'"
proof -
  from assms(2) obtain ts g0 where "get_store_group s k = Inr g0" and ts: "normalized_store_ids ids = Inr ts"
    and free: "\<not> list_ex (\<lambda>m. gm_store_id m \<in> set ts \<and> (truthy (Some (g_store_group_id g0))
        \<longrightarrow> gm_store_group_id m \<noteq> g_store_group_id g0)) (t_members s)"
    and s': "s' = s\<lparr>t_groups := upd_row g_store_group_id g (t_groups s),
        t_members := filter (\<lambda>m. gm_store_group_id m \<noteq> g_store_group_id g0) (t_members s)
          @ group_members (g_store_group_id g0) ts\<rparr>"
    by (auto simp: replace_store_group_members_def Let_def bind_result_Inr validate_store_group_members_available_def)
  have "distinct (map gm_store_id (t_members s'))"
    using assms(1) free normalized_ids_distinct [OF ts]
    by (auto simp: s' rules_inv_def group_members_store_ids list_ex_iff distinct_map_filter)
  then show ?thesis using assms(1) by (simp add: s' rules_inv_def)
qed

lemma new_rule_keeps_inv:
  assumes "rules_inv s" and "create_rule s uid name st city grp anchor by_user = Inr (r, s')"
    and "''rule-'' @ uid \<notin> ru_rule_id ` set (t_rules s)"
  shows "rules_inv s'"
  using assms by (auto simp: create_rule_def Let_def bind_result_Inr rules_inv_def)

lemma bind_keeps_inv:
  assumes "rules_inv s" and "bind_lead_rule_version s k store city = Inr (b, s')"
  shows "rules_inv s'"
  using bind_frame [OF assms(2)] assms(1)
  by (auto simp: rules_inv_def get_binding_def find_row_None)

lemma new_version_keeps_inv:
  assumes "rules_inv s" and "create_rule_version P s uid cuid now k st configs by_user = Inr (v, s')"
    and "''rule-version-'' @ uid \<notin> v_rule_version_id ` set (t_versions s)"
  shows "rules_inv s'"
proof -
  obtain rows where "s' = s\<lparr>t_versions := add_row v (t_versions s), t_configs := rows\<rparr>"
    and "v_rule_version_id v = ''rule-version-'' @ uid" and "\<not> is_published v"
    using create_rule_version_frame [OF assms(2)] by (auto simp: is_published_def)
  with assms(1,3) show ?thesis by (simp add: rules_inv_def add_row_def)
qed

lemma update_keeps_inv:
  assumes "rules_inv s" and "update_rule_version P s cuid now k ch = Inr (v, s')"
  shows "rules_inv s'"
proof -
  obtain rows v0 where "s' = (put_version v s)\<lparr>t_configs := rows\<rparr>" and "get_version s k = Some v0"
    and "v_rule_version_id v = v_rule_version_id v0" and "v_status v = ''draft''"
    using update_rule_version_frame [OF assms(2)] by blast
  with assms(1) show ?thesis by (simp add: put_version_keeps_inv is_published_def)
qed

lemma filter_swap: "filter P (filter Q xs) = filter Q (filter P xs)"
  by (induction xs) auto

lemma delete_keeps_inv:
  assumes "rules_inv s" and "delete_rule_version s k = Inr s'"
  shows "rules_inv s'"
proof -
  obtain rows where "s' = s\<lparr>t_versions := filter (\<lambda>x. v_rule_version_id x \<noteq> k) (t_versions s), t_configs := rows\<rparr>"
    using delete_rule_version_frame [OF assms(2)] by blast
  moreover have "distinct (map v_rule_id (filter is_published (filter (\<lambda>x. v_rule_version_id x \<noteq> k) (t_versions s))))"
    using assms(1) unfolding filter_swap [of is_published] by (simp add: rules_inv_def distinct_map_filter del: filter_filter)
  ultimately show ?thesis using assms(1) by (simp add: rules_inv_def distinct_map_filter)
qed

lemma retire_keeps_inv:
  assumes "rules_inv s" and "retire_rule_version s now k by_user = Inr (v, s')"
  shows "rules_inv s'"
proof -
  obtain v0 where "s' = put_version v s" and "get_version s k = Some v0"
    and "v_rule_version_id v = v_rule_version_id v0" and "\<not> is_published v"
    using retire_rule_version_frame [OF assms(2)] by (auto simp: is_published_def)
  with assms(1) show ?thesis by (simp add: put_version_keeps_inv)
qed

lemma rule_step_keeps_inv:
  assumes "rule_step s s'" and "rules_inv s"
  shows "rules_inv s'"
  using assms(1)
proof cases
  case create_group
  then show ?thesis by (rule create_group_keeps_inv [OF assms(2)])
next
  case replace_members
  then show ?thesis by (rule replace_members_keeps_inv [OF assms(2)])
next
  case new_rule
  then show ?thesis by (rule new_rule_keeps_inv [OF assms(2)])
next
  case new_version
  then show ?thesis by (rule new_version_keeps_inv [OF assms(2)])
next
  case update
  then show ?thesis by (rule update_keeps_inv [OF assms(2)])
next
  case delete
  then show ?thesis by (rule delete_keeps_inv [OF assms(2)])
next
  case publish
  then show ?thesis by (rule publish_keeps_inv [OF assms(2)])
next
  case retire
  then show ?thesis by (rule retire_keeps_inv [OF assms(2)])
next
  case bind
  then show ?thesis by (rule bind_keeps_inv [OF assms(2)])
qed

lemma rule_steps_keep_inv: "rule_step\<^sup>*\<^sup>* s s' \<Longrightarrow> rules_inv s \<Longrightarrow> rules_inv s'"
  by (induction rule: rtranclp_induct) (auto intro: rule_step_keeps_inv)

subsection \<open>The published global default\<close>

lemma has_global_default_iff:
  "has_global_default s \<longleftrightarrow>
     (\<exists>v\<in>set (t_versions s). \<exists>r\<in>set (t_rules s). is_published v \<and> ru_rule_id r = v_rule_id v \<and> ru_scope_type r = ''global'')"
  by (auto simp: has_global_default_def is_published_def list_ex_iff)

lemma global_default_mono:
  assumes "has_global_default s" and "set (t_rules s) \<subseteq> set (t_rules s')"
    and "\<And>v. v \<in> set (t_versions s) \<Longrightarrow> is_published v \<Longrightarrow> v \<in> set (t_versions s')"
  shows "has_global_default s'"
  using assms by (auto simp: has_global_default_iff)

lemma rule_unique:
  assumes "rules_inv s" and "find_row ru_rule_id k (t_rules s) = Some r" and "r' \<in> set (t_rules s)" and "ru_rule_id r' = k"
  shows "r' = r"
  using assms find_row_distinct [of ru_rule_id "t_rules s" r'] by (auto simp: rules_inv_def)

lemma version_unique:
  assumes "rules_inv s" and "get_version s k = Some v0" and "v \<in> set (t_versions s)"
    and "v_rule_version_id v = v_rule_version_id v0"
  shows "v = v0"
  using assms find_row_distinct [of v_rule_version_id "t_versions s" v] version_table.get_key [OF assms(2)]
  by (auto simp: rules_inv_def get_version_def)

lemma put_version_global_default:
  assumes inv: "rules_inv s" and g: "has_global_default s" and v0: "get_version s k = Some v0"
    and v: "v_rule_version_id v = v_rule_version_id v0"
    and r: "is_published v0 \<Longrightarrow> \<exists>r. find_row ru_rule_id (v_rule_id v0) (t_rules s) = Some r \<and> ru_scope_type r \<noteq> ''global''"
  shows "has_global_default (put_version v s)"
proof -
  obtain x rx where x: "x \<in> set (t_versions s)" "is_published x" "rx \<in> set (t_rules s)"
    "ru_rule_id rx = v_rule_id x" "ru_scope_type rx = ''global''"
    using g by (auto simp: has_global_default_iff)
  have "v_rule_version_id x \<noteq> v_rule_version_id v"
  proof
    assume "v_rule_version_id x = v_rule_version_id v"
    then have "x = v0" using version_unique [OF inv v0 x(1)] v by simp
    with x r obtain r where "find_row ru_rule_id (v_rule_id x) (t_rules s) = Some r" "ru_scope_type r \<noteq> ''global''"
      by auto
    with rule_unique [OF inv this(1) x(3,4)] x(5) show False by simp
  qed
  with x have "x \<in> set (t_versions (put_version v s))" by (auto simp: put_version_def in_upd_row)
  with x show ?thesis by (auto simp: has_global_default_iff put_version_def)
qed

lemma publish_global_default:
  assumes inv: "rules_inv s" and "publish_rule_version s now k by_user = Inr (v, s')" and g: "has_global_default s"
  shows "has_global_default s'"
proof -
  obtain v0 r where v0: "get_version s k = Some v0"
    and r: "find_row ru_rule_id (v_rule_id v0) (t_rules s) = Some r"
    and v: "v_rule_version_id v = v_rule_version_id v0" "v_rule_id v = v_rule_id v0" "is_published v"
    and s': "s' = put_version v (s\<lparr>t_versions := map (retire_published now by_user (v_rule_id v0)) (t_versions s)\<rparr>)"
    and draft: "v_status v0 = ''draft''"
    using publish_rule_version_frame [OF assms(2)] by (auto simp: is_published_def)
  have "v0 \<in> set (t_versions s)" using v0 by (auto simp: get_version_def dest: find_row_Some)
  then have new: "v \<in> set (t_versions s')"
    by (auto simp: s' put_version_def in_upd_row v image_image)
  have rules: "t_rules s' = t_rules s" by (simp add: s' put_version_def)
  obtain x rx where x: "x \<in> set (t_versions s)" "is_published x" "rx \<in> set (t_rules s)"
    "ru_rule_id rx = v_rule_id x" "ru_scope_type rx = ''global''"
    using g by (auto simp: has_global_default_iff)
  show ?thesis
  proof (cases "v_rule_id x = v_rule_id v0")
    case True
    then show ?thesis unfolding has_global_default_iff rules
      by (intro bexI [of _ v] bexI [of _ rx]) (use new v x in auto)
  next
    case False
    then have "retire_published now by_user (v_rule_id v0) x = x" by (simp add: retire_published_def)
    moreover have "v_rule_version_id x \<noteq> v_rule_version_id v"
      using version_unique [OF inv v0 x(1)] x(2) v(1) draft by (auto simp: is_published_def)
    ultimately have "x \<in> set (t_versions s')"
      using x(1) by (force simp: s' put_version_def in_upd_row image_iff)
    then show ?thesis unfolding has_global_default_iff rules
      by (intro bexI [of _ x] bexI [of _ rx]) (use x in auto)
  qed
qed

lemma delete_global_default:
  assumes inv: "rules_inv s" and "delete_rule_version s k = Inr s'" and g: "has_global_default s"
  shows "has_global_default s'"
proof -
  obtain rows v0 where s': "s' = s\<lparr>t_versions := filter (\<lambda>x. v_rule_version_id x \<noteq> k) (t_versions s), t_configs := rows\<rparr>"
    and v0: "get_version s k = Some v0" and draft: "v_status v0 = ''draft''"
    using delete_rule_version_frame [OF assms(2)] by blast
  have "v_rule_version_id x \<noteq> k" if "x \<in> set (t_versions s)" "is_published x" for x
    using version_unique [OF inv v0 that(1)] that(2) draft version_table.get_key [OF v0]
    by (auto simp: is_published_def)
  then show ?thesis by (intro global_default_mono [OF g]) (auto simp: s')
qed

lemma update_global_default:
  assumes inv: "rules_inv s" and "update_rule_version P s cuid now k ch = Inr (v, s')" and g: "has_global_default s"
  shows "has_global_default s'"
proof -
  obtain rows v0 where s': "s' = (put_version v s)\<lparr>t_configs := rows\<rparr>" and v0: "get_version s k = Some v0"
    and v: "v_rule_version_id v = v_rule_version_id v0" and draft: "v_status v0 = ''draft''"
    using update_rule_version_frame [OF assms(2)] by blast
  have "has_global_default (put_version v s)"
    by (rule put_version_global_default [OF inv g v0 v]) (simp add: is_published_def draft)
  then show ?thesis by (simp add: s' has_global_default_def)
qed

lemma retire_global_default:
  assumes inv: "rules_inv s" and "retire_rule_version s now k by_user = Inr (v, s')" and g: "has_global_default s"
  shows "has_global_default s'"
proof -
  obtain v0 r where s': "s' = put_version v s" and v0: "get_version s k = Some v0"
    and v: "v_rule_version_id v = v_rule_version_id v0"
    and r: "find_row ru_rule_id (v_rule_id v0) (t_rules s) = Some r" "ru_scope_type r \<noteq> ''global''"
    using retire_rule_version_frame [OF assms(2)] by blast
  show ?thesis unfolding s' by (rule put_version_global_default [OF inv g v0 v]) (use r in blast)
qed

lemma rule_step_global_default:
  assumes "rule_step s s'" and inv: "rules_inv s" and g: "has_global_default s"
  shows "has_global_default s'"
  using assms(1)
proof cases
  case (new_version P uid cuid now k st configs by_user v)
  then show ?thesis
    using create_rule_version_frame [OF new_version(1)] by (auto intro!: global_default_mono [OF g])
next
  case update
  then show ?thesis using update_global_default inv g by blast
next
  case delete
  then show ?thesis using delete_global_default inv g by blast
next
  case publish
  then show ?thesis using publish_global_default inv g by blast
next
  case retire
  then show ?thesis using retire_global_default inv g by blast
next
  case bind
  then show ?thesis using bind_frame [OF bind] by (auto intro!: global_default_mono [OF g])
qed (auto simp: create_store_group_def replace_store_group_members_def create_rule_def Let_def bind_result_Inr
       intro!: global_default_mono [OF g])

lemma rule_step_bindings:
  assumes "rule_step s s'" and b: "get_binding s k = Some b"
  shows "get_binding s' k = Some b"
  using assms(1)
proof cases
  case new_version
  then show ?thesis using create_rule_version_frame [OF new_version(1)] b by (auto simp: get_binding_def)
next
  case update
  then show ?thesis using update_rule_version_frame [OF update] b by (auto simp: get_binding_def put_version_def)
next
  case delete
  then show ?thesis using delete_rule_version_frame [OF delete] b by (auto simp: get_binding_def)
next
  case publish
  then show ?thesis using publish_rule_version_frame [OF publish] b by (auto simp: get_binding_def put_version_def)
next
  case retire
  then show ?thesis using retire_rule_version_frame [OF retire] b by (auto simp: get_binding_def put_version_def)
next
  case bind
  then show ?thesis using bind_frame [OF bind] b by (auto simp: get_binding_def find_row_add)
qed (use b in \<open>auto simp: create_store_group_def replace_store_group_members_def create_rule_def Let_def
       bind_result_Inr get_binding_def\<close>)

subsection \<open>What publication checks\<close>

definition distance_ok :: "pydict \<Rightarrow> bool" where
  "distance_ok params =
     (case decimal_of (dget params ''max_distance_km'') of
        Some (Fin q) \<Rightarrow> 0 < q \<and> q \<le> 1000
      | _ \<Rightarrow> False)"

definition config_ok :: "clue_allocation_strategy_config \<Rightarrow> bool" where
  "config_ok c \<longleftrightarrow> (\<exists>b. cf_enabled c = PBool b) \<and> (\<exists>i>0. cf_execution_order c = PInt i)
     \<and> (cf_strategy_type c \<in> set distance_strategy_types \<longrightarrow> distance_ok (cf_params_json c))"

definition publishable_configs :: "clue_allocation_strategy_config list \<Rightarrow> bool" where
  "publishable_configs cs \<longleftrightarrow> mset (map cf_strategy_type cs) = mset strategy_types
     \<and> distinct (map cf_execution_order cs) \<and> list_all config_ok cs"

definition publishable_settings :: "clue_allocation_rule_version \<Rightarrow> bool" where
  "publishable_settings v \<longleftrightarrow>
     (\<exists>b. v_auto_expiry_enabled v = PBool b
        \<and> (b \<longrightarrow> (\<exists>h. v_first_follow_up_sla_hours v = PInt h \<and> 1 \<le> h \<and> h \<le> 168)))
     \<and> (\<exists>d. v_protection_days v = PInt d \<and> 1 \<le> d \<and> d \<le> 365)
     \<and> (\<exists>d. v_lookback_days v = PInt d \<and> 1 \<le> d \<and> d \<le> 365)
     \<and> (\<exists>n. v_min_samples v = PInt n \<and> 1 \<le> n \<and> n \<le> 10000)
     \<and> (\<exists>cw fw. v_conversion_weight v = Some (Fin cw) \<and> v_follow_24h_weight v = Some (Fin fw)
        \<and> 0 \<le> cw \<and> 0 \<le> fw \<and> cw + fw = 1)"

lemma validate_distance_Inr: "validate_distance params t = Inr () \<longleftrightarrow> distance_ok params"
  by (auto simp: validate_distance_def distance_ok_def max_distance_bound_def split: option.splits pynum.splits)

lemma validate_configs_Inr:
  "validate_configs cs = Inr orders \<Longrightarrow> map cf_execution_order cs = map PInt orders \<and> list_all config_ok cs"
  by (induction cs arbitrary: orders)
    (auto simp: bind_result_Inr config_ok_def validate_distance_Inr split: pyval.splits if_splits)

lemma three_types:
  assumes "length ts = length strategy_types" and "set ts = set strategy_types"
  shows "mset ts = mset strategy_types"
proof -
  have d: "distinct strategy_types" by code_simp
  then have "card (set ts) = length ts" using assms by (simp add: distinct_card)
  then have "distinct ts" by (rule card_distinct)
  then show ?thesis using d assms(2) by (simp add: set_eq_iff_mset_eq_distinct [symmetric])
qed

lemma validate_strategy_configs_Inr:
  assumes "validate_strategy_configs cs = Inr ()"
  shows "publishable_configs cs"
proof -
  from assms have len: "length (map cf_strategy_type cs) = length strategy_types"
    "set (map cf_strategy_type cs) = set strategy_types"
    by (auto simp: validate_strategy_configs_def Let_def split: if_splits)
  from assms obtain orders where orders: "validate_configs cs = Inr orders" "distinct orders"
    by (auto simp: validate_strategy_configs_def Let_def bind_result_Inr split: if_splits)
  then have "distinct (map cf_execution_order cs)" "list_all config_ok cs"
    using validate_configs_Inr [OF orders(1)] by (auto simp: distinct_map inj_on_def)
  with three_types [OF len] show ?thesis by (simp add: publishable_configs_def)
qed

lemma validate_integer_range_Inr:
  "validate_integer_range v name lo hi = Inr () \<longleftrightarrow> (\<exists>i. v = PInt i \<and> lo \<le> i \<and> i \<le> hi)"
  by (auto simp: validate_integer_range_def split: pyval.splits)

lemma validate_weight_Inr: "validate_weight v name = Inr q \<longleftrightarrow> v = Some (Fin q) \<and> 0 \<le> q \<and> q \<le> 1"
  by (auto simp: validate_weight_def split: option.splits pynum.splits if_splits)

lemma validate_for_publish_Inr:
  assumes "validate_for_publish s r v = Inr ()"
  shows "publishable_settings v \<and> publishable_configs (version_configs s (v_rule_version_id v))"
proof -
  from assms obtain b where "v_auto_expiry_enabled v = PBool b"
    by (auto simp: validate_for_publish_def bind_result_Inr split: pyval.splits)
  moreover from this assms have "b \<longrightarrow> (\<exists>h. v_first_follow_up_sla_hours v = PInt h \<and> 1 \<le> h \<and> h \<le> 168)"
    by (auto simp: validate_for_publish_def bind_result_Inr validate_integer_range_Inr)
  moreover from assms have "(\<exists>d. v_protection_days v = PInt d \<and> 1 \<le> d \<and> d \<le> 365)
     \<and> (\<exists>d. v_lookback_days v = PInt d \<and> 1 \<le> d \<and> d \<le> 365)
     \<and> (\<exists>n. v_min_samples v = PInt n \<and> 1 \<le> n \<and> n \<le> 10000)
     \<and> (\<exists>cw fw. v_conversion_weight v = Some (Fin cw) \<and> v_follow_24h_weight v = Some (Fin fw)
        \<and> 0 \<le> cw \<and> 0 \<le> fw \<and> cw + fw = 1)"
    by (auto simp: validate_for_publish_def bind_result_Inr validate_integer_range_Inr validate_weight_Inr)
  moreover from assms have "validate_strategy_configs (version_configs s (v_rule_version_id v)) = Inr ()"
    by (auto simp: validate_for_publish_def bind_result_Inr)
  ultimately show ?thesis
    using validate_strategy_configs_Inr by (auto simp: publishable_settings_def)
qed

subsection \<open>Which rule applies\<close>

text \<open>
  The published rules whose scope covers a lead, and the precedence of the scopes: the anchor
  store itself, then its store group, then its city, then the global default.
\<close>

definition scope_applies :: "db \<Rightarrow> string option \<Rightarrow> string option \<Rightarrow> clue_allocation_rule \<Rightarrow> bool" where
  "scope_applies s store city r \<longleftrightarrow>
     (ru_scope_type r = ''anchor_store'' \<and> truthy store \<and> ru_scope_anchor_store_id r = store)
     \<or> (ru_scope_type r = ''store_group'' \<and> truthy store
         \<and> list_ex (\<lambda>m. Some (gm_store_id m) = store \<and> ru_scope_store_group_id r = Some (gm_store_group_id m)) (t_members s))
     \<or> (ru_scope_type r = ''city'' \<and> truthy city \<and> ru_scope_city_code r = city)
     \<or> ru_scope_type r = ''global''"

definition scope_rank :: "clue_allocation_rule \<Rightarrow> nat" where
  "scope_rank r = (if ru_scope_type r = ''anchor_store'' then 3 else if ru_scope_type r = ''store_group'' then 2
     else if ru_scope_type r = ''city'' then 1 else 0)"

definition applicable :: "db \<Rightarrow> string option \<Rightarrow> string option \<Rightarrow> (clue_allocation_rule \<times> clue_allocation_rule_version) set" where
  "applicable s store city =
     {(r, v). r \<in> set (t_rules s) \<and> v \<in> set (t_versions s) \<and> v_rule_id v = ru_rule_id r
        \<and> v_status v = ''published'' \<and> scope_applies s store city r}"

definition published_pairs :: "db \<Rightarrow> (clue_allocation_rule \<times> clue_allocation_rule_version) set" where
  "published_pairs s =
     {(r, v). r \<in> set (t_rules s) \<and> v \<in> set (t_versions s) \<and> v_rule_id v = ru_rule_id r \<and> v_status v = ''published''}"

lemma published_match_Some:
  assumes "published_match s cond = Some (r, v)"
  shows "(r, v) \<in> published_pairs s \<and> cond r"
  using first_by_Some [OF assms [unfolded published_match_def]]
  by (auto simp: published_pairs_def split: if_splits)

lemma published_match_None:
  "published_match s cond = None \<longleftrightarrow> (\<forall>(r, v) \<in> published_pairs s. \<not> cond r)"
  by (auto simp: published_match_def published_pairs_def)

lemma applicable_alt: "applicable s store city = {(r, v) \<in> published_pairs s. scope_applies s store city r}"
  by (auto simp: applicable_def published_pairs_def)

lemma group_scope_applies:
  "(case ru_scope_store_group_id r of None \<Rightarrow> False
     | Some g \<Rightarrow> g \<in> set (map gm_store_group_id (filter (\<lambda>m. Some (gm_store_id m) = store) ms)))
   \<longleftrightarrow> list_ex (\<lambda>m. Some (gm_store_id m) = store \<and> ru_scope_store_group_id r = Some (gm_store_group_id m)) ms"
  by (auto simp: list_ex_iff split: option.splits)

text \<open>The resolution, one scope after the other.\<close>

lemma resolve_cases:
  "resolve_published_rule_version s store city =
     (case published_match s (\<lambda>r. ru_scope_type r = ''anchor_store'' \<and> scope_applies s store city r) of Some m \<Rightarrow> Some m
      | None \<Rightarrow> (case published_match s (\<lambda>r. ru_scope_type r = ''store_group'' \<and> scope_applies s store city r) of Some m \<Rightarrow> Some m
      | None \<Rightarrow> (case published_match s (\<lambda>r. ru_scope_type r = ''city'' \<and> scope_applies s store city r) of Some m \<Rightarrow> Some m
      | None \<Rightarrow> published_match s (\<lambda>r. ru_scope_type r = ''global''))))"
proof -
  have none: "published_match s (\<lambda>r. False) = None" by (auto simp: published_match_None)
  have anchor: "(if truthy store then published_match s (\<lambda>r. ru_scope_type r = ''anchor_store'' \<and> ru_scope_anchor_store_id r = store)
      else None) = published_match s (\<lambda>r. ru_scope_type r = ''anchor_store'' \<and> scope_applies s store city r)"
    by (auto simp: scope_applies_def none cong: conj_cong)
  let ?gs = "map gm_store_group_id (filter (\<lambda>m. Some (gm_store_id m) = store) (t_members s))"
  have grp: "(if truthy store \<and> ?gs \<noteq> [] then published_match s (\<lambda>r. ru_scope_type r = ''store_group''
         \<and> (case ru_scope_store_group_id r of None \<Rightarrow> False | Some g \<Rightarrow> g \<in> set ?gs)) else None)
      = published_match s (\<lambda>r. ru_scope_type r = ''store_group'' \<and> scope_applies s store city r)"
  proof (cases "truthy store \<and> ?gs \<noteq> []")
    case True
    then show ?thesis unfolding group_scope_applies by (simp add: scope_applies_def cong: conj_cong)
  next
    case False
    then have "(\<lambda>r. ru_scope_type r = ''store_group'' \<and> scope_applies s store city r) = (\<lambda>r. False)"
      by (auto simp: scope_applies_def fun_eq_iff list_ex_iff filter_empty_conv)
    with False show ?thesis by (simp only: none if_False)
  qed
  have cty: "(if truthy city then published_match s (\<lambda>r. ru_scope_type r = ''city'' \<and> ru_scope_city_code r = city)
      else None) = published_match s (\<lambda>r. ru_scope_type r = ''city'' \<and> scope_applies s store city r)"
    by (auto simp: scope_applies_def none cong: conj_cong)
  show ?thesis unfolding resolve_published_rule_version_def Let_def anchor grp cty by (rule refl)
qed

lemma resolve_highest_scope:
  assumes "resolve_published_rule_version s store city = Some (r, v)"
  shows "(r, v) \<in> applicable s store city \<and> (\<forall>(r', v') \<in> applicable s store city. scope_rank r' \<le> scope_rank r)"
proof -
  let ?m = "\<lambda>t. published_match s (\<lambda>r. ru_scope_type r = t \<and> scope_applies s store city r)"
  have absent: "ru_scope_type r' \<noteq> t" if "?m t = None" "(r', v') \<in> applicable s store city" for t r' v'
    using that by (auto simp: published_match_None applicable_alt)
  have hit: "(r, v) \<in> applicable s store city \<and> ru_scope_type r = t" if "?m t = Some (r, v)" for t
    using published_match_Some [OF that] by (simp add: applicable_alt)
  consider "?m ''anchor_store'' = Some (r, v)"
    | "?m ''anchor_store'' = None" "?m ''store_group'' = Some (r, v)"
    | "?m ''anchor_store'' = None" "?m ''store_group'' = None" "?m ''city'' = Some (r, v)"
    | "?m ''anchor_store'' = None" "?m ''store_group'' = None" "?m ''city'' = None"
      "published_match s (\<lambda>r. ru_scope_type r = ''global'') = Some (r, v)"
    using assms unfolding resolve_cases by (simp split: option.splits)
  then show ?thesis
  proof cases
    case 1
    have "scope_rank r' \<le> 3" for r' by (simp add: scope_rank_def)
    moreover have "scope_rank r = 3" using hit [OF 1] by (simp add: scope_rank_def)
    ultimately show ?thesis using hit [OF 1] by simp
  next
    case 2
    have "scope_rank r' \<le> 2" if "(r', v') \<in> applicable s store city" for r' v'
      using absent [OF 2(1) that] by (simp add: scope_rank_def)
    moreover have "scope_rank r = 2" using hit [OF 2(2)] by (simp add: scope_rank_def)
    ultimately show ?thesis using hit [OF 2(2)] by auto
  next
    case 3
    have "scope_rank r' \<le> 1" if "(r', v') \<in> applicable s store city" for r' v'
      using absent [OF 3(1) that] absent [OF 3(2) that] by (simp add: scope_rank_def)
    moreover have "scope_rank r = 1" using hit [OF 3(3)] by (simp add: scope_rank_def)
    ultimately show ?thesis using hit [OF 3(3)] by auto
  next
    case 4
    have "scope_rank r' = 0" if "(r', v') \<in> applicable s store city" for r' v'
      using absent [OF 4(1) that] absent [OF 4(2) that] absent [OF 4(3) that] by (simp add: scope_rank_def)
    moreover have "(r, v) \<in> applicable s store city"
      using published_match_Some [OF 4(4)] by (simp add: applicable_alt scope_applies_def)
    ultimately show ?thesis by auto
  qed
qed

lemma resolve_None: "resolve_published_rule_version s store city = None \<longleftrightarrow> applicable s store city = {}"
proof
  assume "resolve_published_rule_version s store city = None"
  then have "\<forall>(r, v) \<in> published_pairs s. \<not> scope_applies s store city r"
    unfolding resolve_cases
    by (auto simp: published_match_None split: option.splits) (auto simp: scope_applies_def)
  then show "applicable s store city = {}" by (auto simp: applicable_alt)
next
  assume "applicable s store city = {}"
  then show "resolve_published_rule_version s store city = None"
    using resolve_highest_scope [of s store city] by (cases "resolve_published_rule_version s store city") auto
qed

section \<open>Example rules\<close>

definition example_rule :: clue_allocation_rule where
  "example_rule =
     \<lparr>ru_rule_id = ''rule-1'', ru_rule_name = ''Default'', ru_scope_type = ''global'', ru_scope_key = ''global'',
      ru_scope_city_code = None, ru_scope_store_group_id = None, ru_scope_anchor_store_id = None,
      ru_created_by = None\<rparr>"

definition example_draft :: clue_allocation_rule_version where
  "example_draft =
     \<lparr>v_rule_version_id = ''V1'', v_rule_id = ''rule-1'', v_version_no = 1, v_status = ''draft'',
      v_auto_expiry_enabled = PBool True, v_first_follow_up_sla_hours = PInt 24, v_protection_days = PInt 7,
      v_conversion_weight = Some (Fin (7/10)), v_follow_24h_weight = Some (Fin (3/10)),
      v_lookback_days = PInt 30, v_min_samples = PInt 10, v_created_by = None, v_updated_by = None,
      v_published_by = None, v_retired_by = None, v_published_at = None, v_retired_at = None, v_updated_at = 1\<rparr>"

definition example_configs :: "clue_allocation_strategy_config list" where
  "example_configs =
     [\<lparr>cf_strategy_config_id = ''C1'', cf_rule_version_id = ''V1'', cf_strategy_type = ''sales_store_priority'',
       cf_enabled = PBool True, cf_execution_order = PInt 1, cf_params_json = [(''max_distance_km'', PInt 10)]\<rparr>,
      \<lparr>cf_strategy_config_id = ''C2'', cf_rule_version_id = ''V1'', cf_strategy_type = ''nearby_city_optimization'',
       cf_enabled = PBool True, cf_execution_order = PInt 2, cf_params_json = [(''max_distance_km'', PInt 15)]\<rparr>,
      \<lparr>cf_strategy_config_id = ''C3'', cf_rule_version_id = ''V1'', cf_strategy_type = ''city_fallback'',
       cf_enabled = PBool False, cf_execution_order = PInt 3, cf_params_json = []\<rparr>]"

definition example_draft_db :: db where
  "example_draft_db =
     empty_db\<lparr>t_rules := [example_rule], t_versions := [example_draft], t_configs := example_configs\<rparr>"

definition example_rules_db :: db where
  "example_rules_db =
     example_draft_db\<lparr>t_versions := [example_draft\<lparr>v_status := ''published'', v_published_at := Some 2\<rparr>]\<rparr>"

lemma example_publishes: "succeeds (publish_rule_version example_draft_db 9 ''V1'' None)"
  by code_simp

lemma example_draft_db_inv: "rules_inv example_draft_db"
  by code_simp

lemma example_rules_db_inv: "rules_inv example_rules_db"
  by code_simp

lemma example_rules_db_default: "has_global_default example_rules_db"
  by code_simp

section \<open>Properties\<close>



text \<open>
  A published version has passed every check of the contract: an explicit expiry switch with
  a first follow-up limit of 1 to 168 hours when it is on, settings in their ranges, two score
  weights in [0, 1] that sum to one, each of the three strategies exactly once with distinct
  positive orders, and distances in (0, 1000] kilometres.
\<close>

theorem published_version_is_valid:
  assumes "publish_rule_version s now k by_user = Inr (v, s')"
  shows "v_status v = ''published'' \<and> publishable_settings v
     \<and> publishable_configs (version_configs s' (v_rule_version_id v))"
proof -
  obtain v0 r where "validate_for_publish s r v0 = Inr ()"
    and v: "v = v0\<lparr>v_status := ''published'', v_published_by := by_user, v_published_at := Some now,
              v_updated_by := by_user, v_updated_at := now\<rparr>"
    and s': "s' = put_version v (s\<lparr>t_versions := map (retire_published now by_user (v_rule_id v0)) (t_versions s)\<rparr>)"
    using publish_rule_version_frame [OF assms] by blast
  then have "publishable_settings v0 \<and> publishable_configs (version_configs s (v_rule_version_id v0))"
    using validate_for_publish_Inr by blast
  then show ?thesis by (simp add: v s' publishable_settings_def version_configs_def put_version_def)
qed

theorem published_version_is_valid_witness:
  "\<exists>v s'. publish_rule_version example_draft_db 9 ''V1'' None = Inr (v, s') \<and> publishable_settings v"
proof -
  obtain v s' where p: "publish_rule_version example_draft_db 9 ''V1'' None = Inr (v, s')"
    using example_publishes by (metis succeedsE surj_pair)
  with published_version_is_valid [OF p] show ?thesis by blast
qed

text \<open>
  C25. The rule that decides a lead is a published one whose scope covers the lead and whose scope is
  the most specific of all published rules that cover it: anchor store before store group before
  city before the global default; none is returned exactly when no published rule covers the lead.
\<close>

theorem resolution_takes_most_specific_scope:
  "case resolve_published_rule_version s store city of
     None \<Rightarrow> applicable s store city = {}
   | Some (r, v) \<Rightarrow> (r, v) \<in> applicable s store city
       \<and> scope_rank r = Max (scope_rank ` fst ` applicable s store city)"
proof (cases "resolve_published_rule_version s store city")
  case None
  then show ?thesis using resolve_None [of s store city] by simp
next
  case (Some m)
  obtain r v where m: "m = (r, v)" by (cases m)
  note top = resolve_highest_scope [OF Some [unfolded m]]
  have "finite (applicable s store city)"
    by (rule finite_subset [of _ "set (t_rules s) \<times> set (t_versions s)"]) (auto simp: applicable_def)
  moreover have "scope_rank r \<in> scope_rank ` fst ` applicable s store city"
    using top by (force simp: image_iff)
  ultimately have "scope_rank r = Max (scope_rank ` fst ` applicable s store city)"
    using top by (intro Max_eqI [symmetric]) auto
  with top Some m show ?thesis by simp
qed

text \<open>
  A lead's binding is immutable: no later operation on the rule base, publishing a new
  version included, changes the rule version or the snapshots the lead was bound to.
\<close>

theorem binding_is_immutable:
  assumes "rule_step\<^sup>*\<^sup>* s s'" and "get_binding s k = Some b"
  shows "get_binding s' k = Some b"
  using assms by (induction rule: rtranclp_induct) (auto intro: rule_step_bindings)

theorem binding_is_immutable_witness:
  "\<exists>b s1 v s2. bind_lead_rule_version example_rules_db (Some ''L1'') (Some ''S1'') None = Inr (b, s1)
     \<and> get_binding s1 ''L1'' = Some b
     \<and> publish_rule_version (s1\<lparr>t_versions := t_versions s1 @ [example_draft\<lparr>v_rule_version_id := ''V2''\<rparr>],
          t_configs := t_configs s1 @ map (\<lambda>c. c\<lparr>cf_rule_version_id := ''V2''\<rparr>) example_configs\<rparr>) 9 ''V2'' None = Inr (v, s2)
     \<and> get_binding s2 ''L1'' = Some b"
proof -
  define out where "out = bind_lead_rule_version example_rules_db (Some ''L1'') (Some ''S1'') None"
  have "case out of Inl _ \<Rightarrow> False | Inr (b, s1) \<Rightarrow> get_binding s1 ''L1'' = Some b
     \<and> succeeds (publish_rule_version (s1\<lparr>t_versions := t_versions s1 @ [example_draft\<lparr>v_rule_version_id := ''V2''\<rparr>],
          t_configs := t_configs s1 @ map (\<lambda>c. c\<lparr>cf_rule_version_id := ''V2''\<rparr>) example_configs\<rparr>) 9 ''V2'' None)"
    unfolding out_def by code_simp
  then obtain b s1 where b: "bind_lead_rule_version example_rules_db (Some ''L1'') (Some ''S1'') None = Inr (b, s1)"
      "get_binding s1 ''L1'' = Some b"
    and ok: "succeeds (publish_rule_version (s1\<lparr>t_versions := t_versions s1 @ [example_draft\<lparr>v_rule_version_id := ''V2''\<rparr>],
          t_configs := t_configs s1 @ map (\<lambda>c. c\<lparr>cf_rule_version_id := ''V2''\<rparr>) example_configs\<rparr>) 9 ''V2'' None)"
    by (auto simp: out_def split: sum.splits)
  let ?s = "s1\<lparr>t_versions := t_versions s1 @ [example_draft\<lparr>v_rule_version_id := ''V2''\<rparr>],
          t_configs := t_configs s1 @ map (\<lambda>c. c\<lparr>cf_rule_version_id := ''V2''\<rparr>) example_configs\<rparr>"
  obtain v s2 where p: "publish_rule_version ?s 9 ''V2'' None = Inr (v, s2)"
    using ok by (metis succeedsE surj_pair)
  have "rule_step\<^sup>*\<^sup>* ?s s2" using rule_step.publish [OF p] by blast
  moreover have "get_binding ?s ''L1'' = Some b" using b(2) by (simp add: get_binding_def)
  ultimately have "get_binding s2 ''L1'' = Some b" by (rule binding_is_immutable)
  with b p show ?thesis by blast
qed

text \<open>
  Once a global default is published the rule base can always bind a lead: no sequence of
  operations removes the published default, and binding a lead with a non-blank key succeeds.
\<close>

theorem every_lead_can_be_bound:
  assumes "rule_step\<^sup>*\<^sup>* s s'" and "rules_inv s" and "has_global_default s" and "clean lead_key = Some k"
  shows "\<exists>b s''. bind_lead_rule_version s' lead_key store city = Inr (b, s'')"
proof -
  have "rules_inv s' \<and> has_global_default s'"
    using assms(1-3) by (induction rule: rtranclp_induct) (auto intro: rule_step_keeps_inv rule_step_global_default)
  then have "applicable s' store city \<noteq> {}"
    by (force simp: has_global_default_iff applicable_def is_published_def scope_applies_def)
  then obtain r v where "resolve_published_rule_version s' store city = Some (r, v)"
    using resolve_None [of s' store city] by (cases "resolve_published_rule_version s' store city") auto
  then show ?thesis
    using assms(4)
    by (cases "get_binding s' k") (auto simp: bind_lead_rule_version_def required_text_def Let_def)
qed

theorem every_lead_can_be_bound_witness:
  "\<exists>b s''. bind_lead_rule_version example_rules_db (Some '' L1 '') (Some ''S1'') None = Inr (b, s'')"
proof -
  have c: "clean (Some '' L1 '') = Some ''L1''" by code_simp
  show ?thesis
    by (rule every_lead_can_be_bound [OF rtranclp.rtrancl_refl example_rules_db_inv example_rules_db_default c])
qed

text \<open>
  Only drafts change: updating or deleting a version that is not a draft is refused, and the
  published version of the global rule cannot be retired, only replaced.
\<close>

theorem published_versions_are_frozen:
  assumes "get_version s k = Some v" and "v_status v \<noteq> ''draft''"
  shows "update_rule_version P s cuid now k ch = Inl (RuleImmutableError ''only draft versions can be changed or deleted'')
     \<and> delete_rule_version s k = Inl (RuleImmutableError ''only draft versions can be changed or deleted'')
     \<and> publish_rule_version s now k by_user = Inl (RuleImmutableError ''only draft versions can be changed or deleted'')
     \<and> (find_row ru_rule_id (v_rule_id v) (t_rules s) = Some r \<longrightarrow> ru_scope_type r = ''global'' \<longrightarrow>
          (\<exists>e. retire_rule_version s now k by_user = Inl (RuleImmutableError e)))"
  using assms
  by (simp add: update_rule_version_def delete_rule_version_def publish_rule_version_def retire_rule_version_def
      get_rule_version_def get_rule_def require_draft_def check_def)

theorem published_versions_are_frozen_witness:
  "delete_rule_version example_rules_db ''V1'' = Inl (RuleImmutableError ''only draft versions can be changed or deleted'')
   \<and> (\<exists>e. retire_rule_version example_rules_db 5 ''V1'' None = Inl (RuleImmutableError e))"
proof -
  have v: "get_version example_rules_db ''V1'' = Some (example_draft\<lparr>v_status := ''published'', v_published_at := Some 2\<rparr>)"
    by (simp add: get_version_def example_rules_db_def find_row_Cons example_draft_def)
  have st: "v_status (example_draft\<lparr>v_status := ''published'', v_published_at := Some 2\<rparr>) \<noteq> ''draft''" by simp
  have r: "find_row ru_rule_id (v_rule_id (example_draft\<lparr>v_status := ''published'', v_published_at := Some 2\<rparr>)) (t_rules example_rules_db)
     = Some example_rule"
    by (simp add: example_rules_db_def example_draft_db_def find_row_Cons example_draft_def example_rule_def)
  have g: "ru_scope_type example_rule = ''global''" by (simp add: example_rule_def)
  show ?thesis using published_versions_are_frozen [OF v st, of _ _ 5 _ None example_rule] r g by blast
qed

text \<open>
  A distance given as the text \<open>NaN\<close> is not rejected as invalid input: the comparison with the
  bounds raises the decimal module's own exception, which the rule service does not translate.
\<close>

theorem nan_distance_escapes_validation:
  "validate_distance [(''max_distance_km'', PStr ''NaN'')] t = Inl InvalidOperation"
proof -
  have "decimal_of (PStr ''NaN'') = Some NaN" by code_simp
  then show ?thesis by (simp add: validate_distance_def dget_def)
qed

end
