(* ===== verification/FollowupMetrics.thy ===== *)
theory FollowupMetrics
  imports ClueModel OrderStatus
begin

text \<open>
  The follow-up metrics and the terminal evidence of \<open>apps/api/dy_api/clue_followup_metrics.py\<close>:
  reading business times out of payloads, deciding which terminal event (verification, full
  refund, closure) an order has at an observation cutoff, and scoring one assignment round.
\<close>

section \<open>Times\<close>

definition max_time :: "instant option list \<Rightarrow> instant option" where
  "max_time ts = max_or_none (List.map_filter (\<lambda>t. t) ts)"

lemma max_time_None: "max_time ts = None \<longleftrightarrow> list_all (\<lambda>t. t = None) ts"
  by (induction ts) (auto simp: max_time_def List.map_filter_simps split: option.splits)

lemma max_time_Some: "max_time ts = Some m \<Longrightarrow> Some m \<in> set ts \<and> (\<forall>t. Some t \<in> set ts \<longrightarrow> t \<le> m)"
  using max_or_none_Some [of "List.map_filter (\<lambda>t. t) ts" m]
  by (auto simp: max_time_def List.map_filter_def)

definition normal_status :: "(pyval \<Rightarrow> string) \<Rightarrow> pyval \<Rightarrow> string" where
  "normal_status repr v =
     (if v = PNone \<or> v = PStr [] then []
      else map dash_to_underscore (py_lower (py_strip (py_str repr v))))"

text \<open>
  \<open>datetime.fromtimestamp\<close> in UTC: microseconds, rounded half to even, and an error outside
  the years 1 to 9999. Values above ten thousand million are milliseconds.
\<close>

definition instant_of_seconds :: "rat \<Rightarrow> instant option" where
  "instant_of_seconds q =
     (let t = round_half_even (q * 1000000)
      in if - 62135596800000000 \<le> t \<and> t \<le> 253402300799999999 then Some t else None)"

definition instant_of_number :: "rat \<Rightarrow> instant option" where
  "instant_of_number q = instant_of_seconds (if q > 10000000000 then q / 1000 else q)"

fun replace_z :: "string \<Rightarrow> string" where
  "replace_z [] = []"
| "replace_z (c # cs) = (if c = CHR ''Z'' then ''+00:00'' @ replace_z cs else c # replace_z cs)"

definition instant_of_text :: "platform \<Rightarrow> string \<Rightarrow> instant option" where
  "instant_of_text P s =
     (let raw = replace_z (py_strip s)
      in if raw \<noteq> [] \<and> list_all is_digit raw then instant_of_number (of_int (digits_val 0 raw))
         else iso_parse P raw)"

text \<open>One value of a payload as a time: \<open>None\<close> where the loop goes on to the next key.\<close>

fun time_of_value :: "platform \<Rightarrow> pyval \<Rightarrow> instant option" where
  "time_of_value P (PInt i) = (if i = 0 then None else instant_of_number (of_int i))"
| "time_of_value P (PBool b) = (if b then instant_of_number 1 else None)"
| "time_of_value P (PFloat x) = (case x of Fin q \<Rightarrow> (if q = 0 then None else instant_of_number q) | _ \<Rightarrow> None)"
| "time_of_value P PNone = None"
| "time_of_value P v =
     (if v = PStr [] \<or> v = PStr ''0'' then None else instant_of_text P (py_str (py_repr P) v))"

definition unwrap_time :: "pyval \<Rightarrow> pyval" where
  "unwrap_time v =
     (case v of
        PDict d \<Rightarrow> py_or (py_or (dget d ''value'') (dget d ''time'')) (dget d ''timestamp'')
      | _ \<Rightarrow> v)"

fun first_time_keys :: "platform \<Rightarrow> pydict \<Rightarrow> string list \<Rightarrow> instant option" where
  "first_time_keys P d [] = None"
| "first_time_keys P d (k # ks) =
     (case time_of_value P (unwrap_time (dget d k)) of
        Some t \<Rightarrow> Some t
      | None \<Rightarrow> first_time_keys P d ks)"

definition first_time :: "platform \<Rightarrow> pyval \<Rightarrow> string list \<Rightarrow> instant option" where
  "first_time P payload ks = (case payload of PDict d \<Rightarrow> first_time_keys P d ks | _ \<Rightarrow> None)"

definition refund_time_keys :: "string list" where
  "refund_time_keys =
     [''refund_completed_at'', ''completed_at'', ''finish_time'', ''refund_done_at'', ''complete_time'',
      ''refund_time'', ''coupon_refund_time'']"

function refund_times :: "platform \<Rightarrow> pyval \<Rightarrow> instant list"
  and refund_times_items :: "platform \<Rightarrow> pydict \<Rightarrow> instant list"
  and refund_times_list :: "platform \<Rightarrow> pyval list \<Rightarrow> instant list" where
  "refund_times P (PDict d) = refund_times_items P d"
| "refund_times P (PList xs) = refund_times_list P xs"
| "refund_times P PNone = []"
| "refund_times P (PBool b) = []"
| "refund_times P (PInt i) = []"
| "refund_times P (PFloat x) = []"
| "refund_times P (PDec x) = []"
| "refund_times P (PStr t) = []"
| "refund_times_items P [] = []"
| "refund_times_items P ((k, child) # rest) =
     (if py_lower k \<in> set refund_time_keys
      then (case first_time P (PDict [(k, child)]) [k] of Some t \<Rightarrow> [t] | None \<Rightarrow> [])
      else refund_times P child) @ refund_times_items P rest"
| "refund_times_list P [] = []"
| "refund_times_list P (x # xs) = refund_times P x @ refund_times_list P xs"
  by pat_completeness auto

termination
  by (relation "measure (\<lambda>x. case x of
       Inl (P, v) \<Rightarrow> size v
     | Inr (Inl (P, d)) \<Rightarrow> size_list (\<lambda>x. Suc (size (snd x))) d
     | Inr (Inr (P, xs)) \<Rightarrow> size_list size xs)") (auto simp: size_prod_simp)

section \<open>Evidence\<close>

record terminal_evidence =
  te_kind :: "string option"
  te_terminal_at :: "instant option"
  te_observed_at :: "instant option"
  te_source :: "string option"
  te_evidence_ids :: "string list"

definition no_terminal :: terminal_evidence where
  "no_terminal =
     \<lparr>te_kind = None, te_terminal_at = None, te_observed_at = None, te_source = None, te_evidence_ids = []\<rparr>"

definition terminal_kinds :: "string list" where
  "terminal_kinds = [''verified'', ''refunded'', ''closed'']"

definition is_terminal :: "terminal_evidence \<Rightarrow> bool" where
  "is_terminal t = (case te_kind t of None \<Rightarrow> False | Some k \<Rightarrow> k \<in> set terminal_kinds)"

record assignment_round_evidence =
  ar_assignment_round_id :: string
  ar_order_id :: string
  ar_round_no :: int
  ar_assigned_store_id :: "string option"
  ar_assigned_at :: "instant option"
  ar_execution_mode :: string
  ar_verified_store_id :: "string option"
  ar_verified_at :: "instant option"
  ar_updated_at :: "instant option"

definition round_evidence_from_row :: "clue_assignment_round \<Rightarrow> assignment_round_evidence" where
  "round_evidence_from_row r =
     \<lparr>ar_assignment_round_id = r_assignment_round_id r, ar_order_id = r_order_id r, ar_round_no = r_round_no r,
      ar_assigned_store_id = clean (r_assigned_store_id r), ar_assigned_at = r_assigned_at r,
      ar_execution_mode = or_else (clean (Some (r_execution_mode r))) ''formal'',
      ar_verified_store_id = clean (r_verified_store_id r), ar_verified_at = r_verified_at r,
      ar_updated_at = Some (r_updated_at r)\<rparr>"

record follow_up_evidence =
  fe_follow_up_record_id :: string
  fe_order_id :: string
  fe_assignment_round_id :: string
  fe_assigned_store_id :: "string option"
  fe_created_at :: "instant option"
  fe_deleted_at :: "instant option"

definition follow_up_evidence_from_row :: "clue_follow_up_record \<Rightarrow> follow_up_evidence" where
  "follow_up_evidence_from_row f =
     \<lparr>fe_follow_up_record_id = f_follow_up_record_id f, fe_order_id = f_order_id f,
      fe_assignment_round_id = f_assignment_round_id f, fe_assigned_store_id = clean (f_assigned_store_id f),
      fe_created_at = Some (f_created_at f), fe_deleted_at = f_deleted_at f\<rparr>"

record verification_evidence =
  ve_verify_id :: string
  ve_order_id :: string
  ve_verified_at :: "instant option"
  ve_poi_id :: "string option"
  ve_store_id :: "string option"
  ve_cancel_at :: "instant option"
  ve_observed_at :: "instant option"
  ve_source :: string

record follow_up_metric =
  m_assignment_round_id :: string
  m_order_id :: string
  m_numerator :: int
  m_denominator :: int
  m_follow_any_numerator :: int
  m_follow_any_denominator :: int
  m_reason_code :: string
  m_deadline :: "instant option"
  m_terminal_kind :: "string option"
  m_terminal_at :: "instant option"
  m_follow_record_ids :: "string list"
  m_follow_any_record_ids :: "string list"
  m_under_observation :: bool
  m_follow_action_numerator :: int
  m_follow_action_denominator :: int
  m_follow_action_record_ids :: "string list"

section \<open>Scoring one round\<close>

definition follow_up_window :: int where
  "follow_up_window = hours 24"

definition terminal_visible_at :: "terminal_evidence \<Rightarrow> instant \<Rightarrow> terminal_evidence" where
  "terminal_visible_at t cutoff =
     (let hidden = t\<lparr>te_kind := None, te_terminal_at := None\<rparr>
      in case te_observed_at t of
           Some seen \<Rightarrow> (if seen > cutoff then hidden
                      else case te_terminal_at t of Some a \<Rightarrow> (if a > cutoff then hidden else t) | None \<Rightarrow> t)
         | None \<Rightarrow> (case te_terminal_at t of Some a \<Rightarrow> (if a > cutoff then hidden else t) | None \<Rightarrow> t))"

text \<open>The follow-ups that count as manual actions of the round, first occurrence of an id only.\<close>

definition counts_as_action :: "assignment_round_evidence \<Rightarrow> instant \<Rightarrow> instant \<Rightarrow> follow_up_evidence \<Rightarrow> bool" where
  "counts_as_action r assigned_at cutoff f \<longleftrightarrow>
     fe_deleted_at f = None \<and> fe_order_id f = ar_order_id r
     \<and> fe_assignment_round_id f = ar_assignment_round_id r \<and> fe_assigned_store_id f = ar_assigned_store_id r
     \<and> (case fe_created_at f of None \<Rightarrow> False | Some t \<Rightarrow> assigned_at \<le> t \<and> t \<le> cutoff)"

fun valid_actions ::
  "assignment_round_evidence \<Rightarrow> instant \<Rightarrow> instant \<Rightarrow> string list \<Rightarrow> follow_up_evidence list \<Rightarrow> follow_up_evidence list" where
  "valid_actions r assigned_at cutoff seen [] = []"
| "valid_actions r assigned_at cutoff seen (f # fs) =
     (if fe_follow_up_record_id f \<in> set seen then valid_actions r assigned_at cutoff seen fs
      else (if counts_as_action r assigned_at cutoff f then [f] else [])
           @ valid_actions r assigned_at cutoff (fe_follow_up_record_id f # seen) fs)"

definition excluded_metric ::
  "assignment_round_evidence \<Rightarrow> instant option \<Rightarrow> string option \<Rightarrow> instant option \<Rightarrow> string \<Rightarrow> follow_up_metric" where
  "excluded_metric r deadline kind terminal_at reason =
     \<lparr>m_assignment_round_id = ar_assignment_round_id r, m_order_id = ar_order_id r, m_numerator = 0,
      m_denominator = 0, m_follow_any_numerator = 0, m_follow_any_denominator = 0, m_reason_code = reason,
      m_deadline = deadline, m_terminal_kind = kind, m_terminal_at = terminal_at, m_follow_record_ids = [],
      m_follow_any_record_ids = [], m_under_observation = False, m_follow_action_numerator = 0,
      m_follow_action_denominator = 0, m_follow_action_record_ids = []\<rparr>"

definition with_actions :: "follow_up_evidence list \<Rightarrow> follow_up_metric \<Rightarrow> follow_up_metric" where
  "with_actions actions m =
     m\<lparr>m_follow_action_numerator := (if actions \<noteq> [] then 1 else 0), m_follow_action_denominator := 1,
       m_follow_action_record_ids := map fe_follow_up_record_id actions\<rparr>"

definition before_terminal :: "instant option \<Rightarrow> follow_up_evidence \<Rightarrow> bool" where
  "before_terminal terminal_at f =
     (case terminal_at of None \<Rightarrow> True | Some t \<Rightarrow> (case fe_created_at f of None \<Rightarrow> False | Some c \<Rightarrow> c < t))"

definition within_deadline :: "instant \<Rightarrow> follow_up_evidence \<Rightarrow> bool" where
  "within_deadline deadline f = (case fe_created_at f of None \<Rightarrow> False | Some c \<Rightarrow> c \<le> deadline)"

definition score_round ::
  "assignment_round_evidence \<Rightarrow> instant \<Rightarrow> follow_up_evidence list \<Rightarrow> terminal_evidence \<Rightarrow> instant \<Rightarrow> follow_up_metric" where
  "score_round r assigned_at actions visible cutoff =
     (let deadline = assigned_at + follow_up_window;
          terminal_at = te_terminal_at visible;
          kind = te_kind visible;
          valid_any = filter (before_terminal terminal_at) actions;
          valid_window = filter (within_deadline deadline) valid_any;
          terminal_within_window = (case terminal_at of None \<Rightarrow> False | Some t \<Rightarrow> t \<le> deadline);
          under_observation = (terminal_at = None \<and> cutoff < deadline);
          (numerator, denominator, reason) =
            (if terminal_within_window then
               (if kind = Some ''verified'' then (1, 1, ''verified_within_24h'')
                else if valid_window \<noteq> [] then (1, 1, ''terminal_within_24h_followed'')
                else (0, 0, ''terminal_within_24h_unfollowed''))
             else ((if valid_window \<noteq> [] then 1 else 0), 1,
                   if terminal_at \<noteq> None then ''terminal_after_24h''
                   else if under_observation then ''active_under_observation'' else ''active_matured''))
      in with_actions actions
         \<lparr>m_assignment_round_id = ar_assignment_round_id r, m_order_id = ar_order_id r,
          m_numerator = numerator, m_denominator = denominator,
          m_follow_any_numerator =
            (if denominator \<noteq> 0 \<and> (kind = Some ''verified'' \<or> valid_any \<noteq> []) then 1 else 0),
          m_follow_any_denominator = denominator, m_reason_code = reason, m_deadline = Some deadline,
          m_terminal_kind = kind, m_terminal_at = terminal_at,
          m_follow_record_ids = map fe_follow_up_record_id valid_window,
          m_follow_any_record_ids = map fe_follow_up_record_id valid_any,
          m_under_observation = under_observation, m_follow_action_numerator = 0,
          m_follow_action_denominator = 0, m_follow_action_record_ids = []\<rparr>)"

definition evaluate_clue_followup_round ::
  "assignment_round_evidence \<Rightarrow> follow_up_evidence list \<Rightarrow> terminal_evidence option \<Rightarrow> instant \<Rightarrow> follow_up_metric" where
  "evaluate_clue_followup_round r follow_ups terminal cutoff =
     (let deadline = map_option (\<lambda>t. t + follow_up_window) (ar_assigned_at r);
          excluded = excluded_metric r deadline (Option.bind terminal te_kind) (Option.bind terminal te_terminal_at)
      in if ar_execution_mode r \<noteq> ''formal'' then excluded ''non_formal_round''
         else case ar_assigned_at r of
           None \<Rightarrow> excluded ''unassigned_round''
         | Some assigned_at \<Rightarrow>
             if assigned_at > cutoff then excluded ''assignment_after_observation_cutoff''
             else
               (let actions = valid_actions r assigned_at cutoff [] follow_ups;
                    visible = terminal_visible_at (case terminal of None \<Rightarrow> no_terminal | Some t \<Rightarrow> t) cutoff
                in if is_terminal visible \<and> te_terminal_at visible = None
                   then with_actions actions (excluded_metric r deadline (te_kind visible) None ''terminal_time_unknown'')
                   else case te_terminal_at visible of
                     Some t \<Rightarrow>
                       (if t \<le> assigned_at
                        then with_actions actions
                          (excluded_metric r deadline (te_kind visible) (Some t) ''terminal_before_assignment'')
                        else score_round r assigned_at actions visible cutoff)
                   | None \<Rightarrow> score_round r assigned_at actions visible cutoff))"

section \<open>Terminal evidence of an order\<close>

definition status_observed_at :: "instant option \<Rightarrow> instant option list \<Rightarrow> instant option" where
  "status_observed_at source_observed others =
     (case source_observed of Some t \<Rightarrow> Some t | None \<Rightarrow> max_time others)"

definition order_observed :: "raw_douyin_order \<Rightarrow> instant option" where
  "order_observed r = status_observed_at (o_source_observed_at r) [o_updated_at r]"

definition coupon_observed :: "raw_douyin_order_coupon \<Rightarrow> instant option" where
  "coupon_observed c = status_observed_at (cp_source_observed_at c) [cp_coupon_updated_at c]"

definition clue_observed :: "raw_douyin_clue \<Rightarrow> instant option" where
  "clue_observed c = status_observed_at (rc_source_observed_at c) [rc_updated_at c]"

definition refund_observed :: "raw_douyin_refund_record \<Rightarrow> instant option" where
  "refund_observed r = status_observed_at (rr_source_observed_at r) [rr_gmt_modified r]"

definition refund_event_observed :: "douyin_refund_event \<Rightarrow> instant option" where
  "refund_event_observed r = status_observed_at (re_source_observed_at r) [re_updated_at r]"

definition is_platform_after_sale_payload :: "pydict \<Rightarrow> bool" where
  "is_platform_after_sale_payload d \<longleftrightarrow>
     list_ex (dhas d)
       [''after_sale_id'', ''after_sale'', ''refund_info_list'', ''times_card_refund_info_list'',
        ''merchant_account_id'', ''total_refund_amount'', ''real_refund_amount'', ''user_refund_amount'']"

definition refund_type :: "platform \<Rightarrow> pyval \<Rightarrow> string option" where
  "refund_type P payload =
     (case payload of
        PDict d \<Rightarrow>
          (if is_platform_after_sale_payload d then None
           else let v = py_or (dget d ''refund_type'') (dget d ''type'');
                    v' = (case v of PDict m \<Rightarrow> dget m ''value'' | _ \<Rightarrow> v)
                in Some (normal_status (py_repr P) v'))
      | _ \<Rightarrow> Some (normal_status (py_repr P) PNone))"

definition full_refund_types :: "string list" where
  "full_refund_types = [''2'', ''full'', ''full_refund'', ''all'']"

definition has_full_refund_type :: "platform \<Rightarrow> raw_douyin_refund_record \<Rightarrow> bool" where
  "has_full_refund_type P r =
     (case refund_type P (rr_raw_payload r) of None \<Rightarrow> False | Some t \<Rightarrow> t \<in> set full_refund_types)"

definition is_full_completed_refund :: "platform \<Rightarrow> raw_douyin_refund_record \<Rightarrow> bool" where
  "is_full_completed_refund P r \<longleftrightarrow>
     rr_normalized_refund_status r = 2
     \<and> (has_full_refund_type P r \<or> refund_type P (rr_raw_payload r) = None)"

definition visible_by :: "instant \<Rightarrow> instant option \<Rightarrow> bool" where
  "visible_by cutoff t = (case t of None \<Rightarrow> True | Some x \<Rightarrow> x \<le> cutoff)"

definition valid_verification :: "instant \<Rightarrow> verification_evidence \<Rightarrow> bool" where
  "valid_verification cutoff v \<longleftrightarrow>
     (case ve_verified_at v of None \<Rightarrow> False | Some t \<Rightarrow> t \<le> cutoff) \<and> visible_by cutoff (ve_observed_at v)"

definition verification_order :: "verification_evidence \<Rightarrow> instant \<times> string" where
  "verification_order v = (case ve_verified_at v of None \<Rightarrow> 0 | Some t \<Rightarrow> t, ve_verify_id v)"

definition verified_terminal :: "verification_evidence list \<Rightarrow> terminal_evidence" where
  "verified_terminal valid =
     (let earliest = the (first_by verification_order valid)
      in \<lparr>te_kind = Some ''verified'', te_terminal_at = ve_verified_at earliest,
          te_observed_at = (case max_time (map ve_observed_at valid) of
             Some t \<Rightarrow> Some t | None \<Rightarrow> ve_verified_at earliest),
          te_source = Some (ve_source earliest), te_evidence_ids = map ve_verify_id valid\<rparr>)"

definition coupon_status_of :: "platform \<Rightarrow> raw_douyin_order_coupon \<Rightarrow> string" where
  "coupon_status_of P c =
     (case clean (cp_coupon_status_normalized c) of
        Some t \<Rightarrow> t
      | None \<Rightarrow> normalize_coupon_status (py_repr P)
          (of_text (if truthy (cp_coupon_status_raw c) then cp_coupon_status_raw c else cp_coupon_status c)))"

text \<open>
  The coupon statuses that count: a verified projection of a coupon whose raw verification was
  cancelled is left out.
\<close>

definition coupon_statuses_of :: "platform \<Rightarrow> string list \<Rightarrow> raw_douyin_order_coupon list \<Rightarrow> string list" where
  "coupon_statuses_of P canceled coupons =
     map (coupon_status_of P)
       (filter (\<lambda>c. \<not> (coupon_status_of P c = ''verified''
          \<and> (case clean (Some (cp_coupon_id c)) of None \<Rightarrow> False | Some t \<Rightarrow> t \<in> set canceled))) coupons)"

definition resolved_from_clues :: "platform \<Rightarrow> raw_douyin_clue list \<Rightarrow> string list \<Rightarrow> string option" where
  "resolved_from_clues P clues coupon_statuses =
     (let cs = map PStr coupon_statuses;
          found = map (\<lambda>c. resolve_clue_order_status (py_repr P) (of_text (rc_order_status c)) (rc_raw_payload c) PNone cs)
                    (filter (\<lambda>c. truthy (rc_order_status c)) clues);
          resolved = (case filter (\<lambda>k. k \<in> set found) [''refunded'', ''closed'', ''verified''] of
                        k # _ \<Rightarrow> Some k
                      | [] \<Rightarrow> (case found of [] \<Rightarrow> None | k # _ \<Rightarrow> Some k))
      in if resolved \<notin> {Some ''refunded'', Some ''closed'', Some ''verified''} \<and> coupon_statuses \<noteq> []
         then let k = resolve_clue_order_status (py_repr P) PNone PNone PNone cs
              in (if k \<in> {''refunded'', ''closed'', ''verified''} then Some k else resolved)
         else resolved)"

definition resolved_status ::
  "platform \<Rightarrow> raw_douyin_order option \<Rightarrow> raw_douyin_clue list \<Rightarrow> string list \<Rightarrow> string option" where
  "resolved_status P order clues coupon_statuses =
     (let raw = Option.bind order o_order_status;
          normalized = Option.bind order o_order_status_normalized;
          status = (if truthy raw then raw else if truthy normalized then normalized else None)
      in case status of
           Some st \<Rightarrow>
             Some (resolve_clue_order_status (py_repr P) (PStr st)
                     (case order of None \<Rightarrow> PNone | Some r \<Rightarrow> o_raw_payload r) (of_text normalized) (map PStr coupon_statuses))
         | None \<Rightarrow> resolved_from_clues P clues coupon_statuses)"

definition refund_terminal_evidence ::
  "platform \<Rightarrow> raw_douyin_order option \<Rightarrow> raw_douyin_clue list \<Rightarrow> raw_douyin_order_coupon list
   \<Rightarrow> raw_douyin_refund_record list \<Rightarrow> douyin_refund_event list \<Rightarrow> terminal_evidence" where
  "refund_terminal_evidence P order clues coupons rows events =
     (let times =
            map (\<lambda>c. max_time [cp_coupon_refund_time c, cp_latest_refund_at c]) coupons
            @ (case order of None \<Rightarrow> [] | Some r \<Rightarrow> map Some (refund_times P (o_raw_payload r)))
            @ concat (map (\<lambda>c. map Some (refund_times P (rc_raw_payload c))) clues)
            @ map (\<lambda>r. max_time [rr_refund_completed_at r,
                  first_time P (rr_raw_payload r)
                    [''refund_completed_at'', ''completed_at'', ''finish_time'', ''complete_time'']]) rows
            @ map re_occurred_at events;
          observed = map coupon_observed coupons @ map refund_observed rows @ map refund_event_observed events
            @ [Option.bind order o_source_observed_at];
          terminal_at = max_time times
      in \<lparr>te_kind = Some ''refunded'', te_terminal_at = terminal_at,
          te_observed_at = (case max_time observed of Some t \<Rightarrow> Some t | None \<Rightarrow> terminal_at),
          te_source = Some ''refund'',
          te_evidence_ids = map rr_source_record_key rows @ map re_refund_event_id events\<rparr>)"

definition projection_observed ::
  "raw_douyin_order option \<Rightarrow> raw_douyin_clue list \<Rightarrow> raw_douyin_order_coupon list \<Rightarrow> instant option" where
  "projection_observed order clues coupons =
     max_time (Option.bind order order_observed # map clue_observed clues @ map coupon_observed coupons)"

definition terminal_from_rows ::
  "platform \<Rightarrow> raw_douyin_order option \<Rightarrow> raw_douyin_clue list \<Rightarrow> raw_douyin_order_coupon list
   \<Rightarrow> raw_douyin_refund_record list \<Rightarrow> douyin_refund_event list \<Rightarrow> verification_evidence list
   \<Rightarrow> instant \<Rightarrow> string list \<Rightarrow> terminal_evidence" where
  "terminal_from_rows P raw_order clues coupons refunds events verifications cutoff canceled =
     (let order = (case raw_order of None \<Rightarrow> None | Some r \<Rightarrow> (if visible_by cutoff (order_observed r) then Some r else None));
          payload = (case order of None \<Rightarrow> PNone | Some r \<Rightarrow> o_raw_payload r);
          valid = filter (valid_verification cutoff) verifications
      in if valid \<noteq> [] then verified_terminal valid
         else
         (let statuses = coupon_statuses_of P canceled coupons;
              resolved = resolved_status P order clues statuses;
              all_refunded = (statuses \<noteq> [] \<and> list_all (\<lambda>k. k = ''refunded'') statuses);
              all_closed = (statuses \<noteq> [] \<and> list_all (\<lambda>k. k = ''closed'') statuses);
              full_rows = filter (\<lambda>r. is_full_completed_refund P r
                 \<and> (has_full_refund_type P r \<or> resolved = Some ''refunded'' \<or> all_refunded)) refunds;
              full_events = filter (\<lambda>r. re_refund_status r = 2 \<and> re_refund_type r = 2) events
          in if resolved = Some ''refunded'' \<or> all_refunded \<or> full_rows \<noteq> [] \<or> full_events \<noteq> []
             then refund_terminal_evidence P order clues coupons full_rows full_events
             else if resolved = Some ''closed'' \<or> all_closed then
               (let terminal_at = first_time P payload
                      [''closed_at'', ''close_time'', ''cancel_time'', ''cancelled_at'', ''canceled_at'']
                in \<lparr>te_kind = Some ''closed'', te_terminal_at = terminal_at,
                    te_observed_at = (case projection_observed order clues coupons of Some t \<Rightarrow> Some t | None \<Rightarrow> terminal_at),
                    te_source = Some ''status'', te_evidence_ids = []\<rparr>)
             else if resolved = Some ''verified'' then
               (let verified_at = first_time P payload
                      [''verified_at'', ''verify_time'', ''used_at'', ''completed_at'', ''finish_time'']
                in \<lparr>te_kind = Some ''verified'', te_terminal_at = verified_at,
                    te_observed_at = (case projection_observed order clues coupons of Some t \<Rightarrow> Some t | None \<Rightarrow> verified_at),
                    te_source = Some (if order = None \<and> clues = [] \<and> list_ex (\<lambda>k. k = ''verified'') statuses
                                      then ''coupon'' else ''order''),
                    te_evidence_ids = []\<rparr>)
             else no_terminal))"

section \<open>Loading the evidence\<close>

record evidence_state =
  es_verifications :: "verification_evidence list"
  es_canceled_verify_ids :: "string list"
  es_canceled_coupon_ids :: "string list"
  es_cancel_times :: "(string \<times> instant) list"
  es_canceled_order_ids :: "string list"

definition no_evidence :: evidence_state where
  "no_evidence = \<lparr>es_verifications = [], es_canceled_verify_ids = [], es_canceled_coupon_ids = [],
     es_cancel_times = [], es_canceled_order_ids = []\<rparr>"

definition verify_success_statuses :: "string list" where
  "verify_success_statuses =
     [''1'', ''401'', ''success'', ''verified'',
      [CHR 0xE5, CHR 0xB7, CHR 0xB2, CHR 0xE6, CHR 0xA0, CHR 0xB8, CHR 0xE9, CHR 0x94, CHR 0x80],
      ''used'', ''fulfilled'', ''transaction_success'']"

definition raw_verify_step ::
  "platform \<Rightarrow> instant \<Rightarrow> string \<times> raw_douyin_verify_record \<Rightarrow> evidence_state \<Rightarrow> evidence_state" where
  "raw_verify_step P cutoff = (\<lambda>(order_id, row) st.
     case vr_verify_time row of
       None \<Rightarrow> st
     | Some verify_at \<Rightarrow>
         if verify_at > cutoff \<or> \<not> visible_by cutoff (vr_source_observed_at row) then st
         else if (case vr_cancel_time row of None \<Rightarrow> False | Some c \<Rightarrow> c \<le> cutoff) then
           (let st1 = st\<lparr>es_canceled_order_ids := order_id # es_canceled_order_ids st,
                         es_canceled_verify_ids := vr_verify_id row # es_canceled_verify_ids st\<rparr>
            in if truthy (vr_coupon_id row)
               then st1\<lparr>es_canceled_coupon_ids := the (vr_coupon_id row) # es_canceled_coupon_ids st,
                        es_cancel_times := (the (vr_coupon_id row), the (vr_cancel_time row)) # es_cancel_times st\<rparr>
               else st1)
         else if normal_status (py_repr P) (of_text (vr_verify_status row)) \<notin> set verify_success_statuses then st
         else st\<lparr>es_verifications := es_verifications st @
           [\<lparr>ve_verify_id = vr_verify_id row, ve_order_id = order_id, ve_verified_at = Some verify_at,
             ve_poi_id = clean (vr_poi_id row), ve_store_id = None, ve_cancel_at = vr_cancel_time row,
             ve_observed_at = (case vr_source_observed_at row of Some t \<Rightarrow> Some t | None \<Rightarrow> Some verify_at),
             ve_source = ''raw_verify''\<rparr>]\<rparr>)"

definition settlement_verification_is_canceled :: "evidence_state \<Rightarrow> settlement_order_detail \<Rightarrow> instant \<Rightarrow> bool" where
  "settlement_verification_is_canceled st row verified_at =
     (case clean (sd_verify_id row) of
        Some v \<Rightarrow> v \<in> set (es_canceled_verify_ids st)
      | None \<Rightarrow> (case clean (Some (sd_coupon_id row)) of
                   None \<Rightarrow> False
                 | Some c \<Rightarrow> list_ex (\<lambda>(c', t). c' = c \<and> t \<ge> verified_at) (es_cancel_times st)))"

definition settlement_step :: "instant \<Rightarrow> settlement_order_detail \<Rightarrow> evidence_state \<Rightarrow> evidence_state" where
  "settlement_step cutoff row st =
     (case sd_verify_time row of
        None \<Rightarrow> st
      | Some verify_at \<Rightarrow>
          (let observed_at = (case sd_updated_at row of Some t \<Rightarrow> t | None \<Rightarrow> verify_at)
           in if \<not> sd_is_verified row \<or> verify_at > cutoff
                 \<or> settlement_verification_is_canceled st row verify_at \<or> observed_at > cutoff then st
              else st\<lparr>es_verifications := es_verifications st @
                [\<lparr>ve_verify_id = (if truthy (sd_verify_id row) then the (sd_verify_id row) else sd_coupon_id row),
                  ve_order_id = sd_order_id row, ve_verified_at = Some verify_at, ve_poi_id = None,
                  ve_store_id = clean (sd_verify_store_id row), ve_cancel_at = None,
                  ve_observed_at = Some observed_at, ve_source = ''settlement''\<rparr>]\<rparr>))"

definition raw_verify_rows :: "db \<Rightarrow> string list \<Rightarrow> (string \<times> raw_douyin_verify_record) list" where
  "raw_verify_rows s batch =
     [(cp_order_id c, v). c \<leftarrow> t_coupons s, v \<leftarrow> t_verifies s,
        vr_coupon_id v = Some (cp_coupon_id c), cp_order_id c \<in> set batch]"

definition load_batch :: "platform \<Rightarrow> db \<Rightarrow> instant \<Rightarrow> string list \<Rightarrow> evidence_state \<Rightarrow> evidence_state" where
  "load_batch P s cutoff batch st =
     fold (settlement_step cutoff) (filter (\<lambda>d. sd_order_id d \<in> set batch) (t_settlements s))
       (fold (raw_verify_step P cutoff) (raw_verify_rows s batch) st)"

definition formal_round_evidence :: "db \<Rightarrow> string \<Rightarrow> assignment_round_evidence list" where
  "formal_round_evidence s order_id =
     map round_evidence_from_row
       (filter (\<lambda>r. r_order_id r = order_id \<and> r_execution_mode r = ''formal'') (t_rounds s))"

definition round_verifications :: "instant \<Rightarrow> assignment_round_evidence list \<Rightarrow> verification_evidence list" where
  "round_verifications cutoff rows =
     concat (map (\<lambda>row.
       case ar_verified_at row of
         None \<Rightarrow> []
       | Some verified_at \<Rightarrow>
           (let observed_at = (case ar_updated_at row of Some t \<Rightarrow> t | None \<Rightarrow> verified_at)
            in if verified_at > cutoff \<or> observed_at > cutoff then []
               else [\<lparr>ve_verify_id = ''round:'' @ ar_assignment_round_id row, ve_order_id = ar_order_id row,
                      ve_verified_at = Some verified_at, ve_poi_id = None, ve_store_id = ar_verified_store_id row,
                      ve_cancel_at = None, ve_observed_at = Some observed_at, ve_source = ''assignment_round''\<rparr>]))
       rows)"

function chunks :: "nat \<Rightarrow> 'a list \<Rightarrow> 'a list list" where
  "chunks n xs = (if xs = [] \<or> n = 0 then [] else take n xs # chunks n (drop n xs))"
  by pat_completeness auto

termination
  by (relation "measure (length o snd)") auto

declare chunks.simps [simp del]

definition requested_ids :: "string list \<Rightarrow> string list" where
  "requested_ids ids = remdups (sort (filter (\<lambda>i. clean (Some i) \<noteq> None) ids))"

definition evidence_query_batch_size :: nat where
  "evidence_query_batch_size = 500"

definition load_state :: "platform \<Rightarrow> db \<Rightarrow> instant \<Rightarrow> string list \<Rightarrow> evidence_state" where
  "load_state P s cutoff requested =
     fold (load_batch P s cutoff) (chunks evidence_query_batch_size requested) no_evidence"

definition order_verifications :: "db \<Rightarrow> instant \<Rightarrow> evidence_state \<Rightarrow> string \<Rightarrow> verification_evidence list" where
  "order_verifications s cutoff st order_id =
     filter (\<lambda>v. ve_order_id v = order_id) (es_verifications st)
     @ (if order_id \<in> set (es_canceled_order_ids st) then []
        else round_verifications cutoff (formal_round_evidence s order_id))"

definition order_terminal :: "platform \<Rightarrow> db \<Rightarrow> instant \<Rightarrow> evidence_state \<Rightarrow> string \<Rightarrow> terminal_evidence" where
  "order_terminal P s cutoff st order_id =
     terminal_from_rows P
       (find_row o_order_id order_id (t_orders s))
       (filter (\<lambda>c. rc_order_id c = Some order_id \<and> visible_by cutoff (clue_observed c)) (t_raw_clues s))
       (filter (\<lambda>c. cp_order_id c = order_id \<and> visible_by cutoff (coupon_observed c)) (t_coupons s))
       (filter (\<lambda>r. rr_order_id r = order_id \<and> visible_by cutoff (refund_observed r)) (t_refunds s))
       (filter (\<lambda>r. re_order_id r = order_id \<and> visible_by cutoff (refund_event_observed r)) (t_refund_events s))
       (order_verifications s cutoff st order_id) cutoff (es_canceled_coupon_ids st)"

definition load_terminal_evidence :: "platform \<Rightarrow> db \<Rightarrow> string list \<Rightarrow> instant \<Rightarrow> (string \<times> terminal_evidence) list" where
  "load_terminal_evidence P s order_ids cutoff =
     (let requested = requested_ids order_ids; st = load_state P s cutoff requested
      in map (\<lambda>order_id. (order_id, order_terminal P s cutoff st order_id)) requested)"

section \<open>Follow-up evidence\<close>

record clue_follow_up_evidence =
  ce_order_id :: string
  ce_rounds :: "assignment_round_evidence list"
  ce_follow_ups_by_round :: "(string \<times> follow_up_evidence list) list"
  ce_verifications :: "verification_evidence list"
  ce_terminal :: terminal_evidence
  ce_observed_through :: instant

text \<open>Missing assignment times sort first, as \<open>datetime.min\<close> does.\<close>

definition time_order :: "instant option \<Rightarrow> int \<times> int" where
  "time_order t = (case t of None \<Rightarrow> (0, 0) | Some x \<Rightarrow> (1, x))"

definition round_follow_ups :: "db \<Rightarrow> instant \<Rightarrow> string \<Rightarrow> follow_up_evidence list" where
  "round_follow_ups s cutoff round_id =
     sort_key (\<lambda>f. (time_order (fe_created_at f), fe_follow_up_record_id f))
       (map follow_up_evidence_from_row
         (filter (\<lambda>f. f_assignment_round_id f = round_id \<and> f_created_at f \<le> cutoff) (t_follow_ups s)))"

definition load_clue_followup_evidence ::
  "platform \<Rightarrow> db \<Rightarrow> string list \<Rightarrow> instant \<Rightarrow> (string \<times> clue_follow_up_evidence) list" where
  "load_clue_followup_evidence P s order_ids cutoff =
     (let requested = requested_ids order_ids; st = load_state P s cutoff requested;
          round_ids = map ar_assignment_round_id (concat (map (formal_round_evidence s) requested))
      in map (\<lambda>order_id. (order_id,
           \<lparr>ce_order_id = order_id,
            ce_rounds = sort_key (\<lambda>r. (time_order (ar_assigned_at r), ar_round_no r, ar_assignment_round_id r))
                          (formal_round_evidence s order_id),
            ce_follow_ups_by_round =
              filter (\<lambda>(_, fs). list_ex (\<lambda>f. fe_order_id f = order_id) fs)
                (map (\<lambda>round_id. (round_id, round_follow_ups s cutoff round_id)) (remdups round_ids)),
            ce_verifications = order_verifications s cutoff st order_id,
            ce_terminal = order_terminal P s cutoff st order_id, ce_observed_through = cutoff\<rparr>)) requested)"

definition follow_ups_for :: "clue_follow_up_evidence \<Rightarrow> string \<Rightarrow> follow_up_evidence list" where
  "follow_ups_for e round_id = (case map_of (ce_follow_ups_by_round e) round_id of None \<Rightarrow> [] | Some fs \<Rightarrow> fs)"

definition bulk_evaluate_clue_followup_metrics ::
  "platform \<Rightarrow> db \<Rightarrow> string list \<Rightarrow> assignment_round_evidence list \<Rightarrow> instant \<Rightarrow> (string \<times> follow_up_metric) list" where
  "bulk_evaluate_clue_followup_metrics P s order_ids round_rows cutoff =
     (let loaded = load_clue_followup_evidence P s order_ids cutoff;
          selected = (if round_rows \<noteq> [] then round_rows else concat (map (ce_rounds \<circ> snd) loaded))
      in map (\<lambda>row. (ar_assignment_round_id row,
           (case map_of loaded (ar_order_id row) of
              Some e \<Rightarrow> evaluate_clue_followup_round row (follow_ups_for e (ar_assignment_round_id row))
                          (Some (ce_terminal e)) cutoff
            | None \<Rightarrow> evaluate_clue_followup_round row [] (Some no_terminal) cutoff))) selected)"

section \<open>Properties\<close>

lemma valid_actions_sub:
  "f \<in> set (valid_actions r a c seen fs) \<Longrightarrow> f \<in> set fs \<and> counts_as_action r a c f \<and> fe_follow_up_record_id f \<notin> set seen"
  by (induction r a c seen fs rule: valid_actions.induct) (auto split: if_splits)

lemma valid_actions_distinct: "distinct (map fe_follow_up_record_id (valid_actions r a c seen fs))"
  by (induction r a c seen fs rule: valid_actions.induct)
    (auto dest: valid_actions_sub split: if_splits)

lemma excluded_metric_simps [simp]:
  "m_numerator (excluded_metric r d k t x) = 0" "m_denominator (excluded_metric r d k t x) = 0"
  "m_follow_any_numerator (excluded_metric r d k t x) = 0" "m_follow_any_denominator (excluded_metric r d k t x) = 0"
  "m_follow_action_numerator (excluded_metric r d k t x) = 0" "m_follow_action_denominator (excluded_metric r d k t x) = 0"
  by (simp_all add: excluded_metric_def)

lemma with_actions_simps [simp]:
  "m_numerator (with_actions as m) = m_numerator m" "m_denominator (with_actions as m) = m_denominator m"
  "m_follow_any_numerator (with_actions as m) = m_follow_any_numerator m"
  "m_follow_any_denominator (with_actions as m) = m_follow_any_denominator m"
  "m_follow_action_numerator (with_actions as m) = (if as \<noteq> [] then 1 else 0)"
  "m_follow_action_denominator (with_actions as m) = 1"
  by (simp_all add: with_actions_def)

definition metric_bounds :: "follow_up_metric \<Rightarrow> bool" where
  "metric_bounds m \<longleftrightarrow>
     0 \<le> m_numerator m \<and> m_numerator m \<le> m_follow_any_numerator m
     \<and> m_follow_any_numerator m \<le> m_denominator m \<and> m_denominator m \<le> 1
     \<and> m_follow_any_denominator m = m_denominator m
     \<and> 0 \<le> m_follow_action_numerator m \<and> m_follow_action_numerator m \<le> m_follow_action_denominator m
     \<and> m_follow_action_denominator m \<le> 1"

lemma score_round_bounds: "metric_bounds (score_round r a acts v c)"
  by (auto simp: score_round_def metric_bounds_def Let_def filter_empty_conv split: option.splits)

text \<open>
  Every evaluation is a proper sample: each rate counts a round at most once, the 24-hour
  numerator never exceeds the unrestricted one, which never exceeds the denominator, and the two
  business rates share one denominator.
\<close>

theorem followup_metric_is_a_sample:
  "metric_bounds (evaluate_clue_followup_round r follow_ups terminal cutoff)"
  using score_round_bounds
  by (simp add: evaluate_clue_followup_round_def metric_bounds_def Let_def split: option.splits)

lemma score_round_numerator:
  assumes "m_numerator (score_round r a acts v c) = 1"
  shows "(te_kind v = Some ''verified'' \<and> (\<exists>t. te_terminal_at v = Some t \<and> t \<le> a + follow_up_window))
     \<or> (\<exists>f \<in> set acts. within_deadline (a + follow_up_window) f \<and> before_terminal (te_terminal_at v) f)"
proof (cases "filter (within_deadline (a + follow_up_window)) (filter (before_terminal (te_terminal_at v)) acts) = []")
  case True
  with assms show ?thesis
    by (auto simp: score_round_def Let_def split: option.splits if_splits)
next
  case False
  then have "\<exists>f \<in> set acts. within_deadline (a + follow_up_window) f \<and> before_terminal (te_terminal_at v) f"
    by (auto simp: filter_empty_conv)
  then show ?thesis by blast
qed

text \<open>
  C27. The 24-hour numerator is never credited without cause: a round counts one only if the order
  was verified within 24 hours of the assignment, or an undeleted follow-up of the same order, round
  and store was recorded after the assignment, by the cutoff and the 24-hour deadline, and before the
  visible terminal event.
\<close>

theorem followup_numerator_needs_cause:
  assumes "m_numerator (evaluate_clue_followup_round r follow_ups terminal cutoff) = 1"
  shows "\<exists>a. ar_execution_mode r = ''formal'' \<and> ar_assigned_at r = Some a \<and> a \<le> cutoff
     \<and> (let v = terminal_visible_at (case terminal of None \<Rightarrow> no_terminal | Some t \<Rightarrow> t) cutoff in
         (te_kind v = Some ''verified'' \<and> (\<exists>t. te_terminal_at v = Some t \<and> a < t \<and> t \<le> a + hours 24))
         \<or> (\<exists>f \<in> set follow_ups. counts_as_action r a cutoff f \<and> within_deadline (a + hours 24) f
              \<and> before_terminal (te_terminal_at v) f))"
proof -
  let ?v = "terminal_visible_at (case terminal of None \<Rightarrow> no_terminal | Some t \<Rightarrow> t) cutoff"
  from assms obtain a where a: "ar_execution_mode r = ''formal''" "ar_assigned_at r = Some a" "a \<le> cutoff"
    and n: "m_numerator (score_round r a (valid_actions r a cutoff [] follow_ups) ?v cutoff) = 1"
    and late: "\<forall>t. te_terminal_at ?v = Some t \<longrightarrow> a < t"
    by (auto simp: evaluate_clue_followup_round_def Let_def split: option.splits if_splits)
  from score_round_numerator [OF n] late have "(te_kind ?v = Some ''verified''
      \<and> (\<exists>t. te_terminal_at ?v = Some t \<and> a < t \<and> t \<le> a + hours 24))
     \<or> (\<exists>f \<in> set follow_ups. counts_as_action r a cutoff f \<and> within_deadline (a + hours 24) f
          \<and> before_terminal (te_terminal_at ?v) f)"
    by (auto simp: follow_up_window_def dest!: valid_actions_sub)
  with a show ?thesis by (auto simp: Let_def)
qed

definition example_round_evidence :: assignment_round_evidence where
  "example_round_evidence =
     \<lparr>ar_assignment_round_id = ''R1'', ar_order_id = ''O1'', ar_round_no = 1, ar_assigned_store_id = Some ''S1'',
      ar_assigned_at = Some 1000, ar_execution_mode = ''formal'', ar_verified_store_id = None,
      ar_verified_at = None, ar_updated_at = None\<rparr>"

definition example_follow_up_evidence :: follow_up_evidence where
  "example_follow_up_evidence =
     \<lparr>fe_follow_up_record_id = ''F1'', fe_order_id = ''O1'', fe_assignment_round_id = ''R1'',
      fe_assigned_store_id = Some ''S1'', fe_created_at = Some 2000, fe_deleted_at = None\<rparr>"

theorem followup_numerator_needs_cause_witness:
  "m_numerator (evaluate_clue_followup_round example_round_evidence [example_follow_up_evidence] None 5000) = 1
   \<and> ar_execution_mode example_round_evidence = ''formal''"
proof -
  have "m_numerator (evaluate_clue_followup_round example_round_evidence [example_follow_up_evidence] None 5000) = 1"
    by code_simp
  with followup_numerator_needs_cause [OF this] show ?thesis by blast
qed

text \<open>
  Evidence that arrived after the observation cutoff is invisible: for an assigned formal round a
  terminal event observed, or dated, after the cutoff gives the same metric as no terminal event.
\<close>

theorem late_terminal_evidence_is_ignored:
  assumes "ar_execution_mode r = ''formal''" and "ar_assigned_at r = Some a" and "a \<le> cutoff"
    and "(\<exists>x. te_observed_at t = Some x \<and> cutoff < x) \<or> (\<exists>x. te_terminal_at t = Some x \<and> cutoff < x)"
  shows "evaluate_clue_followup_round r follow_ups (Some t) cutoff = evaluate_clue_followup_round r follow_ups None cutoff"
proof -
  let ?h = "terminal_visible_at t cutoff"
  have h: "te_kind ?h = None" "te_terminal_at ?h = None"
    using assms(4) by (auto simp: terminal_visible_at_def Let_def split: option.splits)
  have n: "te_kind (terminal_visible_at no_terminal cutoff) = None"
    "te_terminal_at (terminal_visible_at no_terminal cutoff) = None"
    by (simp_all add: terminal_visible_at_def no_terminal_def Let_def)
  have "score_round r a acts ?h cutoff = score_round r a acts (terminal_visible_at no_terminal cutoff) cutoff" for acts
    by (simp add: score_round_def h n)
  with assms(1-3) h n show ?thesis by (simp add: evaluate_clue_followup_round_def is_terminal_def Let_def)
qed

theorem late_terminal_evidence_is_ignored_witness:
  "evaluate_clue_followup_round example_round_evidence [example_follow_up_evidence]
     (Some \<lparr>te_kind = Some ''closed'', te_terminal_at = Some 1500, te_observed_at = Some 9000, te_source = None,
            te_evidence_ids = []\<rparr>) 5000
   = evaluate_clue_followup_round example_round_evidence [example_follow_up_evidence] None 5000"
  by (rule late_terminal_evidence_is_ignored [of _ 1000]) (simp_all add: example_round_evidence_def)

text \<open>Loading.\<close>

lemma requested_ids_set: "set (requested_ids ids) = {i \<in> set ids. clean (Some i) \<noteq> None}"
  by (auto simp: requested_ids_def)

lemma load_terminal_keys: "map fst (load_terminal_evidence P s ids cutoff) = requested_ids ids"
  by (simp add: load_terminal_evidence_def Let_def comp_def)

lemma load_terminal_lookup:
  "map_of (load_terminal_evidence P s ids cutoff) k =
     (if k \<in> set ids \<and> clean (Some k) \<noteq> None
      then Some (order_terminal P s cutoff (load_state P s cutoff (requested_ids ids)) k) else None)"
proof -
  have "map_of (map (\<lambda>i. (i, f i)) xs) k = (if k \<in> set xs then Some (f k) else None)" for f :: "string \<Rightarrow> terminal_evidence" and xs
    by (induction xs) auto
  then show ?thesis by (simp add: load_terminal_evidence_def Let_def requested_ids_set)
qed

lemma terminal_from_rows_kind: "te_kind (terminal_from_rows P ro cl cp rf ev ve c ca) = Some k \<Longrightarrow> k \<in> set terminal_kinds"
  by (auto simp: terminal_from_rows_def verified_terminal_def refund_terminal_evidence_def no_terminal_def
      terminal_kinds_def Let_def split: if_splits)

text \<open>
  A refund record whose payload names no refund type is never accepted as a full refund, even when
  the order and coupon projections prove that the whole order was refunded: the missing type is read
  as the empty text, which is neither a full-refund type nor the missing value the code tests for.
\<close>

theorem untyped_refund_record_is_never_full:
  assumes "rr_raw_payload r = PDict d" and "\<not> is_platform_after_sale_payload d"
    and "\<not> py_truth (dget d ''refund_type'')" and "dget d ''type'' = PNone"
  shows "\<not> is_full_completed_refund P r"
proof -
  have "refund_type P (rr_raw_payload r) = Some []"
    using assms by (simp add: refund_type_def py_or_def Let_def normal_status_def)
  then show ?thesis by (simp add: is_full_completed_refund_def has_full_refund_type_def full_refund_types_def)
qed

theorem untyped_refund_record_is_never_full_witness:
  "\<not> is_full_completed_refund example_platform
     \<lparr>rr_source_record_key = ''K'', rr_order_id = ''O1'', rr_normalized_refund_status = 2,
      rr_refund_completed_at = Some 5, rr_source_observed_at = Some 6,
      rr_raw_payload = PDict [(''refund_completed_at'', PInt 5)], rr_gmt_modified = None\<rparr>"
proof (rule untyped_refund_record_is_never_full)
  let ?d = "[(''refund_completed_at'', PInt 5)]"
  show "\<not> is_platform_after_sale_payload ?d" "\<not> py_truth (dget ?d ''refund_type'')" "dget ?d ''type'' = PNone"
    by code_simp+
qed simp

end
