(* ===== verification/TerminalClosure.thy ===== *)
theory TerminalClosure
  imports FollowupMetrics Headquarters
begin

text \<open>
  Closing a lead on terminal order evidence, from \<open>apps/worker/clue_allocation.py\<close>: the status
  evidence a master accepts, the state it moves to, and
  \<open>refresh_terminal_evidence_for_locked_lead\<close>, which fences every operation on a lead.
\<close>

section \<open>Statuses\<close>

record status_resolution =
  sr_raw_status :: "string option"
  sr_normalized_status :: string
  sr_status_source :: string
  sr_closed_at :: "instant option"

definition lifecycle_status :: "string \<Rightarrow> string" where
  "lifecycle_status st =
     (if st = ''verified'' then ''closed_verified'' else if st = ''refunded'' then ''closed_refunded''
      else if st = ''closed'' then ''closed_order'' else if st = ''active'' then ''active'' else ''status_review'')"

definition closed_reason :: "string \<Rightarrow> string option" where
  "closed_reason st =
     (if st = ''verified'' then Some ''order_verified'' else if st = ''refunded'' then Some ''order_refunded''
      else if st = ''closed'' then Some ''order_closed'' else if st = ''unknown'' then Some ''order_status_unknown''
      else None)"

definition terminal_round_status :: "string \<Rightarrow> string" where
  "terminal_round_status lc =
     (if lc = ''closed_verified'' then ''closed_order_verified''
      else if lc = ''closed_refunded'' then ''closed_order_refunded''
      else if lc = ''closed_order'' then ''closed_order_closed'' else ''closed_order_status_unknown'')"

definition terminal_reason :: "string \<Rightarrow> string" where
  "terminal_reason lc =
     (if lc = ''closed_verified'' then ''order_verified'' else if lc = ''closed_refunded'' then ''order_refunded''
      else if lc = ''closed_order'' then ''order_closed'' else ''order_status_unknown'')"

definition terminal_center_lead_status :: "string \<Rightarrow> string" where
  "terminal_center_lead_status lc =
     (if lc = ''closed_verified'' then ''converted'' else if lc = ''closed_refunded'' then ''refunded''
      else if lc = ''closed_order'' then ''closed'' else ''status_review'')"

definition terminal_lifecycles :: "string list" where
  "terminal_lifecycles = [''closed_verified'', ''closed_refunded'', ''closed_order'']"

definition accepts_status_evidence :: "clue_master_lead \<Rightarrow> string \<Rightarrow> instant \<Rightarrow> bool" where
  "accepts_status_evidence lead incoming observed_at \<longleftrightarrow>
     (case l_order_status_observed_at lead of None \<Rightarrow> True | Some prev \<Rightarrow> prev \<le> observed_at)
     \<and> \<not> (l_normalized_order_status lead \<in> set terminal_kinds \<and> incoming \<notin> set terminal_kinds)"

text \<open>The columns whose change makes a new state version.\<close>

definition same_master_state :: "clue_master_lead \<Rightarrow> clue_master_lead \<Rightarrow> bool" where
  "same_master_state a b \<longleftrightarrow>
     l_master_kind a = l_master_kind b \<and> l_normalized_order_status a = l_normalized_order_status b
     \<and> l_status_source a = l_status_source b \<and> l_lifecycle_status a = l_lifecycle_status b
     \<and> l_pool_location a = l_pool_location b \<and> l_allocation_state a = l_allocation_state b
     \<and> l_current_assignment_round_id a = l_current_assignment_round_id b
     \<and> l_allocation_cycle_id a = l_allocation_cycle_id b
     \<and> l_ended_without_assignment a = l_ended_without_assignment b
     \<and> l_closed_reason a = l_closed_reason b \<and> l_closed_at a = l_closed_at b
     \<and> l_is_complete_pool a = l_is_complete_pool b \<and> l_anchor_poi_id a = l_anchor_poi_id b
     \<and> l_anchor_store_id a = l_anchor_store_id b
     \<and> l_anchor_unavailable_reason a = l_anchor_unavailable_reason b"

section \<open>Row access under locks\<close>

definition lock_clue_assignment_round_for_update :: "db \<Rightarrow> string option \<Rightarrow> clue_assignment_round option" where
  "lock_clue_assignment_round_for_update s i = (if clean i = None then None else get_round s (the i))"

definition lock_clue_center_order_for_update :: "db \<Rightarrow> string option \<Rightarrow> clue_center_order option" where
  "lock_clue_center_order_for_update s i = (if clean i = None then None else get_center s (the i))"

text \<open>The current round of a lead when it is a formal round still being followed up.\<close>

definition active_self_owned_current_round ::
  "clue_master_lead \<Rightarrow> clue_assignment_round list \<Rightarrow> clue_assignment_round option" where
  "active_self_owned_current_round lead rounds =
     (if \<not> truthy (l_current_assignment_round_id lead) then None
      else case find_row r_assignment_round_id (the (l_current_assignment_round_id lead)) rounds of
             None \<Rightarrow> None
           | Some r \<Rightarrow>
               (if r_execution_mode r = ''formal'' \<and> r_round_status r \<in> {''active_unfollowed'', ''active_followed''}
                then Some r else None))"

definition record_status_event ::
  "platform \<Rightarrow> db \<Rightarrow> string \<Rightarrow> string option \<Rightarrow> status_resolution \<Rightarrow> instant \<Rightarrow> instant \<Rightarrow> db" where
  "record_status_event P s lead_key order_id res observed_at created_at =
     (let digest = hex_digest P (py_join ''|''
            [lead_key, sr_status_source res, or_else (sr_raw_status res) [], sr_normalized_status res,
             iso_format P observed_at]);
          event_id = ''status-'' @ take 24 digest
      in if find_row ev_event_id event_id (t_events s) \<noteq> None then s
         else s\<lparr>t_events := add_row
           \<lparr>ev_event_id = event_id, ev_event_key = digest, ev_lead_key = lead_key, ev_order_id = order_id,
            ev_raw_status = sr_raw_status res, ev_normalized_status = sr_normalized_status res,
            ev_status_source = sr_status_source res, ev_observed_at = observed_at, ev_created_at = created_at\<rparr>
           (t_events s)\<rparr>)"

section \<open>Applying evidence\<close>

definition lead_with_evidence ::
  "clue_master_lead \<Rightarrow> status_resolution \<Rightarrow> instant \<Rightarrow> clue_assignment_round list \<Rightarrow> clue_master_lead" where
  "lead_with_evidence lead res observed_at rounds =
     (let status_changed = ((l_raw_order_status lead, l_normalized_order_status lead, l_status_source lead)
            \<noteq> (sr_raw_status res, sr_normalized_status res, sr_status_source res));
          lifecycle = lifecycle_status (sr_normalized_status res);
          lead1 = lead\<lparr>l_raw_order_status := sr_raw_status res,
                       l_normalized_order_status := sr_normalized_status res,
                       l_status_source := sr_status_source res,
                       l_order_status_observed_at := Some observed_at,
                       l_lifecycle_status := lifecycle\<rparr>
      in if lifecycle \<in> set terminal_lifecycles then
           lead1\<lparr>l_pool_location := Some ''closed'', l_allocation_state := ''closed'',
                 l_closed_at := sr_closed_at res, l_closed_reason := closed_reason (sr_normalized_status res),
                 l_ended_without_assignment :=
                   (l_current_assignment_round_id lead = None \<and> l_allocation_cycle_id lead = None)\<rparr>
         else if lifecycle = ''status_review'' then
           lead1\<lparr>l_pool_location := Some ''status_review'', l_allocation_state := ''status_review''\<rparr>
         else if status_changed then
           (if active_self_owned_current_round lead1 rounds \<noteq> None then
              lead1\<lparr>l_pool_location := Some ''store_follow_up_pool'', l_allocation_state := ''assigned''\<rparr>
            else if l_pool_location lead = Some ''headquarters_pool'' \<or> truthy (l_anchor_unavailable_reason lead) then
              lead1\<lparr>l_pool_location := Some ''headquarters_pool'', l_allocation_state := ''headquarters''\<rparr>
            else lead1\<lparr>l_pool_location := None, l_allocation_state := ''pending_allocation''\<rparr>)
         else lead1)"

definition apply_independent_status_evidence ::
  "platform \<Rightarrow> db \<Rightarrow> clue_master_lead \<Rightarrow> status_resolution \<Rightarrow> instant \<Rightarrow> instant \<Rightarrow> clue_assignment_round list
   \<Rightarrow> bool \<times> clue_master_lead \<times> db" where
  "apply_independent_status_evidence P s lead res observed_at now rounds =
     (if \<not> accepts_status_evidence lead (sr_normalized_status res) observed_at then (False, lead, s)
      else
        (let status_changed = ((l_raw_order_status lead, l_normalized_order_status lead, l_status_source lead)
               \<noteq> (sr_raw_status res, sr_normalized_status res, sr_status_source res));
             lead1 = lead_with_evidence lead res observed_at rounds;
             changed = (\<not> same_master_state lead lead1);
             lead2 = (if changed then lead1\<lparr>l_state_version := max (l_state_version lead) 1 + 1, l_updated_at := now\<rparr>
                      else lead1);
             s1 = put_lead lead2 s;
             s2 = (if status_changed
                   then record_status_event P s1 (l_lead_key lead) (l_order_id lead) res observed_at now else s1)
         in (changed \<or> lifecycle_status (sr_normalized_status res) \<in> set terminal_lifecycles, lead2, s2)))"

definition close_current_assignment ::
  "db \<Rightarrow> string \<Rightarrow> instant \<Rightarrow> string option \<Rightarrow> clue_center_order option \<Rightarrow> clue_assignment_round list \<Rightarrow> db" where
  "close_current_assignment s lifecycle closed_at current_round_id center rounds =
     (let round_status = terminal_round_status lifecycle;
          reason = terminal_reason lifecycle;
          round_id = (if truthy current_round_id then current_round_id
                      else Option.bind center c_current_assignment_round_id);
          round_row = (if truthy round_id then find_row r_assignment_round_id (the round_id) rounds else None);
          s1 = (case round_row of
                  Some r \<Rightarrow>
                    (if r_execution_mode r = ''formal'' then
                       put_round (r\<lparr>r_round_status := round_status, r_terminal_reason := Some reason,
                                    r_matured_at := Some closed_at, r_updated_at := closed_at\<rparr>) s
                     else s)
                | None \<Rightarrow> s)
      in case center of
           Some c \<Rightarrow>
             (if current_round_id = None \<or> c_current_assignment_round_id c = current_round_id then
                put_center (c\<lparr>c_lead_status := terminal_center_lead_status lifecycle,
                              c_current_round_status := round_status, c_reassign_reason := Some reason,
                              c_updated_at := closed_at\<rparr>) s1
              else s1)
         | None \<Rightarrow> s1)"

definition effective_terminal ::
  "platform \<Rightarrow> db \<Rightarrow> clue_master_lead \<Rightarrow> instant \<Rightarrow> terminal_evidence option \<Rightarrow> terminal_evidence option" where
  "effective_terminal P s lead now given_terminal =
     (if \<not> truthy (l_order_id lead) then None
      else let t = (case given_terminal of
                      Some t \<Rightarrow> Some t
                    | None \<Rightarrow> map_of (load_terminal_evidence P s [the (l_order_id lead)] now) (the (l_order_id lead)))
           in (case t of None \<Rightarrow> None | Some e \<Rightarrow> (if is_terminal e then Some e else None)))"

text \<open>The round the closure may write: the lead's current round, or the one its order shows, if owned by the lead.\<close>

definition owned_rounds :: "db \<Rightarrow> clue_master_lead \<Rightarrow> clue_assignment_round list" where
  "owned_rounds s lead =
     (let order_id = the (l_order_id lead);
          round_id = (if truthy (l_current_assignment_round_id lead) then l_current_assignment_round_id lead
                      else Option.bind (get_center s order_id) c_current_assignment_round_id);
          round_row = (if truthy round_id then lock_clue_assignment_round_for_update s round_id else None)
      in case round_row of
           Some r \<Rightarrow> (if r_lead_key r = Some (l_lead_key lead) \<and> r_order_id r = order_id then [r] else [])
         | None \<Rightarrow> [])"

definition terminal_resolution :: "clue_master_lead \<Rightarrow> instant \<Rightarrow> terminal_evidence \<Rightarrow> status_resolution" where
  "terminal_resolution lead now t =
     \<lparr>sr_raw_status = l_raw_order_status lead, sr_normalized_status = the (te_kind t),
      sr_status_source = or_else (te_source t) ''order'',
      sr_closed_at = if_none (te_terminal_at t) (if_none (l_closed_at lead) (Some now))\<rparr>"

definition terminal_observed_at :: "clue_master_lead \<Rightarrow> instant \<Rightarrow> terminal_evidence \<Rightarrow> instant" where
  "terminal_observed_at lead now t =
     (case max_time [te_observed_at t, l_order_status_observed_at lead] of Some x \<Rightarrow> x | None \<Rightarrow> now)"

definition close_lead_on_terminal ::
  "platform \<Rightarrow> db \<Rightarrow> clue_master_lead \<Rightarrow> instant \<Rightarrow> terminal_evidence \<Rightarrow> db" where
  "close_lead_on_terminal P s lead now t =
     (let rounds = owned_rounds s lead;
          center = lock_clue_center_order_for_update s (l_order_id lead);
          (applied, lead', s1) = apply_independent_status_evidence P s lead (terminal_resolution lead now t)
                                   (terminal_observed_at lead now t) now rounds;
          closed_at = (case l_closed_at lead' of Some x \<Rightarrow> x | None \<Rightarrow> now);
          s2 = snd (close_current_headquarters_pool_entry s1 (l_lead_key lead) closed_at
                 (or_else (l_closed_reason lead') ''order_closed'') ''closed'')
      in if applied then close_current_assignment s2 (l_lifecycle_status lead') closed_at
                           (l_current_assignment_round_id lead') center rounds
         else s1)"

definition refresh_terminal_evidence_for_locked_lead ::
  "platform \<Rightarrow> db \<Rightarrow> clue_master_lead \<Rightarrow> instant \<Rightarrow> terminal_evidence option \<Rightarrow> bool \<times> db" where
  "refresh_terminal_evidence_for_locked_lead P s lead now given_terminal =
     (case effective_terminal P s lead now given_terminal of
        None \<Rightarrow> (False, s)
      | Some t \<Rightarrow> (True, close_lead_on_terminal P s lead now t))"

text \<open>Terminal evidence of a refund, for the examples.\<close>

definition example_terminal :: terminal_evidence where
  "example_terminal = \<lparr>te_kind = Some ''refunded'', te_terminal_at = Some 50, te_observed_at = Some 60,
     te_source = Some ''refund'', te_evidence_ids = []\<rparr>"

section \<open>Frames\<close>

text \<open>The pool sees only its own table, and the masters only theirs.\<close>

lemma pool_frame:
  assumes "t_entries s' = t_entries s"
  shows "pool_inv s' = pool_inv s" "get_active_headquarters_pool_entry s' k = get_active_headquarters_pool_entry s k"
  using assms by (simp_all add: pool_inv_def get_active_headquarters_pool_entry_def)

lemma record_status_event_frame [simp]:
  "t_leads (record_status_event P s k i res obs now) = t_leads s"
  "t_rounds (record_status_event P s k i res obs now) = t_rounds s"
  "t_centers (record_status_event P s k i res obs now) = t_centers s"
  "t_entries (record_status_event P s k i res obs now) = t_entries s"
  by (simp_all add: record_status_event_def Let_def)

lemma close_pool_frame [simp]:
  "t_leads (snd (close_current_headquarters_pool_entry s k t r st)) = t_leads s"
  "t_rounds (snd (close_current_headquarters_pool_entry s k t r st)) = t_rounds s"
  "t_centers (snd (close_current_headquarters_pool_entry s k t r st)) = t_centers s"
  by (simp_all add: close_current_headquarters_pool_entry_def Let_def put_entry_def split: option.splits)

lemma close_current_assignment_frame [simp]:
  "t_leads (close_current_assignment s lc t i c rs) = t_leads s"
  "t_entries (close_current_assignment s lc t i c rs) = t_entries s"
  by (simp_all add: close_current_assignment_def Let_def put_round_def put_center_def split: option.splits)

lemma lead_with_evidence_key [simp]: "l_lead_key (lead_with_evidence lead res obs rounds) = l_lead_key lead"
  by (simp add: lead_with_evidence_def Let_def)

section \<open>Terminal evidence closes the lead\<close>

definition closed_lead :: "string \<Rightarrow> clue_master_lead \<Rightarrow> bool" where
  "closed_lead kind lead \<longleftrightarrow>
     l_normalized_order_status lead = kind \<and> l_lifecycle_status lead = lifecycle_status kind
     \<and> l_pool_location lead = Some ''closed'' \<and> l_allocation_state lead = ''closed''
     \<and> l_closed_at lead \<noteq> None \<and> l_closed_reason lead = closed_reason kind"

lemma terminal_kind_lifecycle: "k \<in> set terminal_kinds \<Longrightarrow> lifecycle_status k \<in> set terminal_lifecycles"
  by (auto simp: terminal_kinds_def lifecycle_status_def terminal_lifecycles_def)

lemma lead_with_evidence_closed:
  assumes "sr_normalized_status res \<in> set terminal_kinds" and "sr_closed_at res \<noteq> None"
  shows "closed_lead (sr_normalized_status res) (lead_with_evidence lead res obs rounds)"
  using assms terminal_kind_lifecycle [OF assms(1)]
  by (simp add: closed_lead_def lead_with_evidence_def Let_def)

lemma effective_terminalD:
  assumes "effective_terminal P s lead now g = Some t"
  shows "\<exists>k. te_kind t = Some k \<and> k \<in> set terminal_kinds"
  using assms by (auto simp: effective_terminal_def is_terminal_def Let_def split: if_splits option.splits)

lemma evidence_accepted:
  assumes "k \<in> set terminal_kinds"
  shows "accepts_status_evidence lead k (terminal_observed_at lead now t)"
proof (cases "l_order_status_observed_at lead")
  case None
  with assms show ?thesis by (simp add: accepts_status_evidence_def)
next
  case (Some p)
  then obtain m where m: "max_time [te_observed_at t, l_order_status_observed_at lead] = Some m"
    by (cases "max_time [te_observed_at t, l_order_status_observed_at lead]") (auto simp: max_time_None)
  with max_time_Some [OF m] Some assms show ?thesis
    by (simp add: accepts_status_evidence_def terminal_observed_at_def)
qed

lemma apply_terminal_evidence:
  assumes "accepts_status_evidence lead (sr_normalized_status res) obs"
    and "sr_normalized_status res \<in> set terminal_kinds" and "sr_closed_at res \<noteq> None"
    and "apply_independent_status_evidence P s lead res obs now rounds = (applied, lead', s')"
  shows "applied \<and> closed_lead (sr_normalized_status res) lead' \<and> l_lead_key lead' = l_lead_key lead
     \<and> t_leads s' = upd_row l_lead_key lead' (t_leads s) \<and> t_entries s' = t_entries s"
  using assms terminal_kind_lifecycle [OF assms(2)] lead_with_evidence_closed [OF assms(2,3), of lead obs rounds]
  by (auto simp: apply_independent_status_evidence_def Let_def closed_lead_def put_lead_def)

lemma close_lead_on_terminal_effect:
  assumes lead: "get_lead s (l_lead_key lead) = Some lead" and inv: "pool_inv s"
    and kind: "te_kind t = Some kind" "kind \<in> set terminal_kinds"
    and s'_def: "s' = close_lead_on_terminal P s lead now t"
  shows "(\<exists>lead'. get_lead s' = (get_lead s)(l_lead_key lead \<mapsto> lead') \<and> closed_lead kind lead')
     \<and> pool_inv s' \<and> get_active_headquarters_pool_entry s' = (get_active_headquarters_pool_entry s)(l_lead_key lead := None)"
proof -
  let ?res = "terminal_resolution lead now t"
  have res: "sr_normalized_status ?res \<in> set terminal_kinds" "sr_closed_at ?res \<noteq> None"
    using kind by (simp_all add: terminal_resolution_def if_none_def split: option.splits)
  obtain applied lead1 s1 where
    ap: "apply_independent_status_evidence P s lead ?res (terminal_observed_at lead now t) now (owned_rounds s lead)
       = (applied, lead1, s1)" by (metis prod_cases3)
  note a = apply_terminal_evidence [OF evidence_accepted [OF res(1)] res ap]
  let ?at = "case l_closed_at lead1 of Some x \<Rightarrow> x | None \<Rightarrow> now"
  let ?s2 = "snd (close_current_headquarters_pool_entry s1 (l_lead_key lead) ?at
                 (or_else (l_closed_reason lead1) ''order_closed'') ''closed'')"
  have s': "s' = close_current_assignment ?s2 (l_lifecycle_status lead1) ?at (l_current_assignment_round_id lead1)
      (lock_clue_center_order_for_update s (l_order_id lead)) (owned_rounds s lead)"
    using a by (simp add: s'_def close_lead_on_terminal_def Let_def ap)
  have leads: "t_leads s' = upd_row l_lead_key lead1 (t_leads s)" using a by (simp add: s')
  have inv1: "pool_inv s1" and act1: "get_active_headquarters_pool_entry s1 k = get_active_headquarters_pool_entry s k" for k
    using a inv by (simp_all add: pool_frame [of s1 s])
  have "t_entries s' = t_entries ?s2" by (simp add: s')
  then have "pool_inv s'" "get_active_headquarters_pool_entry s' = (get_active_headquarters_pool_entry s)(l_lead_key lead := None)"
    using close_pool_inv [OF inv1, of "''closed''"] active_after_close [OF inv1, of "''closed''"] act1
    by (simp_all add: pool_frame [of s' ?s2] fun_eq_iff)
  moreover have "get_lead s' k = ((get_lead s)(l_lead_key lead \<mapsto> lead1)) k" for k
    using lead a by (auto simp: get_lead_def leads find_row_upd)
  moreover have "sr_normalized_status ?res = kind" using kind by (simp add: terminal_resolution_def)
  ultimately show ?thesis using a by (auto simp: fun_eq_iff)
qed

text \<open>What the closure does to the rounds: the owned current round ends, no other round moves.\<close>

lemma close_current_assignment_rounds:
  assumes r: "get_round s (r_assignment_round_id r) = Some r" and formal: "r_execution_mode r = ''formal''"
    and cur: "i = Some (r_assignment_round_id r)" and id: "r_assignment_round_id r \<noteq> []"
  shows "get_round (close_current_assignment s lc t i c [r]) = (get_round s)(r_assignment_round_id r \<mapsto>
     r\<lparr>r_round_status := terminal_round_status lc, r_terminal_reason := Some (terminal_reason lc),
       r_matured_at := Some t, r_updated_at := t\<rparr>)"
proof -
  let ?r = "r\<lparr>r_round_status := terminal_round_status lc, r_terminal_reason := Some (terminal_reason lc),
       r_matured_at := Some t, r_updated_at := t\<rparr>"
  have tr: "truthy i" using cur id by (simp add: truthy_def)
  have t: "t_rounds (close_current_assignment s lc t i c [r]) = t_rounds (put_round ?r s)"
    using tr cur formal
    by (simp add: close_current_assignment_def Let_def find_row_Cons put_center_def split: option.splits)
  have k: "r_assignment_round_id ?r = r_assignment_round_id r" by simp
  have "get_round (put_round ?r s) j = ((get_round s)(r_assignment_round_id r \<mapsto> ?r)) j" for j
    using round_table.get_put [of ?r s j] r k by simp
  with t show ?thesis by (simp add: get_round_def fun_eq_iff)
qed

lemma lead_with_evidence_fields [simp]:
  "l_current_assignment_round_id (lead_with_evidence lead res obs rounds) = l_current_assignment_round_id lead"
  "l_lifecycle_status (lead_with_evidence lead res obs rounds) = lifecycle_status (sr_normalized_status res)"
  "l_normalized_order_status (lead_with_evidence lead res obs rounds) = sr_normalized_status res"
  "l_order_status_observed_at (lead_with_evidence lead res obs rounds) = Some obs"
  by (simp_all add: lead_with_evidence_def Let_def)

lemma apply_evidence_frame:
  assumes "apply_independent_status_evidence P s lead res obs now rounds = (applied, lead', s')"
  shows "t_rounds s' = t_rounds s" "l_current_assignment_round_id lead' = l_current_assignment_round_id lead"
    "applied \<Longrightarrow> l_lifecycle_status lead' = lifecycle_status (sr_normalized_status res)"
  using assms
  by (auto simp: apply_independent_status_evidence_def Let_def put_lead_def split: if_splits)

lemma apply_evidence_status:
  assumes "apply_independent_status_evidence P s lead res obs now rounds = (applied, lead', s')"
  shows "(if accepts_status_evidence lead (sr_normalized_status res) obs
     then l_normalized_order_status lead' = sr_normalized_status res \<and> l_order_status_observed_at lead' = Some obs
     else lead' = lead \<and> s' = s)"
  using assms by (auto simp: apply_independent_status_evidence_def Let_def)

lemma close_lead_on_terminal_round:
  assumes own: "owned_rounds s lead = [r]" and cur: "l_current_assignment_round_id lead = Some (r_assignment_round_id r)"
    and formal: "r_execution_mode r = ''formal''" and kind: "te_kind t = Some kind" "kind \<in> set terminal_kinds"
  shows "\<exists>r'. get_round (close_lead_on_terminal P s lead now t) = (get_round s)(r_assignment_round_id r \<mapsto> r')
     \<and> r_round_status r' = terminal_round_status (lifecycle_status kind) \<and> r_matured_at r' \<noteq> None"
proof -
  let ?res = "terminal_resolution lead now t"
  have res: "sr_normalized_status ?res \<in> set terminal_kinds" "sr_closed_at ?res \<noteq> None" "sr_normalized_status ?res = kind"
    using kind by (simp_all add: terminal_resolution_def if_none_def split: option.splits)
  obtain applied lead1 s1 where
    ap: "apply_independent_status_evidence P s lead ?res (terminal_observed_at lead now t) now [r]
       = (applied, lead1, s1)" by (metis prod_cases3)
  note a = apply_terminal_evidence [OF evidence_accepted [OF res(1)] res(1,2) ap] apply_evidence_frame [OF ap]
  let ?at = "case l_closed_at lead1 of Some x \<Rightarrow> x | None \<Rightarrow> now"
  let ?s2 = "snd (close_current_headquarters_pool_entry s1 (l_lead_key lead) ?at
                 (or_else (l_closed_reason lead1) ''order_closed'') ''closed'')"
  have ne: "r_assignment_round_id r \<noteq> []" and g: "get_round s (r_assignment_round_id r) = Some r"
    using own cur
    by (auto simp: owned_rounds_def Let_def truthy_def lock_clue_assignment_round_for_update_def
        dest: round_table.get_key split: if_splits option.splits)
  have g2: "get_round ?s2 = get_round s" using a by (simp add: get_round_def fun_eq_iff)
  have "close_lead_on_terminal P s lead now t = close_current_assignment ?s2 (l_lifecycle_status lead1) ?at
      (l_current_assignment_round_id lead1) (lock_clue_center_order_for_update s (l_order_id lead)) [r]"
    using a by (simp add: close_lead_on_terminal_def Let_def own ap)
  moreover have "get_round (close_current_assignment ?s2 (l_lifecycle_status lead1) ?at
      (l_current_assignment_round_id lead1) (lock_clue_center_order_for_update s (l_order_id lead)) [r])
    = (get_round s)(r_assignment_round_id r \<mapsto>
     r\<lparr>r_round_status := terminal_round_status (l_lifecycle_status lead1),
       r_terminal_reason := Some (terminal_reason (l_lifecycle_status lead1)),
       r_matured_at := Some ?at, r_updated_at := ?at\<rparr>)"
    using close_current_assignment_rounds [OF _ formal _ ne, of ?s2] g g2 cur a by simp
  ultimately show ?thesis using a res by auto
qed

section \<open>Properties\<close>



text \<open>
  The round being followed up ends with the lead: when the refresh finds terminal evidence and the
  lead's current round is a formal round of that lead and order, the round is stored with the round
  status of that evidence and a maturity time, and every other round is unchanged.
\<close>

theorem terminal_evidence_ends_current_round:
  assumes "effective_terminal P s lead now g = Some t" and "te_kind t = Some kind"
    and "owned_rounds s lead = [r]" and "l_current_assignment_round_id lead = Some (r_assignment_round_id r)"
    and "r_execution_mode r = ''formal''"
  shows "\<exists>r'. get_round (snd (refresh_terminal_evidence_for_locked_lead P s lead now g))
        = (get_round s)(r_assignment_round_id r \<mapsto> r')
     \<and> r_round_status r' = terminal_round_status (lifecycle_status kind) \<and> r_matured_at r' \<noteq> None"
  using close_lead_on_terminal_round [OF assms(3-5,2)] effective_terminalD [OF assms(1)] assms(1,2)
  by (auto simp: refresh_terminal_evidence_for_locked_lead_def)

theorem terminal_evidence_ends_current_round_witness:
  "\<exists>r'. get_round (snd (refresh_terminal_evidence_for_locked_lead example_platform
        (empty_db\<lparr>t_leads := [example_assigned_lead], t_rounds := [example_round]\<rparr>) example_assigned_lead 100
        (Some example_terminal))) ''R1'' = Some r' \<and> r_round_status r' = ''closed_order_refunded''"
proof -
  let ?s = "empty_db\<lparr>t_leads := [example_assigned_lead], t_rounds := [example_round]\<rparr>"
  have e: "effective_terminal example_platform ?s example_assigned_lead 100 (Some example_terminal) = Some example_terminal"
    by (simp add: effective_terminal_def is_terminal_def example_terminal_def terminal_kinds_def
        example_assigned_lead_def example_lead_def)
  have "clean (Some ''R1'') = Some ''R1''" by code_simp
  then have o: "owned_rounds ?s example_assigned_lead = [example_round]"
    by (simp add: owned_rounds_def Let_def example_assigned_lead_def example_lead_def example_round_def
        lock_clue_assignment_round_for_update_def get_round_def find_row_Cons)
  show ?thesis
    using terminal_evidence_ends_current_round [OF e _ o, of "''refunded''"]
    by (auto simp: example_terminal_def example_assigned_lead_def example_round_def
        lifecycle_status_def terminal_round_status_def)
qed

text \<open>
  C28. Order status evidence is monotone: applying any evidence to a lead never replaces a terminal
  status by a non-terminal one and never moves the observation clock back; evidence that would do
  either is dropped without any change to the lead or to the tables.
\<close>

theorem status_evidence_is_monotone:
  assumes "apply_independent_status_evidence P s lead res obs now rounds = (applied, lead', s')"
  shows "(l_normalized_order_status lead \<in> set terminal_kinds \<longrightarrow> l_normalized_order_status lead' \<in> set terminal_kinds)
     \<and> time_order (l_order_status_observed_at lead) \<le> time_order (l_order_status_observed_at lead')
     \<and> (accepts_status_evidence lead (sr_normalized_status res) obs \<or> lead' = lead \<and> s' = s)"
  using apply_evidence_status [OF assms]
  by (auto simp: accepts_status_evidence_def time_order_def split: if_splits option.splits)

theorem status_evidence_is_monotone_witness:
  "let lead = example_lead\<lparr>l_normalized_order_status := ''refunded''\<rparr>;
       res = \<lparr>sr_raw_status = None, sr_normalized_status = ''active'', sr_status_source = ''order'', sr_closed_at = None\<rparr>
   in fst (snd (apply_independent_status_evidence example_platform empty_db lead res 9 9 [])) = lead"
proof -
  let ?lead = "example_lead\<lparr>l_normalized_order_status := ''refunded''\<rparr>"
  let ?res = "\<lparr>sr_raw_status = None, sr_normalized_status = ''active'', sr_status_source = ''order'', sr_closed_at = None\<rparr>"
  obtain a l s' where r: "apply_independent_status_evidence example_platform empty_db ?lead ?res 9 9 [] = (a, l, s')"
    by (metis prod_cases3)
  have "\<not> accepts_status_evidence ?lead (sr_normalized_status ?res) 9"
    by (simp add: accepts_status_evidence_def terminal_kinds_def)
  with status_evidence_is_monotone [OF r] r show ?thesis by (simp add: Let_def)
qed

end
