(* ===== verification/AllocationCandidates.thy ===== *)
theory AllocationCandidates
  imports RuleVersions
begin

text \<open>
  The choice of a store, first half of \<open>apps/worker/clue_allocation_engine.py\<close>: reading the
  strategy configuration of a bound rule version, the stores a strategy considers for a lead, why a
  store is excluded and how the eligible ones are ranked.
\<close>

section \<open>Cities, coordinates and distances\<close>

definition normalize_city_code :: "string option \<Rightarrow> string option" where
  "normalize_city_code v =
     map_option (\<lambda>c. let q = py_squeeze c in if py_endswith q city_suffix then py_butlast q else q) (clean v)"

definition valid_coordinates :: "rat option \<Rightarrow> rat option \<Rightarrow> bool" where
  "valid_coordinates latitude longitude =
     (case (latitude, longitude) of
        (Some la, Some lo) \<Rightarrow> -90 \<le> la \<and> la \<le> 90 \<and> -180 \<le> lo \<and> lo \<le> 180
      | _ \<Rightarrow> False)"

definition distance_from_anchor :: "platform \<Rightarrow> clue_master_lead \<Rightarrow> dim_store \<Rightarrow> rat option" where
  "distance_from_anchor P lead store =
     (if \<not> valid_coordinates (l_anchor_latitude lead) (l_anchor_longitude lead) then None
      else if \<not> valid_coordinates (s_latitude store) (s_longitude store) then None
      else Some (km_between P (the (l_anchor_latitude lead)) (the (l_anchor_longitude lead))
                   (the (s_latitude store)) (the (s_longitude store))))"

text \<open>\<open>round(x, 6)\<close> and the comparison of a distance with a limit that may be infinite or not a number.\<close>

definition round6 :: "rat \<Rightarrow> rat" where
  "round6 q = of_int (round_half_even (q * 1000000)) / 1000000"

fun exceeds :: "rat \<Rightarrow> pynum \<Rightarrow> bool" where
  "exceeds d (Fin m) = (d > m)"
| "exceeds d (Inf neg) = neg"
| "exceeds d NaN = False"

section \<open>Strategy configuration\<close>

definition fixed_strategy_types :: "string list" where
  "fixed_strategy_types = [''sales_store_priority'', ''nearby_city_optimization'', ''city_fallback'']"

definition default_distance_km :: "(string \<times> rat) list" where
  "default_distance_km = [(''sales_store_priority'', 10), (''nearby_city_optimization'', 15)]"

record strategy_config =
  k_strategy_type :: string
  k_enabled :: bool
  k_execution_order :: int
  k_params :: pydict

definition config_type_is :: "string \<Rightarrow> pyval \<Rightarrow> bool" where
  "config_type_is t raw = (case raw of PDict d \<Rightarrow> dget d ''strategy_type'' = PStr t | _ \<Rightarrow> False)"

text \<open>The configuration of one strategy: the last entry that names it, or the disabled default.\<close>

definition strategy_config_of :: "pyval list \<Rightarrow> int \<Rightarrow> string \<Rightarrow> strategy_config" where
  "strategy_config_of raws index t =
     (let config = (case find (config_type_is t) (rev raws) of Some (PDict d) \<Rightarrow> d | _ \<Rightarrow> [])
      in \<lparr>k_strategy_type = t, k_enabled = py_truth (dget config ''enabled''),
          k_execution_order = (case dget config ''execution_order'' of
             PInt i \<Rightarrow> i | PBool b \<Rightarrow> (if b then 1 else 0) | _ \<Rightarrow> index),
          k_params = the_dict (dget config ''params'')\<rparr>)"

definition strategy_configs :: "pydict \<Rightarrow> strategy_config list" where
  "strategy_configs rule_snapshot =
     (let raws = the_list (dget rule_snapshot ''strategy_configs'')
      in sort_key (\<lambda>c. (k_execution_order c, k_strategy_type c))
           (map (\<lambda>(i, t). strategy_config_of raws i t) (zip [1, 2, 3] fixed_strategy_types)))"

text \<open>
  The distance limit of a strategy. A signalling NaN is the one text \<open>Decimal\<close> accepts and
  \<open>float\<close> refuses.
\<close>

definition signalling_nan :: "pyval \<Rightarrow> bool" where
  "signalling_nan v = (case v of
     PStr s \<Rightarrow> py_startswith (py_lower (snd (split_sign (filter (\<lambda>c. c \<noteq> CHR ''_'') (py_strip s))))) ''snan''
   | _ \<Rightarrow> False)"

definition strategy_distance :: "string \<Rightarrow> pydict \<Rightarrow> pynum option" where
  "strategy_distance t params =
     (case map_of default_distance_km t of
        None \<Rightarrow> None
      | Some d \<Rightarrow>
          (let v = dget_default params ''max_distance_km'' (PFloat (Fin d))
           in case decimal_of v of
                None \<Rightarrow> Some (Fin d)
              | Some x \<Rightarrow> Some (if signalling_nan v then Fin d else x)))"

definition positive_int :: "pyval \<Rightarrow> int \<Rightarrow> int result" where
  "positive_int v d =
     (case py_int v of
        Inl (OverflowErr m) \<Rightarrow> Inl (OverflowErr m)
      | Inl _ \<Rightarrow> Inr d
      | Inr i \<Rightarrow> Inr (if 0 < i then i else d))"

definition is_source_store_mode :: "pydict \<Rightarrow> bool" where
  "is_source_store_mode rule_snapshot =
     list_ex (\<lambda>c. k_strategy_type c = ''nearby_city_optimization''
       \<and> dget (k_params c) ''selection_mode'' = PStr ''douyin_source_store'') (strategy_configs rule_snapshot)"

section \<open>Evidence a strategy reads\<close>

record sale_store_evidence =
  se_status :: string
  se_store_id :: "string option"
  se_store_ids :: "string list"

definition missing_sale_store_evidence :: sale_store_evidence where
  "missing_sale_store_evidence = \<lparr>se_status = ''sale_store_missing'', se_store_id = None, se_store_ids = []\<rparr>"

definition cleaned :: "string option list \<Rightarrow> string list" where
  "cleaned vs = remdups (sort (map the (filter (\<lambda>v. v \<noteq> None) (map clean vs))))"

definition resolve_sale_store_evidence :: "db \<Rightarrow> string \<Rightarrow> sale_store_evidence" where
  "resolve_sale_store_evidence s order_id =
     (let ids = cleaned (map sd_sale_store_id (filter (\<lambda>d. sd_order_id d = order_id) (t_settlements s)))
      in case ids of
           [] \<Rightarrow> missing_sale_store_evidence
         | [i] \<Rightarrow> \<lparr>se_status = ''resolved'', se_store_id = Some i, se_store_ids = ids\<rparr>
         | _ \<Rightarrow> \<lparr>se_status = ''sale_store_ambiguous'', se_store_id = None, se_store_ids = ids\<rparr>)"

definition self_owned_execution_modes :: "string list" where
  "self_owned_execution_modes = [''formal'', ''trial'']"

definition historical_self_owned_store_ids :: "db \<Rightarrow> string \<Rightarrow> string list" where
  "historical_self_owned_store_ids s lead_key =
     cleaned (map r_assigned_store_id
       (filter (\<lambda>r. r_lead_key r = Some lead_key \<and> r_execution_mode r \<in> set self_owned_execution_modes) (t_rounds s)))"

definition score_snapshot_rule_version_id :: "store_score_snapshot \<Rightarrow> string option" where
  "score_snapshot_rule_version_id sc =
     (case dget (the_dict (sc_config_json sc)) ''rule_version_id'' of PStr v \<Rightarrow> clean (Some v) | _ \<Rightarrow> None)"

definition latest_score :: "db \<Rightarrow> string \<Rightarrow> string \<Rightarrow> store_score_snapshot option" where
  "latest_score s rule_version_id store_id =
     last_by (\<lambda>r. (sc_computed_at r, sc_snapshot_id r))
       (filter (\<lambda>r. sc_store_id r = store_id \<and> score_snapshot_rule_version_id r = Some rule_version_id) (t_scores s))"

section \<open>Candidates\<close>

record candidate =
  cd_store_id :: "string option"
  cd_store_name :: "string option"
  cd_city_code :: "string option"
  cd_eligible :: bool
  cd_exclusion_reasons :: "string list"
  cd_distance_km :: "rat option"
  cd_score :: "store_score_snapshot option"
  cd_used_for_ranking :: bool
  cd_rank :: "int option"

definition candidate_eligibility_reasons :: "dim_store \<Rightarrow> string list" where
  "candidate_eligibility_reasons st =
     (if s_is_active st then [] else [''store_inactive''])
     @ (if s_is_douyin_clue_applicable st then [] else [''douyin_clue_not_applicable''])
     @ (if s_participates_in_clue_allocation st then [] else [''allocation_participation_disabled''])
     @ (if s_location_status st = ''valid'' then [] else [''location_not_valid''])
     @ (if clean (s_standard_province st) = None then [''province_missing''] else [])
     @ (if clean (s_standard_city st) = None then [''city_missing''] else [])
     @ (if truthy (normalize_city_code (s_city_code st)) then [] else [''city_code_missing''])
     @ (if valid_coordinates (s_latitude st) (s_longitude st) then [] else [''coordinates_invalid''])"

definition candidate_record ::
  "platform \<Rightarrow> dim_store \<Rightarrow> clue_master_lead \<Rightarrow> store_score_snapshot option \<Rightarrow> bool \<Rightarrow> string list \<Rightarrow> pynum option
   \<Rightarrow> bool \<Rightarrow> candidate" where
  "candidate_record P st lead score require_same_city historical max_distance used_for_ranking =
     (let base = candidate_eligibility_reasons st;
          distance = (if base = [] then distance_from_anchor P lead st else None);
          reasons = base
            @ (if base = [] \<and> distance = None then [''anchor_coordinates_unavailable''] else [])
            @ (if require_same_city \<and> normalize_city_code (s_city_code st) \<noteq> normalize_city_code (l_anchor_city_code lead)
               then [''city_mismatch''] else [])
            @ (if s_store_id st \<in> set historical then [''historically_self_owned''] else [])
            @ (case (max_distance, distance) of
                 (Some m, Some d) \<Rightarrow> (if exceeds d m then [''distance_exceeds_max''] else [])
               | _ \<Rightarrow> [])
      in \<lparr>cd_store_id = Some (s_store_id st), cd_store_name = Some (s_store_name st),
          cd_city_code = normalize_city_code (s_city_code st), cd_eligible = (reasons = []),
          cd_exclusion_reasons = reasons, cd_distance_km = map_option round6 distance,
          cd_score = score, cd_used_for_ranking = used_for_ranking, cd_rank = None\<rparr>)"

definition unknown_store_candidate :: "string option \<Rightarrow> string \<Rightarrow> candidate" where
  "unknown_store_candidate store_id reason =
     \<lparr>cd_store_id = store_id, cd_store_name = None, cd_city_code = None, cd_eligible = False,
      cd_exclusion_reasons = [reason], cd_distance_km = None, cd_score = None, cd_used_for_ranking = False,
      cd_rank = None\<rparr>"

definition composite_score :: "candidate \<Rightarrow> rat" where
  "composite_score c = (case cd_score c of None \<Rightarrow> 0 | Some sc \<Rightarrow> sc_composite_score sc)"

text \<open>Better score first, then the shorter distance, then the store id.\<close>

definition rank_order :: "candidate \<Rightarrow> rat \<times> rat \<times> string" where
  "rank_order c = (- composite_score c, the (cd_distance_km c), the (cd_store_id c))"

definition ranked_candidates :: "candidate list \<Rightarrow> candidate list" where
  "ranked_candidates cs = sort_key rank_order (filter cd_eligible cs)"

text \<open>Ranks count from one along the ranking; every candidate keeps its place in the list.\<close>

definition with_rank :: "candidate list \<Rightarrow> candidate \<Rightarrow> candidate" where
  "with_rank ranked c =
     (if cd_eligible c then c\<lparr>cd_rank := Some (int (length (takeWhile (\<lambda>x. x \<noteq> c) ranked)) + 1)\<rparr> else c)"

definition assign_ranks :: "candidate list \<Rightarrow> candidate list" where
  "assign_ranks cs = map (with_rank (ranked_candidates cs)) cs"

record candidate_summary =
  cs_store_universe_count :: int
  cs_in_scope_store_count :: int
  cs_omitted_out_of_city_count :: int
  cs_evaluated_count :: int
  cs_eligible_count :: int

definition summarize_candidates :: "dim_store list \<Rightarrow> candidate list \<Rightarrow> int \<Rightarrow> int \<Rightarrow> candidate_summary" where
  "summarize_candidates stores cs in_scope omitted =
     \<lparr>cs_store_universe_count = int (length stores), cs_in_scope_store_count = in_scope,
      cs_omitted_out_of_city_count = max omitted 0, cs_evaluated_count = int (length cs),
      cs_eligible_count = int (length (filter cd_eligible cs))\<rparr>"

section \<open>The stores of a strategy\<close>

type_synonym strategy_outcome = "candidate list \<times> string option \<times> candidate_summary"

text \<open>The store Douyin attached the lead to: identity decides, geography does not.\<close>

definition source_store_candidates ::
  "string \<Rightarrow> clue_master_lead \<Rightarrow> dim_store list \<Rightarrow> string list \<Rightarrow> strategy_outcome" where
  "source_store_candidates t lead stores historical =
     (if t \<noteq> ''nearby_city_optimization'' then ([], Some ''source_store_only'', summarize_candidates stores [] 0 0)
      else
        (let c = (case Option.bind (l_anchor_store_id lead) (\<lambda>i. find_row s_store_id i stores) of
                    None \<Rightarrow> unknown_store_candidate (l_anchor_store_id lead) ''follow_poi_store_missing''
                  | Some st \<Rightarrow>
                      (let reasons = (if s_is_active st then [] else [''store_inactive''])
                             @ (if s_participates_in_clue_allocation st then [] else [''allocation_participation_disabled''])
                             @ (if s_store_id st \<in> set historical then [''historically_self_owned''] else [])
                       in \<lparr>cd_store_id = Some (s_store_id st), cd_store_name = Some (s_store_name st),
                           cd_city_code = normalize_city_code (s_city_code st), cd_eligible = (reasons = []),
                           cd_exclusion_reasons = reasons, cd_distance_km = None, cd_score = None,
                           cd_used_for_ranking = False, cd_rank = (if reasons = [] then Some 1 else None)\<rparr>))
         in ([c], if cd_eligible c then None else Some ''source_store_ineligible'', summarize_candidates stores [c] 1 0)))"

definition sale_store_candidates ::
  "platform \<Rightarrow> clue_master_lead \<Rightarrow> sale_store_evidence \<Rightarrow> dim_store list \<Rightarrow> (string \<Rightarrow> store_score_snapshot option)
   \<Rightarrow> string list \<Rightarrow> pynum option \<Rightarrow> strategy_outcome" where
  "sale_store_candidates P lead sale stores scores historical max_distance =
     (if se_status sale \<noteq> ''resolved'' then ([], Some (se_status sale), summarize_candidates stores [] 0 0)
      else case Option.bind (se_store_id sale) (\<lambda>i. find_row s_store_id i stores) of
        None \<Rightarrow>
          (let c = unknown_store_candidate (se_store_id sale) ''sale_store_unmapped''
           in ([c], Some ''sale_store_unmapped'', summarize_candidates stores [c] 1 0))
      | Some st \<Rightarrow>
          (let c = candidate_record P st lead (scores (s_store_id st)) False historical max_distance False
           in if \<not> cd_eligible c then
                ([c], Some (if ''distance_exceeds_max'' \<in> set (cd_exclusion_reasons c) then ''sale_store_over_distance''
                            else if ''historically_self_owned'' \<in> set (cd_exclusion_reasons c) then ''sale_store_previously_assigned''
                            else ''sale_store_ineligible''), summarize_candidates stores [c] 1 0)
              else let c1 = c\<lparr>cd_rank := Some 1\<rparr> in ([c1], None, summarize_candidates stores [c1] 1 0)))"

definition city_candidates ::
  "platform \<Rightarrow> clue_master_lead \<Rightarrow> dim_store list \<Rightarrow> (string \<Rightarrow> store_score_snapshot option)
   \<Rightarrow> string list \<Rightarrow> pynum option \<Rightarrow> strategy_outcome" where
  "city_candidates P lead stores scores historical max_distance =
     (let scoped = filter (\<lambda>st. normalize_city_code (s_city_code st) = normalize_city_code (l_anchor_city_code lead)) stores;
          cs = assign_ranks (map (\<lambda>st. candidate_record P st lead (scores (s_store_id st)) True historical max_distance True) scoped)
      in (cs, if filter cd_eligible cs = [] then Some ''no_candidate'' else None,
          summarize_candidates stores cs (int (length scoped)) (int (length stores) - int (length scoped))))"

definition strategy_candidates ::
  "platform \<Rightarrow> string \<Rightarrow> clue_master_lead \<Rightarrow> sale_store_evidence \<Rightarrow> dim_store list \<Rightarrow> (string \<Rightarrow> store_score_snapshot option)
   \<Rightarrow> string list \<Rightarrow> pynum option \<Rightarrow> bool \<Rightarrow> strategy_outcome" where
  "strategy_candidates P t lead sale stores scores historical max_distance source_store_mode =
     (if source_store_mode \<and> t \<noteq> ''sales_store_priority'' then source_store_candidates t lead stores historical
      else if t = ''sales_store_priority'' then sale_store_candidates P lead sale stores scores historical max_distance
      else city_candidates P lead stores scores historical max_distance)"

definition selected_candidate :: "candidate list \<Rightarrow> candidate option" where
  "selected_candidate cs = find (\<lambda>c. cd_rank c = Some 1) cs"

section \<open>What the choice means\<close>

text \<open>
  The specification of the choice, without candidate lists: a store that works, can be reached and
  has not had the lead before, and the order among such stores.
\<close>

definition serviceable :: "dim_store \<Rightarrow> bool" where
  "serviceable st \<longleftrightarrow>
     s_is_active st \<and> s_is_douyin_clue_applicable st \<and> s_participates_in_clue_allocation st
     \<and> s_location_status st = ''valid'' \<and> clean (s_standard_province st) \<noteq> None \<and> clean (s_standard_city st) \<noteq> None
     \<and> truthy (normalize_city_code (s_city_code st)) \<and> valid_coordinates (s_latitude st) (s_longitude st)"

definition within_reach :: "platform \<Rightarrow> clue_master_lead \<Rightarrow> pynum option \<Rightarrow> dim_store \<Rightarrow> bool" where
  "within_reach P lead max_distance st =
     (case distance_from_anchor P lead st of
        None \<Rightarrow> False
      | Some d \<Rightarrow> (case max_distance of None \<Rightarrow> True | Some m \<Rightarrow> \<not> exceeds d m))"

definition suitable_store :: "platform \<Rightarrow> clue_master_lead \<Rightarrow> string list \<Rightarrow> pynum option \<Rightarrow> dim_store \<Rightarrow> bool" where
  "suitable_store P lead historical max_distance st \<longleftrightarrow>
     serviceable st \<and> within_reach P lead max_distance st \<and> s_store_id st \<notin> set historical"

definition same_city :: "clue_master_lead \<Rightarrow> dim_store \<Rightarrow> bool" where
  "same_city lead st \<longleftrightarrow> normalize_city_code (s_city_code st) = normalize_city_code (l_anchor_city_code lead)"

definition store_order ::
  "platform \<Rightarrow> clue_master_lead \<Rightarrow> (string \<Rightarrow> store_score_snapshot option) \<Rightarrow> dim_store \<Rightarrow> rat \<times> rat \<times> string" where
  "store_order P lead scores st =
     (- (case scores (s_store_id st) of None \<Rightarrow> 0 | Some sc \<Rightarrow> sc_composite_score sc),
      round6 (the (distance_from_anchor P lead st)), s_store_id st)"

definition strategy_config_ok :: "strategy_config list \<Rightarrow> bool" where
  "strategy_config_ok cs \<longleftrightarrow>
     mset (map k_strategy_type cs) = mset fixed_strategy_types
     \<and> sorted (map (\<lambda>c. (k_execution_order c, k_strategy_type c)) cs)"

definition engine_config :: "clue_allocation_strategy_config \<Rightarrow> strategy_config" where
  "engine_config c =
     \<lparr>k_strategy_type = cf_strategy_type c, k_enabled = py_truth (cf_enabled c),
      k_execution_order = order_of (cf_execution_order c), k_params = cf_params_json c\<rparr>"

definition city_record ::
  "platform \<Rightarrow> clue_master_lead \<Rightarrow> (string \<Rightarrow> store_score_snapshot option) \<Rightarrow> string list \<Rightarrow> pynum option \<Rightarrow> dim_store \<Rightarrow> candidate" where
  "city_record P lead scores historical m st =
     candidate_record P st lead (scores (s_store_id st)) True historical m True"

definition scoped_stores :: "clue_master_lead \<Rightarrow> dim_store list \<Rightarrow> dim_store list" where
  "scoped_stores lead stores = filter (same_city lead) stores"

text \<open>A configuration row as the rule snapshot stores it.\<close>

definition config_payload :: "clue_allocation_strategy_config \<Rightarrow> pyval" where
  "config_payload c =
     PDict [(''strategy_type'', PStr (cf_strategy_type c)), (''enabled'', cf_enabled c),
       (''execution_order'', cf_execution_order c), (''params'', PDict (cf_params_json c))]"

section \<open>Eligibility\<close>

lemma eligibility_reasons_Nil: "candidate_eligibility_reasons st = [] \<longleftrightarrow> serviceable st"
  by (simp add: candidate_eligibility_reasons_def serviceable_def)

lemma candidate_record_eligible:
  "cd_eligible (candidate_record P st lead score same historical m u)
     \<longleftrightarrow> suitable_store P lead historical m st \<and> (same \<longrightarrow> same_city lead st)"
  by (auto simp: candidate_record_def Let_def eligibility_reasons_Nil suitable_store_def within_reach_def same_city_def
      split: option.splits if_splits)

lemma candidate_record_fields [simp]:
  "cd_store_id (candidate_record P st lead score same historical m u) = Some (s_store_id st)"
  "cd_store_name (candidate_record P st lead score same historical m u) = Some (s_store_name st)"
  "cd_city_code (candidate_record P st lead score same historical m u) = normalize_city_code (s_city_code st)"
  "cd_rank (candidate_record P st lead score same historical m u) = None"
  "cd_score (candidate_record P st lead score same historical m u) = score"
  by (simp_all add: candidate_record_def Let_def)

lemma candidate_record_order:
  assumes "suitable_store P lead historical m st"
  shows "rank_order (candidate_record P st lead (scores (s_store_id st)) same historical m u) = store_order P lead scores st"
  using assms
  by (auto simp: rank_order_def store_order_def composite_score_def candidate_record_def Let_def
      suitable_store_def within_reach_def eligibility_reasons_Nil split: option.splits)

section \<open>Ranking\<close>

lemma takeWhile_index:
  assumes "c \<in> set xs"
  shows "length (takeWhile (\<lambda>x. x \<noteq> c) xs) < length xs \<and> xs ! length (takeWhile (\<lambda>x. x \<noteq> c) xs) = c"
  using assms by (induction xs) auto

lemma takeWhile_nth: "distinct xs \<Longrightarrow> i < length xs \<Longrightarrow> length (takeWhile (\<lambda>x. x \<noteq> xs ! i) xs) = i"
  by (metis nth_eq_iff_index_eq nth_mem takeWhile_index)

lemma set_ranked [simp]: "set (ranked_candidates cs) = {c \<in> set cs. cd_eligible c}"
  by (auto simp: ranked_candidates_def)

lemma distinct_ranked: "distinct cs \<Longrightarrow> distinct (ranked_candidates cs)"
  by (simp add: ranked_candidates_def)

text \<open>With a unique least element, being first in the ranking is being least.\<close>

lemma ranked_first:
  assumes "distinct cs" and "c \<in> set cs" and "cd_eligible c"
  shows "takeWhile (\<lambda>x. x \<noteq> c) (ranked_candidates cs) = [] \<longleftrightarrow> hd (ranked_candidates cs) = c"
proof -
  have "c \<in> set (ranked_candidates cs)" using assms by simp
  then show ?thesis by (cases "ranked_candidates cs") auto
qed

lemma with_rank_first:
  assumes "distinct cs" and "c \<in> set cs" and "cd_rank c = None"
  shows "cd_rank (with_rank (ranked_candidates cs) c) = Some 1 \<longleftrightarrow> cd_eligible c \<and> hd (ranked_candidates cs) = c"
  using ranked_first [OF assms(1,2)] assms(3) by (simp add: with_rank_def)

lemma find_map_unique:
  assumes "c \<in> set cs" and "Q (f c)" and "\<And>x. x \<in> set cs \<Longrightarrow> Q (f x) \<Longrightarrow> x = c"
  shows "find Q (map f cs) = Some (f c)"
  using assms
proof (induction cs)
  case (Cons a cs)
  show ?case
  proof (cases "Q (f a)")
    case True
    then have "a = c" using Cons.prems(3) by simp
    with True show ?thesis by simp
  next
    case False
    with Cons.prems(1,2) have "c \<in> set cs" by auto
    then have "find Q (map f cs) = Some (f c)"
      using Cons.prems(2,3) by (rule Cons.IH) (meson list.set_intros(2))
    with False show ?thesis by simp
  qed
qed simp

lemma selected_assign_ranks:
  assumes d: "distinct cs" and fresh: "\<And>c. c \<in> set cs \<Longrightarrow> cd_rank c = None"
  shows "selected_candidate (assign_ranks cs)
     = (case ranked_candidates cs of [] \<Rightarrow> None | c # _ \<Rightarrow> Some (c\<lparr>cd_rank := Some 1\<rparr>))"
proof (cases "ranked_candidates cs")
  case Nil
  then have "\<not> cd_eligible c" if "c \<in> set cs" for c using that set_ranked [of cs] by auto
  then have "find (\<lambda>c. cd_rank c = Some 1) (map (with_rank (ranked_candidates cs)) cs) = None"
    using with_rank_first [OF d _ fresh] by (simp add: find_None_iff)
  with Nil show ?thesis by (simp add: selected_candidate_def assign_ranks_def)
next
  case (Cons c rest)
  then have c: "c \<in> set cs" "cd_eligible c" using set_ranked [of cs] by auto
  have "find (\<lambda>c. cd_rank c = Some 1) (map (with_rank (ranked_candidates cs)) cs)
      = Some (with_rank (ranked_candidates cs) c)"
    using c Cons with_rank_first [OF d _ fresh] by (intro find_map_unique) auto
  moreover have "with_rank (ranked_candidates cs) c = c\<lparr>cd_rank := Some 1\<rparr>" using c Cons by (simp add: with_rank_def)
  ultimately show ?thesis using Cons by (simp add: selected_candidate_def assign_ranks_def)
qed

lemma with_rank_fields [simp]:
  "cd_eligible (with_rank r c) = cd_eligible c" "cd_store_id (with_rank r c) = cd_store_id c"
  "rank_order (with_rank r c) = rank_order c"
  by (simp_all add: with_rank_def rank_order_def composite_score_def)

lemma insort_key_map: "insort_key f (g x) (map g xs) = map g (insort_key (\<lambda>x. f (g x)) x xs)"
  by (induction xs) auto

lemma sort_key_map: "sort_key f (map g xs) = map g (sort_key (\<lambda>x. f (g x)) xs)"
  by (induction xs) (simp_all add: insort_key_map)

lemma ranked_assign_ranks:
  "ranked_candidates (assign_ranks cs) = map (with_rank (ranked_candidates cs)) (ranked_candidates cs)"
proof -
  have "filter cd_eligible (map (with_rank r) cs) = map (with_rank r) (filter cd_eligible cs)" for r
    by (induction cs) auto
  then show ?thesis by (simp add: ranked_candidates_def assign_ranks_def sort_key_map)
qed

lemma ranks_of_ranked:
  assumes "distinct cs"
  shows "map cd_rank (ranked_candidates (assign_ranks cs)) = map (\<lambda>i. Some (int i + 1)) [0..<length (ranked_candidates cs)]"
proof (rule nth_equalityI)
  show "length (map cd_rank (ranked_candidates (assign_ranks cs)))
      = length (map (\<lambda>i. Some (int i + 1)) [0..<length (ranked_candidates cs)])" by (simp add: ranked_assign_ranks)
next
  fix i assume "i < length (map cd_rank (ranked_candidates (assign_ranks cs)))"
  then have i: "i < length (ranked_candidates cs)" by (simp add: ranked_assign_ranks)
  then have "ranked_candidates cs ! i \<in> set (ranked_candidates cs)" by (rule nth_mem)
  then show "map cd_rank (ranked_candidates (assign_ranks cs)) ! i
      = map (\<lambda>i. Some (int i + 1)) [0..<length (ranked_candidates cs)] ! i"
    using i takeWhile_nth [OF distinct_ranked [OF assms] i] by (simp add: ranked_assign_ranks with_rank_def)
qed

section \<open>The city strategies\<close>

lemma city_candidates_alt:
  "fst (city_candidates P lead stores scores historical m)
     = assign_ranks (map (city_record P lead scores historical m) (scoped_stores lead stores))"
proof -
  have "(\<lambda>st. normalize_city_code (s_city_code st) = normalize_city_code (l_anchor_city_code lead)) = same_city lead"
    by (simp add: fun_eq_iff same_city_def)
  then show ?thesis by (simp add: city_candidates_def Let_def scoped_stores_def city_record_def [abs_def])
qed

lemma distinct_city_records:
  assumes "distinct (map s_store_id stores)"
  shows "distinct (map (city_record P lead scores historical m) (scoped_stores lead stores))"
proof -
  have "distinct (map s_store_id (scoped_stores lead stores))"
    using assms by (simp add: scoped_stores_def distinct_map_filter)
  then have "distinct (map (the \<circ> cd_store_id \<circ> city_record P lead scores historical m) (scoped_stores lead stores))"
    by (simp add: city_record_def o_def)
  then show ?thesis by (metis distinct_map list.map_comp)
qed

lemma city_record_eligible:
  "cd_eligible (city_record P lead scores historical m st) \<longleftrightarrow> suitable_store P lead historical m st \<and> same_city lead st"
  by (simp add: city_record_def candidate_record_eligible)

lemma city_record_order:
  "suitable_store P lead historical m st \<Longrightarrow>
     rank_order (city_record P lead scores historical m st) = store_order P lead scores st"
  by (simp add: city_record_def candidate_record_order)

lemma city_selected:
  assumes "distinct (map s_store_id stores)"
  shows "selected_candidate (fst (city_candidates P lead stores scores historical m))
     = (case sort_key (rank_order) (map (city_record P lead scores historical m)
                (filter (suitable_store P lead historical m) (scoped_stores lead stores))) of
          [] \<Rightarrow> None | c # _ \<Rightarrow> Some (c\<lparr>cd_rank := Some 1\<rparr>))"
proof -
  let ?r = "city_record P lead scores historical m" let ?cs = "map ?r (scoped_stores lead stores)"
  have "filter cd_eligible ?cs = map ?r (filter (suitable_store P lead historical m) (scoped_stores lead stores))"
    by (auto simp: filter_map scoped_stores_def city_record_eligible intro!: arg_cong [where f = "map ?r"] filter_cong)
  then have "ranked_candidates ?cs
      = sort_key rank_order (map ?r (filter (suitable_store P lead historical m) (scoped_stores lead stores)))"
    by (simp add: ranked_candidates_def)
  moreover have "cd_rank c = None" if "c \<in> set ?cs" for c using that by (auto simp: city_record_def)
  ultimately show ?thesis
    using selected_assign_ranks [OF distinct_city_records [OF assms], of P lead scores historical m]
    by (simp add: city_candidates_alt)
qed

lemma city_best:
  assumes d: "distinct (map s_store_id stores)"
    and c: "selected_candidate (fst (city_candidates P lead stores scores historical m)) = Some c"
  shows "\<exists>st \<in> set stores. c = (city_record P lead scores historical m st)\<lparr>cd_rank := Some 1\<rparr>
     \<and> same_city lead st \<and> suitable_store P lead historical m st
     \<and> (\<forall>st' \<in> set stores. same_city lead st' \<and> suitable_store P lead historical m st'
          \<longrightarrow> store_order P lead scores st \<le> store_order P lead scores st')"
proof -
  let ?r = "city_record P lead scores historical m"
  let ?xs = "filter (suitable_store P lead historical m) (scoped_stores lead stores)"
  obtain c0 where c0: "first_by rank_order (map ?r ?xs) = Some c0" "c = c0\<lparr>cd_rank := Some 1\<rparr>"
    using c by (auto simp: city_selected [OF d] first_by_def split: list.splits)
  from first_by_Some [OF c0(1)] obtain st where st: "st \<in> set ?xs" "c0 = ?r st"
    "\<And>st'. st' \<in> set ?xs \<Longrightarrow> rank_order (?r st) \<le> rank_order (?r st')" by auto
  have "store_order P lead scores st \<le> store_order P lead scores st'"
    if "st' \<in> set stores" "same_city lead st'" "suitable_store P lead historical m st'" for st'
    using st(3) [of st'] st(1) that by (simp add: scoped_stores_def city_record_order)
  with st c0 show ?thesis by (auto simp: scoped_stores_def)
qed

lemma city_none:
  assumes d: "distinct (map s_store_id stores)"
  shows "selected_candidate (fst (city_candidates P lead stores scores historical m)) = None
     \<longleftrightarrow> \<not> (\<exists>st \<in> set stores. same_city lead st \<and> suitable_store P lead historical m st)"
proof -
  let ?xs = "filter (suitable_store P lead historical m) (scoped_stores lead stores)"
  have "selected_candidate (fst (city_candidates P lead stores scores historical m)) = None
     \<longleftrightarrow> first_by rank_order (map (city_record P lead scores historical m) ?xs) = None"
    by (simp only: city_selected [OF d] first_by_def) (simp split: list.splits)
  also have "\<dots> \<longleftrightarrow> ?xs = []" by (simp only: first_by_None map_is_Nil_conv)
  finally show ?thesis by (auto simp: scoped_stores_def filter_empty_conv)
qed

text \<open>Whatever the strategy, the selected candidate is a store of the table that may take the lead.\<close>

lemma find_single: "find Q [x] = Some c \<longleftrightarrow> x = c \<and> Q c"
  by auto

lemma source_store_selected:
  assumes "selected_candidate (fst (source_store_candidates t lead stores historical)) = Some c"
  shows "\<exists>st \<in> set stores. cd_store_id c = Some (s_store_id st) \<and> l_anchor_store_id lead = Some (s_store_id st)
     \<and> s_is_active st \<and> s_participates_in_clue_allocation st \<and> s_store_id st \<notin> set historical"
  using assms
  by (auto simp: source_store_candidates_def selected_candidate_def Let_def unknown_store_candidate_def bind_eq_Some_conv
      dest: find_row_Some split: if_splits option.splits)

lemma sale_store_selected:
  assumes "selected_candidate (fst (sale_store_candidates P lead sale stores scores historical m)) = Some c"
  shows "\<exists>st \<in> set stores. cd_store_id c = Some (s_store_id st) \<and> se_store_id sale = Some (s_store_id st)
     \<and> suitable_store P lead historical m st"
proof -
  from assms obtain i st where i: "se_store_id sale = Some i" "find_row s_store_id i stores = Some st"
    by (auto simp: sale_store_candidates_def selected_candidate_def Let_def unknown_store_candidate_def bind_eq_Some_conv
        split: if_splits option.splits)
  let ?c = "candidate_record P st lead (scores (s_store_id st)) False historical m False"
  have "cd_eligible ?c \<and> c = ?c\<lparr>cd_rank := Some 1\<rparr>"
    using assms i by (auto simp: sale_store_candidates_def selected_candidate_def Let_def split: if_splits)
  then show ?thesis using find_row_Some [OF i(2)] i candidate_record_eligible [of P st lead] by auto
qed

lemma strategy_selected:
  assumes d: "distinct (map s_store_id stores)"
    and "selected_candidate (fst (strategy_candidates P t lead sale stores scores historical m src)) = Some c"
  shows "\<exists>st \<in> set stores. cd_store_id c = Some (s_store_id st) \<and> s_is_active st
     \<and> s_participates_in_clue_allocation st \<and> s_store_id st \<notin> set historical
     \<and> (if src \<and> t \<noteq> ''sales_store_priority'' then l_anchor_store_id lead = Some (s_store_id st)
        else suitable_store P lead historical m st
          \<and> (if t = ''sales_store_priority'' then se_store_id sale = Some (s_store_id st) else same_city lead st))"
proof -
  consider (source) "src \<and> t \<noteq> ''sales_store_priority''" | (sale) "t = ''sales_store_priority''"
    | (city) "\<not> src" "t \<noteq> ''sales_store_priority''" by blast
  then show ?thesis
  proof cases
    case source
    with assms(2) source_store_selected [of t lead stores historical c] show ?thesis
      by (auto simp: strategy_candidates_def)
  next
    case sale
    with assms(2) sale_store_selected [of P lead sale stores scores historical m c] show ?thesis
      by (auto simp: strategy_candidates_def suitable_store_def serviceable_def)
  next
    case city
    with assms(2) city_best [OF d, of P lead scores historical m c] show ?thesis
      by (auto simp: strategy_candidates_def suitable_store_def serviceable_def city_record_def)
  qed
qed

section \<open>Configurations read back\<close>

lemma sorted_key_unique:
  assumes "mset xs = mset ys" and "sorted (map f ys)" and "inj_on f (set ys)"
  shows "sort_key f xs = ys"
proof -
  have "mset (map f (sort_key f xs)) = mset (map f ys)" using assms(1) by simp
  then have "map f (sort_key f xs) = map f ys"
    using assms(2) by (metis sorted_list_of_multiset_mset sorted_sort_id sorted_sort_key)
  moreover have "set (sort_key f xs) = set ys" using assms(1) by (metis set_mset_mset set_sort)
  ultimately show ?thesis using assms(3) by (metis inj_on_map_eq_map sup.idem)
qed

lemma strategy_config_of_type [simp]: "k_strategy_type (strategy_config_of raws i t) = t"
  by (simp add: strategy_config_of_def Let_def)

lemma fixed_configs_types:
  "map k_strategy_type (map (\<lambda>(i, t). strategy_config_of raws i t) (zip [1, 2, 3] fixed_strategy_types)) = fixed_strategy_types"
  by (simp add: fixed_strategy_types_def)

lemma strategy_configs_ok: "strategy_config_ok (strategy_configs snapshot)"
proof -
  have "mset (map k_strategy_type (sort_key f xs)) = mset (map k_strategy_type xs)"
    for f :: "strategy_config \<Rightarrow> int \<times> string" and xs by simp
  then show ?thesis
    by (simp only: strategy_config_ok_def strategy_configs_def Let_def fixed_configs_types sorted_sort_key simp_thms)
qed

text \<open>Looking a strategy up among the snapshot's entries finds the configuration row of that type.\<close>

lemma snapshot_configs:
  "the_list (dget (rule_version_snapshot s v) ''strategy_configs'') = map config_payload (version_configs s (v_rule_version_id v))"
  by (simp add: rule_version_snapshot_def dget_def config_payload_def)

lemma config_payload_type: "config_type_is t (config_payload c) \<longleftrightarrow> cf_strategy_type c = t"
  by (simp add: config_type_is_def config_payload_def dget_def)

lemma find_config_payload:
  assumes "distinct (map cf_strategy_type cs)" and "c \<in> set cs"
  shows "find (config_type_is (cf_strategy_type c)) (rev (map config_payload cs)) = Some (config_payload c)"
proof -
  have "find (config_type_is (cf_strategy_type c)) (map config_payload (rev cs)) = Some (config_payload c)"
    using assms by (intro find_map_unique) (auto simp: config_payload_type distinct_map dest: inj_onD)
  then show ?thesis by (simp add: rev_map)
qed

lemma strategy_config_of_payload:
  assumes "distinct (map cf_strategy_type cs)" and "c \<in> set cs" and "config_ok c"
  shows "strategy_config_of (map config_payload cs) i (cf_strategy_type c) = engine_config c"
proof -
  obtain n where "cf_execution_order c = PInt n" using assms(3) by (auto simp: config_ok_def)
  then show ?thesis
    using find_config_payload [OF assms(1,2)]
    by (simp add: strategy_config_of_def Let_def config_payload_def engine_config_def dget_def order_of_def)
qed

lemma engine_configs_mset:
  assumes "publishable_configs cs"
  shows "mset (map (\<lambda>(i, t). strategy_config_of (map config_payload cs) i t) (zip [1, 2, 3] fixed_strategy_types))
     = mset (map engine_config cs)"
proof -
  have fx: "fixed_strategy_types = strategy_types" "distinct fixed_strategy_types"
    by (simp_all add: fixed_strategy_types_def strategy_types_def)
  have types: "mset (map cf_strategy_type cs) = mset fixed_strategy_types"
    using assms by (simp add: publishable_configs_def fx)
  then have d: "distinct (map cf_strategy_type cs)" using fx by (metis mset_eq_imp_distinct_iff)
  define g where "g t = engine_config (the (find_row cf_strategy_type t cs))" for t
  have g: "g (cf_strategy_type c) = engine_config c" if "c \<in> set cs" for c
    using find_row_distinct [OF d that] by (simp add: g_def)
  have "strategy_config_of (map config_payload cs) i t = g t" if "t \<in> set fixed_strategy_types" for i t
  proof -
    from that types obtain c where "c \<in> set cs" "t = cf_strategy_type c"
      by (metis imageE list.set_map set_mset_mset)
    with strategy_config_of_payload [OF d] g assms show ?thesis
      by (auto simp: publishable_configs_def list_all_iff)
  qed
  then have "map (\<lambda>(i, t). strategy_config_of (map config_payload cs) i t) (zip [1, 2, 3] fixed_strategy_types)
      = map g fixed_strategy_types"
    by (simp add: fixed_strategy_types_def)
  also have "mset (map g fixed_strategy_types) = image_mset g (mset (map cf_strategy_type cs))"
    using types by simp
  also have "\<dots> = mset (map engine_config cs)"
    using g by (auto simp: multiset.map_comp intro!: image_mset_cong)
  finally show ?thesis .
qed

lemma sorted_by_first:
  assumes "sorted (map (\<lambda>c. (a c, b c)) xs)" and "distinct (map a xs)"
  shows "sorted (map (\<lambda>c. (a c, b' c)) xs)"
  using assms by (induction xs) (force simp: less_eq_prod_def)+

lemma publishable_orders:
  assumes "publishable_configs cs"
  shows "distinct (map (\<lambda>c. order_of (cf_execution_order c)) cs)"
proof -
  have d: "distinct (map cf_execution_order cs)" and i: "\<And>c. c \<in> set cs \<Longrightarrow> \<exists>i. cf_execution_order c = PInt i"
    using assms by (auto simp: publishable_configs_def list_all_iff config_ok_def)
  have "c = c'" if c: "c \<in> set cs" "c' \<in> set cs" "order_of (cf_execution_order c) = order_of (cf_execution_order c')" for c c'
  proof -
    have "cf_execution_order c = cf_execution_order c'" using i [OF c(1)] i [OF c(2)] c(3) by (auto simp: order_of_def)
    then show ?thesis using d c(1,2) by (metis distinct_map inj_onD)
  qed
  then show ?thesis using d by (auto simp: distinct_map intro!: inj_onI)
qed

lemma example_version_configs: "version_configs example_rules_db (v_rule_version_id example_draft) = example_configs"
proof -
  have "sorted (map (\<lambda>c. (order_of (cf_execution_order c), cf_strategy_config_id c)) example_configs)"
    by (simp add: example_configs_def order_of_def)
  moreover have "filter (\<lambda>c. cf_rule_version_id c = ''V1'') example_configs = example_configs"
    by (simp add: example_configs_def)
  ultimately show ?thesis
    by (simp add: version_configs_def example_rules_db_def example_draft_db_def example_draft_def sort_key_id_if_sorted)
qed

lemma example_store_suitable:
  "same_city example_lead example_store" "suitable_store example_platform example_lead [] None example_store"
proof -
  have "normalize_city_code (Some ''Hangzhou'') = Some ''Hangzhou''" "clean (Some ''Zhejiang'') = Some ''Zhejiang''"
    "clean (Some ''Hangzhou'') = Some ''Hangzhou''" by code_simp+
  then show "same_city example_lead example_store" "suitable_store example_platform example_lead [] None example_store"
    by (simp_all add: same_city_def suitable_store_def serviceable_def within_reach_def distance_from_anchor_def
        valid_coordinates_def example_lead_def example_store_def truthy_def)
qed

section \<open>Properties\<close>

text \<open>
  C23. The engine reads back exactly what a rule version stores: for a version whose configurations
  pass publication, the strategies parsed from the snapshot a lead is bound to are the version's
  configuration rows, with their switches, parameters and in their execution order.
\<close>

theorem strategy_snapshot_roundtrip:
  assumes "publishable_configs (version_configs s (v_rule_version_id v))"
  shows "strategy_configs (rule_version_snapshot s v) = map engine_config (version_configs s (v_rule_version_id v))"
proof -
  let ?cs = "version_configs s (v_rule_version_id v)" let ?f = "\<lambda>c. (k_execution_order c, k_strategy_type c)"
  have d: "distinct (map (\<lambda>c. order_of (cf_execution_order c)) ?cs)" by (rule publishable_orders [OF assms])
  have "sorted (map (\<lambda>c. (order_of (cf_execution_order c), cf_strategy_config_id c)) ?cs)"
    unfolding version_configs_def by (rule sorted_sort_key)
  from sorted_by_first [OF this d] have sorted: "sorted (map ?f (map engine_config ?cs))"
    by (simp add: o_def engine_config_def)
  have "inj_on ?f (set (map engine_config ?cs))"
    using d by (auto simp: inj_on_def engine_config_def distinct_map)
  with engine_configs_mset [OF assms] sorted show ?thesis
    unfolding strategy_configs_def Let_def snapshot_configs by (intro sorted_key_unique)
qed

theorem strategy_snapshot_roundtrip_witness:
  "strategy_configs (rule_version_snapshot example_rules_db example_draft) = map engine_config example_configs"
proof -
  have "validate_for_publish example_draft_db example_rule example_draft = Inr ()" by code_simp
  then have "publishable_configs (version_configs example_draft_db (v_rule_version_id example_draft))"
    by (simp only: validate_for_publish_Inr)
  then have "publishable_configs (version_configs example_rules_db (v_rule_version_id example_draft))"
    by (simp add: version_configs_def example_rules_db_def)
  from strategy_snapshot_roundtrip [OF this]
  show ?thesis by (simp only: example_version_configs)
qed

text \<open>
  C22. The city strategies pick the best store: among the stores of the lead's city that are active,
  take Douyin clues, have a valid location, lie within the strategy's distance and never had the
  lead, the selected one has the highest composite score, then the shortest distance, then the
  smallest id. They select nothing, with the reason \<open>no_candidate\<close>, only when no such store exists.
\<close>

theorem city_choice_is_best:
  assumes "distinct (map s_store_id stores)" and "t \<noteq> ''sales_store_priority''"
    and "strategy_candidates P t lead sale stores scores historical m False = (cs, reason, summary)"
  shows "case selected_candidate cs of
       None \<Rightarrow> reason = Some ''no_candidate'' \<and> \<not> (\<exists>st \<in> set stores. same_city lead st \<and> suitable_store P lead historical m st)
     | Some c \<Rightarrow> reason = None \<and> (\<exists>st \<in> set stores. cd_store_id c = Some (s_store_id st)
          \<and> same_city lead st \<and> suitable_store P lead historical m st
          \<and> (\<forall>st' \<in> set stores. same_city lead st' \<and> suitable_store P lead historical m st'
               \<longrightarrow> store_order P lead scores st \<le> store_order P lead scores st'))"
proof -
  have r: "city_candidates P lead stores scores historical m = (cs, reason, summary)"
    using assms by (simp add: strategy_candidates_def)
  have cs: "fst (city_candidates P lead stores scores historical m) = cs" by (simp add: r)
  have reason: "reason = (if \<exists>st \<in> set stores. same_city lead st \<and> suitable_store P lead historical m st
      then None else Some ''no_candidate'')"
  proof -
    have "filter cd_eligible cs = [] \<longleftrightarrow> \<not> (\<exists>st \<in> set stores. same_city lead st \<and> suitable_store P lead historical m st)"
      unfolding cs [symmetric] city_candidates_alt
      by (auto simp: assign_ranks_def filter_empty_conv city_record_eligible scoped_stores_def)
    then show ?thesis using r by (auto simp: city_candidates_def Let_def)
  qed
  show ?thesis
  proof (cases "selected_candidate cs")
    case None
    with city_none [OF assms(1), of P lead scores historical m] cs reason show ?thesis by simp
  next
    case (Some c)
    with city_best [OF assms(1), of P lead scores historical m c] cs reason show ?thesis
      by (auto simp: city_record_def)
  qed
qed

theorem city_choice_is_best_witness:
  "\<exists>c. selected_candidate (fst (strategy_candidates example_platform ''city_fallback'' example_lead
        missing_sale_store_evidence [example_store] (\<lambda>_. None) [] None False)) = Some c \<and> cd_store_id c = Some ''S1''"
proof -
  obtain cs reason summary where r: "strategy_candidates example_platform ''city_fallback'' example_lead
      missing_sale_store_evidence [example_store] (\<lambda>_. None) [] None False = (cs, reason, summary)"
    by (metis prod_cases3)
  have "distinct (map s_store_id [example_store])" "''city_fallback'' \<noteq> ''sales_store_priority''" by simp_all
  note best = city_choice_is_best [OF this r]
  show ?thesis
  proof (cases "selected_candidate cs")
    case None
    with best example_store_suitable show ?thesis by simp
  next
    case (Some c)
    with best have "cd_store_id c = Some (s_store_id example_store)" by simp
    moreover have "s_store_id example_store = ''S1''" by (simp add: example_store_def)
    ultimately show ?thesis using Some by (simp add: r)
  qed
qed

text \<open>
  Ranks are the ranking: reading the eligible candidates of a city strategy in the order of their
  score, distance and id, their ranks are 1, 2, 3 and so on, and no ineligible candidate has a rank.
\<close>

theorem candidate_ranks_follow_order:
  assumes "distinct (map s_store_id stores)"
    and "city_candidates P lead stores scores historical m = (cs, reason, summary)"
  shows "map cd_rank (ranked_candidates cs) = map (\<lambda>i. Some (int i + 1)) [0..<length (filter cd_eligible cs)]
     \<and> (\<forall>c \<in> set cs. \<not> cd_eligible c \<longrightarrow> cd_rank c = None)"
proof -
  let ?cs = "map (city_record P lead scores historical m) (scoped_stores lead stores)"
  have cs: "cs = assign_ranks ?cs" by (metis assms(2) city_candidates_alt fst_conv)
  have "length (ranked_candidates ?cs) = length (ranked_candidates cs)" by (simp only: cs ranked_assign_ranks length_map)
  then have "length (ranked_candidates ?cs) = length (filter cd_eligible cs)" by (simp only: ranked_candidates_def length_sort)
  moreover have "cd_rank c = None" if "c \<in> set cs" "\<not> cd_eligible c" for c
  proof -
    from that(1) obtain st where "c = with_rank (ranked_candidates ?cs) (city_record P lead scores historical m st)"
      by (auto simp: cs assign_ranks_def)
    with that(2) show ?thesis by (simp add: with_rank_def city_record_def split: if_splits)
  qed
  moreover have "map cd_rank (ranked_candidates cs) = map (\<lambda>i. Some (int i + 1)) [0..<length (ranked_candidates ?cs)]"
    unfolding cs by (rule ranks_of_ranked [OF distinct_city_records [OF assms(1)]])
  ultimately show ?thesis by simp
qed

theorem candidate_ranks_follow_order_witness:
  "let cs = fst (city_candidates example_platform example_lead
        [example_store, example_store\<lparr>s_store_id := ''S0''\<rparr>] (\<lambda>_. None) [] None)
   in map cd_rank (ranked_candidates cs) = map (\<lambda>i. Some (int i + 1)) [0..<length (filter cd_eligible cs)]
     \<and> filter cd_eligible cs \<noteq> []"
proof -
  let ?stores = "[example_store, example_store\<lparr>s_store_id := ''S0''\<rparr>]"
  obtain cs reason summary where r: "city_candidates example_platform example_lead ?stores (\<lambda>_. None) [] None
      = (cs, reason, summary)" by (metis prod_cases3)
  have "distinct (map s_store_id ?stores)" by (simp add: example_store_def)
  note ranks = candidate_ranks_follow_order [OF this r]
  have "cs = assign_ranks (map (city_record example_platform example_lead (\<lambda>_. None) [] None)
      (scoped_stores example_lead ?stores))"
    by (metis city_candidates_alt fst_conv r)
  then have "with_rank (ranked_candidates (map (city_record example_platform example_lead (\<lambda>_. None) [] None)
      (scoped_stores example_lead ?stores))) (city_record example_platform example_lead (\<lambda>_. None) [] None example_store)
      \<in> set (filter cd_eligible cs)"
    using example_store_suitable by (simp add: assign_ranks_def scoped_stores_def city_record_eligible)
  then have "filter cd_eligible cs \<noteq> []" by (metis empty_iff list.set(1))
  with ranks show ?thesis by (simp add: r Let_def)
qed

end
