(* ===== verification/AllocationEngine.thy ===== *)
theory AllocationEngine
  imports AllocationCandidates TerminalClosure
begin

text \<open>
  Allocating a lead, second half of \<open>apps/worker/clue_allocation_engine.py\<close>: decisions with their
  attempt keys, assignment rounds, the projections on the lead, the headquarters pool and the order
  centre, and \<open>allocate_lead\<close> itself. Statements run in one transaction: an error ends it, so an
  error result carries no state. Stores and scores do not change during a batch, so the cached
  lists of \<open>allocate_leads\<close> are read from the tables.
\<close>

section \<open>Requests and results\<close>

record allocation_result =
  a_lead_key :: string
  a_status :: string
  a_reason :: "string option"
  a_selected_store_id :: "string option"
  a_assignment_round_id :: "string option"
  a_decision_ids :: "string list"

text \<open>The normalised arguments of one call.\<close>

record allocation_request =
  q_execution_mode :: string
  q_allocation_cycle_id :: "string option"
  q_actor :: string
  q_executed_at :: instant
  q_transition_key :: "string option"
  q_auto_expiry_override :: "bool option"

definition engine_text :: "string option \<Rightarrow> string \<Rightarrow> string result" where
  "engine_text v name = (case clean v of None \<Rightarrow> Inl (ValueError (name @ '' is required'')) | Some t \<Rightarrow> Inr t)"

section \<open>Keys\<close>

definition attempt_key ::
  "platform \<Rightarrow> string \<Rightarrow> string \<Rightarrow> string option \<Rightarrow> string \<Rightarrow> int option \<Rightarrow> string option \<Rightarrow> string" where
  "attempt_key P lead_key mode cycle t order transition =
     ''clue-allocation:'' @ hex_digest P (py_join ''|''
       [lead_key, mode, or_else cycle [], t, (case order of None \<Rightarrow> [] | Some i \<Rightarrow> py_str_int i), or_else transition []])"

definition assignment_round_id :: "platform \<Rightarrow> string \<Rightarrow> string \<Rightarrow> string option \<Rightarrow> int \<Rightarrow> string" where
  "assignment_round_id P lead_key mode cycle round_no =
     ''allocation-round-'' @ take 24 (hex_digest P (py_join ''|'' [lead_key, mode, or_else cycle [], py_str_int round_no]))"

definition next_round_no :: "db \<Rightarrow> string \<Rightarrow> string \<Rightarrow> int" where
  "next_round_no s lead_key mode =
     (case max_or_none (map r_round_no (filter (\<lambda>r. r_lead_key r = Some lead_key \<and> r_execution_mode r = mode) (t_rounds s))) of
        None \<Rightarrow> 1 | Some n \<Rightarrow> n + 1)"

section \<open>Snapshots\<close>

definition of_rat_opt :: "rat option \<Rightarrow> pyval" where
  "of_rat_opt v = (case v of None \<Rightarrow> PNone | Some q \<Rightarrow> PFloat (Fin q))"

definition score_snapshot_payload :: "platform \<Rightarrow> store_score_snapshot option \<Rightarrow> bool \<Rightarrow> pyval" where
  "score_snapshot_payload P snapshot used_for_ranking =
     (case snapshot of
        None \<Rightarrow>
          PDict [(''used_for_ranking'', PBool used_for_ranking), (''snapshot_id'', PNone), (''snapshot_run_id'', PNone),
            (''rule_version_id'', PNone), (''snapshot_date'', PNone), (''computed_at'', PNone),
            (''composite_score'', PFloat (Fin 0)), (''conversion_rate'', PFloat (Fin 0)),
            (''conversion_value_source'', PStr ''score_snapshot_missing''), (''follow_24h_rate'', PFloat (Fin 0)),
            (''follow_24h_value_source'', PStr ''score_snapshot_missing''), (''store_weight'', PFloat (Fin 1))]
      | Some sc \<Rightarrow>
          PDict [(''used_for_ranking'', PBool used_for_ranking), (''snapshot_id'', PStr (sc_snapshot_id sc)),
            (''snapshot_run_id'', PStr (sc_snapshot_run_id sc)),
            (''rule_version_id'', of_text (score_snapshot_rule_version_id sc)),
            (''snapshot_date'', PStr (sc_snapshot_date sc)), (''computed_at'', PStr (iso_format P (sc_computed_at sc))),
            (''composite_score'', PFloat (Fin (sc_composite_score sc))), (''conversion_rate'', PFloat (Fin (sc_conversion_rate sc))),
            (''conversion_value_source'', PStr (sc_conversion_value_source sc)),
            (''follow_24h_rate'', PFloat (Fin (sc_follow_24h_rate sc))),
            (''follow_24h_value_source'', PStr (sc_follow_24h_value_source sc)),
            (''store_weight'', PFloat (Fin (sc_store_weight sc)))])"

definition candidate_payload :: "platform \<Rightarrow> candidate \<Rightarrow> pyval" where
  "candidate_payload P c =
     PDict [(''store_id'', of_text (cd_store_id c)), (''store_name'', of_text (cd_store_name c)),
       (''city_code'', of_text (cd_city_code c)), (''eligible'', PBool (cd_eligible c)),
       (''exclusion_reasons'', PList (map PStr (cd_exclusion_reasons c))),
       (''distance_km'', of_rat_opt (cd_distance_km c)),
       (''score'', score_snapshot_payload P (cd_score c) (cd_used_for_ranking c)),
       (''rank'', of_int_opt (cd_rank c))]"

definition summary_payload :: "candidate_summary option \<Rightarrow> pydict" where
  "summary_payload v =
     (case v of
        None \<Rightarrow> []
      | Some m \<Rightarrow>
          [(''store_universe_count'', PInt (cs_store_universe_count m)),
           (''in_scope_store_count'', PInt (cs_in_scope_store_count m)),
           (''omitted_out_of_city_count'', PInt (cs_omitted_out_of_city_count m)),
           (''evaluated_count'', PInt (cs_evaluated_count m)), (''eligible_count'', PInt (cs_eligible_count m))])"

definition sale_store_payload :: "sale_store_evidence \<Rightarrow> pydict" where
  "sale_store_payload e =
     [(''status'', PStr (se_status e)), (''store_id'', of_text (se_store_id e)),
      (''store_ids'', PList (map PStr (se_store_ids e))), (''source'', PStr ''settlement_order_details'')]"

definition rule_snapshot_payload :: "clue_lead_rule_version_binding option \<Rightarrow> pyval" where
  "rule_snapshot_payload binding =
     (case binding of
        None \<Rightarrow> PNone
      | Some b \<Rightarrow>
          (let snapshot = b_rule_version_snapshot b; scope = b_scope_resolution_snapshot b
           in PDict [(''rule_id'', dget scope ''rule_id''), (''rule_version_id'', PStr (b_rule_version_id b)),
                (''version_no'', dget snapshot ''version_no''), (''scope'', PDict scope),
                (''timing'', PDict (map (\<lambda>k. (k, dget snapshot k))
                  [''auto_expiry_enabled'', ''first_follow_up_sla_hours'', ''protection_days'', ''lookback_days'',
                   ''min_samples'', ''conversion_weight'', ''follow_24h_weight'']))]))"

record strategy_view =
  w_strategy_type :: string
  w_enabled :: bool
  w_execution_order :: "int option"
  w_params :: pydict
  w_max_distance_km :: "pynum option"

definition base_snapshot ::
  "platform \<Rightarrow> clue_master_lead \<Rightarrow> clue_lead_rule_version_binding option \<Rightarrow> sale_store_evidence \<Rightarrow> strategy_view
   \<Rightarrow> string list \<Rightarrow> candidate list \<Rightarrow> string option \<Rightarrow> candidate_summary option \<Rightarrow> pydict" where
  "base_snapshot P lead binding sale w historical cs selected_store_id summary =
     [(''anchor'', PDict
         [(''poi_id'', of_text (l_anchor_poi_id lead)), (''store_id'', of_text (l_anchor_store_id lead)),
          (''province'', of_text (l_anchor_province lead)), (''city'', of_text (l_anchor_city lead)),
          (''city_code'', of_text (l_anchor_city_code lead)), (''longitude'', of_rat_opt (l_anchor_longitude lead)),
          (''latitude'', of_rat_opt (l_anchor_latitude lead)),
          (''unavailable_reason'', of_text (l_anchor_unavailable_reason lead))]),
      (''sale_store'', PDict (sale_store_payload sale)),
      (''rule_version'', rule_snapshot_payload binding),
      (''strategy'', PDict
         [(''strategy_type'', PStr (w_strategy_type w)), (''enabled'', PBool (w_enabled w)),
          (''execution_order'', of_int_opt (w_execution_order w)), (''params'', PDict (w_params w)),
          (''max_distance_km'', (case w_max_distance_km w of None \<Rightarrow> PNone | Some x \<Rightarrow> PFloat x))]),
      (''historical_self_owned_store_ids'', PList (map PStr historical)),
      (''candidate_summary'', PDict (summary_payload summary)),
      (''candidates'', PList (map (candidate_payload P) cs)),
      (''selected_store_id'', of_text selected_store_id)]"

section \<open>Decisions\<close>

record decision_outcome =
  x_strategy_type :: string
  x_execution_order :: "int option"
  x_status :: string
  x_reason :: "string option"
  x_snapshot :: pydict
  x_selected_store_id :: "string option"
  x_selected_store_name :: "string option"
  x_assignment_round_id :: "string option"
  x_round_no :: "int option"

definition find_decision :: "db \<Rightarrow> string \<Rightarrow> clue_allocation_decision option" where
  "find_decision s key = find_row d_attempt_key key (t_decisions s)"

definition new_decision ::
  "platform \<Rightarrow> clue_master_lead \<Rightarrow> clue_lead_rule_version_binding option \<Rightarrow> allocation_request \<Rightarrow> decision_outcome
   \<Rightarrow> clue_allocation_decision" where
  "new_decision P lead binding q x =
     (let key = attempt_key P (l_lead_key lead) (q_execution_mode q) (q_allocation_cycle_id q) (x_strategy_type x)
                  (x_execution_order x) (q_transition_key q)
      in \<lparr>d_decision_id = ''allocation-decision-'' @ take 24 (hex_digest P key), d_attempt_key = key,
          d_lead_key = l_lead_key lead, d_order_id = l_order_id lead,
          d_rule_id = (case binding of None \<Rightarrow> PNone | Some b \<Rightarrow> dget (b_scope_resolution_snapshot b) ''rule_id''),
          d_rule_version_id = map_option b_rule_version_id binding,
          d_scope_type = map_option b_scope_type binding, d_scope_key = map_option b_scope_key binding,
          d_strategy_type = x_strategy_type x, d_execution_order = x_execution_order x,
          d_allocation_cycle_id = q_allocation_cycle_id q, d_execution_mode = q_execution_mode q,
          d_assignment_round_id = x_assignment_round_id x, d_round_no = x_round_no x,
          d_selected_store_id = x_selected_store_id x, d_selected_store_name = x_selected_store_name x,
          d_decision_status = x_status x, d_reason = x_reason x, d_decision_snapshot = x_snapshot x,
          d_actor = Some (q_actor q), d_executed_at = q_executed_at q\<rparr>)"

text \<open>
  One decision per attempt key: an attempt made before returns the stored decision. Storing a new
  one fails when its identifier, a digest of the attempt key, is already taken.
\<close>

definition record_decision ::
  "platform \<Rightarrow> db \<Rightarrow> clue_master_lead \<Rightarrow> clue_lead_rule_version_binding option \<Rightarrow> allocation_request \<Rightarrow> decision_outcome
   \<Rightarrow> (clue_allocation_decision \<times> db) result" where
  "record_decision P s lead binding q x =
     (let d = new_decision P lead binding q x
      in case find_decision s (d_attempt_key d) of
           Some existing \<Rightarrow> Inr (existing, s)
         | None \<Rightarrow>
             (if d_decision_id d \<in> d_decision_id ` set (t_decisions s)
              then Inl (IntegrityError ''clue_allocation_decisions'')
              else Inr (d, s\<lparr>t_decisions := add_row d (t_decisions s)\<rparr>)))"

definition completed_headquarters_decision :: "platform \<Rightarrow> db \<Rightarrow> string \<Rightarrow> allocation_request \<Rightarrow> clue_allocation_decision option" where
  "completed_headquarters_decision P s lead_key q =
     find_decision s (attempt_key P lead_key (q_execution_mode q) (q_allocation_cycle_id q) ''allocation_finalization'' None
       (q_transition_key q))"

section \<open>Rounds\<close>

definition auto_expiry :: "pydict \<Rightarrow> allocation_request \<Rightarrow> bool" where
  "auto_expiry rule_snapshot q =
     (case q_auto_expiry_override q of
        Some b \<Rightarrow> b
      | None \<Rightarrow> py_truth (dget_default rule_snapshot ''auto_expiry_enabled'' (PBool True)))"

definition selected_round ::
  "clue_master_lead \<Rightarrow> clue_lead_rule_version_binding \<Rightarrow> clue_allocation_decision \<Rightarrow> candidate \<Rightarrow> allocation_request
   \<Rightarrow> int \<Rightarrow> int \<Rightarrow> clue_assignment_round" where
  "selected_round lead b d c q sla_hours protection =
     (let t = q_executed_at q
      in \<lparr>r_assignment_round_id = the (d_assignment_round_id d), r_order_id = or_else (l_order_id lead) [],
          r_lead_key = Some (l_lead_key lead), r_rule_version_id = Some (b_rule_version_id b),
          r_strategy_type = Some (d_strategy_type d), r_allocation_decision_id = Some (d_decision_id d),
          r_allocation_cycle_id = d_allocation_cycle_id d, r_round_no = the (d_round_no d), r_assigned_at = Some t,
          r_assigned_at_source = ''clue_allocation_engine'', r_assigned_store_id = cd_store_id c,
          r_assigned_store_name = cd_store_name c, r_followed_at = None, r_follow_result = ''pending'',
          r_is_followed = False, r_is_follow_success = False, r_round_status = ''active_unfollowed'',
          r_execution_mode = d_execution_mode d, r_matured_at = None, r_terminal_reason = None,
          r_expires_at = Some (t + hours sla_hours), r_first_sla_expires_at = Some (t + hours sla_hours),
          r_protection_started_at = None, r_protection_expires_at = None,
          r_auto_expiry_enabled = Some (auto_expiry (b_rule_version_snapshot b) q),
          r_first_follow_up_sla_hours = Some sla_hours, r_protection_days = Some protection, r_reassign_reason = None,
          r_reassigned_at = None, r_verified_store_id = None, r_verified_at = None, r_created_at = t, r_updated_at = t\<rparr>)"

text \<open>The unique constraint on rounds: one number per lead and execution mode.\<close>

definition round_number_taken :: "db \<Rightarrow> clue_assignment_round \<Rightarrow> bool" where
  "round_number_taken s r =
     list_ex (\<lambda>r'. r_lead_key r' = r_lead_key r \<and> r_execution_mode r' = r_execution_mode r \<and> r_round_no r' = r_round_no r)
       (t_rounds s)"

definition ensure_selected_round ::
  "db \<Rightarrow> clue_master_lead \<Rightarrow> clue_lead_rule_version_binding \<Rightarrow> clue_allocation_decision \<Rightarrow> candidate \<Rightarrow> allocation_request
   \<Rightarrow> (clue_assignment_round \<times> db) result" where
  "ensure_selected_round s lead b d c q =
     (if \<not> truthy (d_assignment_round_id d) \<or> d_round_no d = None
      then Inl (RuntimeErr ''selected allocation decision must contain its round identity'')
      else case lock_clue_assignment_round_for_update s (d_assignment_round_id d) of
        Some existing \<Rightarrow> Inr (existing, s)
      | None \<Rightarrow>
          bind_result (positive_int (dget (b_rule_version_snapshot b) ''first_follow_up_sla_hours'') 24) (\<lambda>sla_hours.
          bind_result (positive_int (dget (b_rule_version_snapshot b) ''protection_days'') 7) (\<lambda>protection.
            let r = selected_round lead b d c q sla_hours protection
            in if get_round s (r_assignment_round_id r) \<noteq> None \<or> round_number_taken s r
               then Inl (IntegrityError ''clue_assignment_rounds'')
               else Inr (r, s\<lparr>t_rounds := add_row r (t_rounds s)\<rparr>))))"

definition current_self_owned_round :: "db \<Rightarrow> clue_master_lead \<Rightarrow> clue_assignment_round option" where
  "current_self_owned_round s lead =
     (if \<not> truthy (l_current_assignment_round_id lead) then None
      else case lock_clue_assignment_round_for_update s (l_current_assignment_round_id lead) of
             None \<Rightarrow> None
           | Some r \<Rightarrow> (if r_execution_mode r \<in> set self_owned_execution_modes then Some r else None))"

section \<open>Projections\<close>

definition assigned_center ::
  "clue_master_lead \<Rightarrow> clue_assignment_round \<Rightarrow> candidate \<Rightarrow> instant \<Rightarrow> instant \<Rightarrow> clue_center_order" where
  "assigned_center lead r c created t =
     \<lparr>c_order_id = r_order_id r, c_lead_status = ''active'',
      c_current_assignment_round_id = Some (r_assignment_round_id r), c_current_round_no = r_round_no r,
      c_current_round_status = r_round_status r, c_assigned_at = r_assigned_at r,
      c_assigned_at_source = r_assigned_at_source r, c_assigned_store_id = r_assigned_store_id r,
      c_assigned_store_name = r_assigned_store_name r, c_assigned_city = clean (cd_city_code c),
      c_assigned_province = clean (l_anchor_province lead), c_follow_result = r_follow_result r,
      c_is_followed = r_is_followed r, c_is_follow_success = r_is_follow_success r, c_verified_store_id = None,
      c_verified_store_name = None, c_verified_at = None, c_is_self_store_verified = False, c_expires_at = None,
      c_reassign_reason = None, c_created_at = created, c_updated_at = t\<rparr>"

text \<open>Whether the centre shows a self-owned round of another lead of the same order.\<close>

definition center_of_other_lead :: "db \<Rightarrow> clue_master_lead \<Rightarrow> clue_center_order \<Rightarrow> bool" where
  "center_of_other_lead s lead c =
     (case (if truthy (c_current_assignment_round_id c) then get_round s (the (c_current_assignment_round_id c)) else None) of
        None \<Rightarrow> False
      | Some r \<Rightarrow> r_execution_mode r \<in> set self_owned_execution_modes \<and> r_lead_key r \<noteq> Some (l_lead_key lead))"

definition project_center_assignment ::
  "db \<Rightarrow> clue_master_lead \<Rightarrow> clue_assignment_round \<Rightarrow> candidate \<Rightarrow> instant \<Rightarrow> db result" where
  "project_center_assignment s lead r c t =
     (case lock_clue_center_order_for_update s (Some (r_order_id r)) of
        Some center \<Rightarrow>
          Inr (if center_of_other_lead s lead center then s
               else put_center (assigned_center lead r c (c_created_at center) t) s)
      | None \<Rightarrow>
          (if get_center s (r_order_id r) \<noteq> None then Inl (IntegrityError ''clue_center_orders'')
           else Inr (s\<lparr>t_centers := add_row (assigned_center lead r c t t) (t_centers s)\<rparr>)))"

definition store_pool_lead :: "clue_master_lead \<Rightarrow> string \<Rightarrow> string option \<Rightarrow> instant \<Rightarrow> clue_master_lead" where
  "store_pool_lead lead round_id cycle t =
     lead\<lparr>l_pool_location := Some ''store_follow_up_pool'', l_allocation_state := ''assigned'',
          l_current_assignment_round_id := Some round_id, l_allocation_cycle_id := cycle,
          l_ended_without_assignment := False, l_updated_at := t\<rparr>"

definition project_self_owned_assignment ::
  "db \<Rightarrow> clue_master_lead \<Rightarrow> clue_assignment_round \<Rightarrow> candidate \<Rightarrow> string option \<Rightarrow> instant \<Rightarrow> db result" where
  "project_self_owned_assignment s lead r c cycle t =
     (let s1 = snd (close_current_headquarters_pool_entry s (l_lead_key lead) t ''allocated_to_store'' ''closed'');
          lead' = store_pool_lead lead (r_assignment_round_id r) cycle t
      in project_center_assignment (put_lead lead' s1) lead' r c t)"

definition headquarters_center :: "clue_center_order \<Rightarrow> instant \<Rightarrow> clue_center_order" where
  "headquarters_center c t =
     c\<lparr>c_current_assignment_round_id := None, c_current_round_no := 0, c_current_round_status := ''headquarters'',
       c_assigned_at := None, c_assigned_store_id := None, c_assigned_store_name := None, c_assigned_city := None,
       c_assigned_province := None, c_expires_at := None, c_reassign_reason := Some ''headquarters_pool'',
       c_updated_at := t\<rparr>"

text \<open>The order centre gives up its round only when that round is this lead's own.\<close>

definition project_center_headquarters :: "db \<Rightarrow> clue_master_lead \<Rightarrow> instant \<Rightarrow> db" where
  "project_center_headquarters s lead t =
     (if \<not> truthy (l_order_id lead) then s
      else case get_center s (the (l_order_id lead)) of
        None \<Rightarrow> s
      | Some pointer \<Rightarrow>
          (case (if truthy (c_current_assignment_round_id pointer)
                 then lock_clue_assignment_round_for_update s (c_current_assignment_round_id pointer) else None) of
             None \<Rightarrow> s
           | Some r \<Rightarrow>
               (if r_lead_key r \<noteq> Some (l_lead_key lead) then s
                else case lock_clue_center_order_for_update s (l_order_id lead) of
                  None \<Rightarrow> s
                | Some c \<Rightarrow> (if c_current_assignment_round_id c = Some (r_assignment_round_id r)
                             then put_center (headquarters_center c t) s else s))))"

definition headquarters_lead :: "clue_master_lead \<Rightarrow> clue_allocation_decision \<Rightarrow> instant \<Rightarrow> clue_master_lead" where
  "headquarters_lead lead d t =
     lead\<lparr>l_pool_location := Some ''headquarters_pool'', l_allocation_state := ''headquarters'',
          l_current_assignment_round_id := None, l_allocation_cycle_id := d_allocation_cycle_id d,
          l_ended_without_assignment := False, l_updated_at := t\<rparr>"

definition project_headquarters :: "platform \<Rightarrow> db \<Rightarrow> clue_master_lead \<Rightarrow> instant \<Rightarrow> clue_allocation_decision \<Rightarrow> db result" where
  "project_headquarters P s lead t d =
     (let lead' = headquarters_lead lead d t
      in bind_result (enter_headquarters_pool P (put_lead lead' s) lead' (or_else (d_reason d) ''headquarters'') t (Some d)
                        None None None [])
           (\<lambda>(entry, s1). Inr (project_center_headquarters s1 lead' t)))"

definition is_retriable_rule_version_unavailable :: "db \<Rightarrow> string \<Rightarrow> bool" where
  "is_retriable_rule_version_unavailable s lead_key =
     list_ex (\<lambda>e. e_lead_key e = lead_key \<and> is_active_entry e
        \<and> e_reason e \<in> set (headquarters_pool_reason_storage_values ''no_published_rule'')) (t_entries s)"

section \<open>Allocation\<close>

definition anchor_unavailable_reason :: "clue_master_lead \<Rightarrow> string option" where
  "anchor_unavailable_reason lead =
     (if truthy (l_anchor_unavailable_reason lead) then l_anchor_unavailable_reason lead
      else if clean (l_anchor_poi_id lead) = None then Some ''follow_poi_missing''
      else if clean (l_anchor_store_id lead) = None then Some ''anchor_store_missing''
      else if \<not> truthy (normalize_city_code (l_anchor_city_code lead)) then Some ''anchor_city_code_missing''
      else if \<not> valid_coordinates (l_anchor_latitude lead) (l_anchor_longitude lead) then Some ''anchor_coordinates_unavailable''
      else None)"

definition source_store_anchor_reason :: "clue_master_lead \<Rightarrow> string option" where
  "source_store_anchor_reason lead =
     (if clean (l_anchor_poi_id lead) = None then Some ''follow_poi_missing''
      else if clean (l_anchor_store_id lead) = None then Some ''follow_poi_unmapped''
      else if l_anchor_source lead \<noteq> Some ''douyin_follow_poi'' then Some ''follow_poi_source_invalid''
      else None)"

text \<open>Sending a lead to headquarters: the decision, the projection and the result.\<close>

definition headquarters_result :: "clue_master_lead \<Rightarrow> clue_allocation_decision \<Rightarrow> string list \<Rightarrow> allocation_result" where
  "headquarters_result lead d ids =
     \<lparr>a_lead_key = l_lead_key lead, a_status = ''headquarters'', a_reason = d_reason d, a_selected_store_id = None,
      a_assignment_round_id = None, a_decision_ids = ids @ [d_decision_id d]\<rparr>"

definition headquarters_outcome ::
  "platform \<Rightarrow> clue_master_lead \<Rightarrow> clue_lead_rule_version_binding option \<Rightarrow> sale_store_evidence \<Rightarrow> string list
   \<Rightarrow> string \<Rightarrow> bool \<Rightarrow> int option \<Rightarrow> string \<Rightarrow> decision_outcome" where
  "headquarters_outcome P lead binding sale historical t enabled order reason =
     \<lparr>x_strategy_type = t, x_execution_order = order, x_status = ''headquarters'', x_reason = Some reason,
      x_snapshot = base_snapshot P lead binding sale
        \<lparr>w_strategy_type = t, w_enabled = enabled, w_execution_order = order, w_params = [], w_max_distance_km = None\<rparr>
        historical [] None None,
      x_selected_store_id = None, x_selected_store_name = None, x_assignment_round_id = None, x_round_no = None\<rparr>"

definition send_to_headquarters ::
  "platform \<Rightarrow> db \<Rightarrow> clue_master_lead \<Rightarrow> clue_lead_rule_version_binding option \<Rightarrow> allocation_request \<Rightarrow> decision_outcome
   \<Rightarrow> string list \<Rightarrow> (allocation_result \<times> db) result" where
  "send_to_headquarters P s lead binding q x ids =
     bind_result (record_decision P s lead binding q x) (\<lambda>(d, s1).
     bind_result (project_headquarters P s1 lead (q_executed_at q) d) (\<lambda>s2.
       Inr (headquarters_result lead d ids, s2)))"

text \<open>What every strategy of one allocation shares.\<close>

record allocation_env =
  n_lead :: clue_master_lead
  n_binding :: clue_lead_rule_version_binding
  n_request :: allocation_request
  n_sale_store :: sale_store_evidence
  n_historical :: "string list"
  n_stores :: "dim_store list"
  n_scores :: "string \<Rightarrow> store_score_snapshot option"
  n_source_store_mode :: bool

definition config_view :: "strategy_config \<Rightarrow> bool \<Rightarrow> strategy_view" where
  "config_view k enabled =
     \<lparr>w_strategy_type = k_strategy_type k, w_enabled = enabled, w_execution_order = Some (k_execution_order k),
      w_params = k_params k, w_max_distance_km = strategy_distance (k_strategy_type k) (k_params k)\<rparr>"

definition skipped_outcome ::
  "platform \<Rightarrow> allocation_env \<Rightarrow> strategy_config \<Rightarrow> bool \<Rightarrow> candidate list \<Rightarrow> candidate_summary option \<Rightarrow> string \<Rightarrow> decision_outcome" where
  "skipped_outcome P n k enabled cs summary reason =
     \<lparr>x_strategy_type = k_strategy_type k, x_execution_order = Some (k_execution_order k), x_status = ''skipped'',
      x_reason = Some reason,
      x_snapshot = base_snapshot P (n_lead n) (Some (n_binding n)) (n_sale_store n) (config_view k enabled)
        (n_historical n) cs None summary,
      x_selected_store_id = None, x_selected_store_name = None, x_assignment_round_id = None, x_round_no = None\<rparr>"

definition selected_outcome ::
  "platform \<Rightarrow> allocation_env \<Rightarrow> strategy_config \<Rightarrow> candidate list \<Rightarrow> candidate_summary \<Rightarrow> candidate \<Rightarrow> string \<Rightarrow> int
   \<Rightarrow> decision_outcome" where
  "selected_outcome P n k cs summary c round_id round_no =
     (let q = n_request n;
          snapshot = base_snapshot P (n_lead n) (Some (n_binding n)) (n_sale_store n) (config_view k True)
            (n_historical n) cs (cd_store_id c) (Some summary);
          snapshot1 = dset snapshot ''assignment_round'' (PDict
            [(''assignment_round_id'', PStr round_id), (''round_no'', PInt round_no),
             (''execution_mode'', PStr (q_execution_mode q)), (''allocation_cycle_id'', of_text (q_allocation_cycle_id q))]);
          snapshot2 = dset snapshot1 ''execution_timing'' (PDict
            [(''auto_expiry_enabled'', PBool (auto_expiry (b_rule_version_snapshot (n_binding n)) q)),
             (''source'', PStr (if q_auto_expiry_override q \<noteq> None then ''cycle_override'' else ''rule_version''))])
      in \<lparr>x_strategy_type = k_strategy_type k, x_execution_order = Some (k_execution_order k), x_status = ''selected'',
          x_reason = Some ''selected'', x_snapshot = snapshot2, x_selected_store_id = cd_store_id c,
          x_selected_store_name = cd_store_name c, x_assignment_round_id = Some round_id, x_round_no = Some round_no\<rparr>)"

definition round_no_for :: "db \<Rightarrow> allocation_env \<Rightarrow> strategy_config \<Rightarrow> int" where
  "round_no_for s n k =
     (if n_source_store_mode n \<and> k_strategy_type k = ''sales_store_priority'' \<and> n_historical n = [] then 0
      else next_round_no s (l_lead_key (n_lead n)) (q_execution_mode (n_request n)))"

definition assign_selected ::
  "platform \<Rightarrow> db \<Rightarrow> allocation_env \<Rightarrow> strategy_config \<Rightarrow> candidate list \<Rightarrow> candidate_summary \<Rightarrow> candidate \<Rightarrow> string list
   \<Rightarrow> (allocation_result \<times> db) result" where
  "assign_selected P s n k cs summary c ids =
     (let lead = n_lead n; q = n_request n; round_no = round_no_for s n k;
          round_id = assignment_round_id P (l_lead_key lead) (q_execution_mode q) (q_allocation_cycle_id q) round_no
      in bind_result (record_decision P s lead (Some (n_binding n)) q (selected_outcome P n k cs summary c round_id round_no))
           (\<lambda>(d, s1).
         bind_result (ensure_selected_round s1 lead (n_binding n) d c q) (\<lambda>(r, s2).
         bind_result (project_self_owned_assignment s2 lead r c (q_allocation_cycle_id q) (q_executed_at q)) (\<lambda>s3.
           Inr (\<lparr>a_lead_key = l_lead_key lead, a_status = ''assigned'', a_reason = Some ''selected'',
                 a_selected_store_id = cd_store_id c, a_assignment_round_id = Some (r_assignment_round_id r),
                 a_decision_ids = ids @ [d_decision_id d]\<rparr>, s3)))))"

fun run_strategies ::
  "platform \<Rightarrow> allocation_env \<Rightarrow> int option \<Rightarrow> strategy_config list \<Rightarrow> string list \<Rightarrow> db
   \<Rightarrow> ((allocation_result option \<times> string list) \<times> db) result" where
  "run_strategies P n start_after [] ids s = Inr ((None, ids), s)"
| "run_strategies P n start_after (k # ks) ids s =
     (if (case start_after of None \<Rightarrow> False | Some i \<Rightarrow> k_execution_order k \<le> i)
      then run_strategies P n start_after ks ids s
      else if \<not> k_enabled k then
        bind_result (record_decision P s (n_lead n) (Some (n_binding n)) (n_request n)
                       (skipped_outcome P n k False [] None ''strategy_disabled'')) (\<lambda>(d, s1).
          run_strategies P n start_after ks (ids @ [d_decision_id d]) s1)
      else
        (case strategy_candidates P (k_strategy_type k) (n_lead n) (n_sale_store n) (n_stores n) (n_scores n)
                (n_historical n) (strategy_distance (k_strategy_type k) (k_params k)) (n_source_store_mode n) of
           (cs, reason, summary) \<Rightarrow>
             (case selected_candidate cs of
                None \<Rightarrow>
                  bind_result (record_decision P s (n_lead n) (Some (n_binding n)) (n_request n)
                                 (skipped_outcome P n k True cs (Some summary) (or_else reason ''no_candidate''))) (\<lambda>(d, s1).
                    run_strategies P n start_after ks (ids @ [d_decision_id d]) s1)
              | Some c \<Rightarrow>
                  bind_result (assign_selected P s n k cs summary c ids) (\<lambda>(r, s1). Inr ((Some r, a_decision_ids r), s1)))))"

text \<open>The strategy after which to continue, as its execution order.\<close>

definition start_after_order :: "strategy_config list \<Rightarrow> string option \<Rightarrow> int option result" where
  "start_after_order configs start_after_strategy =
     (case clean start_after_strategy of
        None \<Rightarrow> Inr None
      | Some t \<Rightarrow>
          (case find_row k_strategy_type t configs of
             None \<Rightarrow> Inl (ValueError ''start_after_strategy must be a configured strategy type'')
           | Some k \<Rightarrow> Inr (Some (k_execution_order k))))"

definition allocation_env_of ::
  "db \<Rightarrow> clue_master_lead \<Rightarrow> clue_lead_rule_version_binding \<Rightarrow> allocation_request \<Rightarrow> allocation_env" where
  "allocation_env_of s lead b q =
     (let source = is_source_store_mode (b_rule_version_snapshot b)
      in \<lparr>n_lead = lead, n_binding = b, n_request = q,
          n_sale_store = resolve_sale_store_evidence s (or_else (l_order_id lead) []),
          n_historical = historical_self_owned_store_ids s (l_lead_key lead),
          n_stores = sort_key s_store_id (t_stores s),
          n_scores = (if source then (\<lambda>_. None) else latest_score s (b_rule_version_id b)),
          n_source_store_mode = source\<rparr>)"

definition try_strategies ::
  "platform \<Rightarrow> db \<Rightarrow> allocation_env \<Rightarrow> string option \<Rightarrow> (allocation_result \<times> db) result" where
  "try_strategies P s n start_after_strategy =
     (let configs = strategy_configs (b_rule_version_snapshot (n_binding n))
      in bind_result (start_after_order configs start_after_strategy) (\<lambda>start_after.
         bind_result (run_strategies P n start_after configs [] s) (\<lambda>((found, ids), s1).
           case found of
             Some r \<Rightarrow> Inr (r, s1)
           | None \<Rightarrow>
               send_to_headquarters P s1 (n_lead n) (Some (n_binding n)) (n_request n)
                 (headquarters_outcome P (n_lead n) (Some (n_binding n)) (n_sale_store n) (n_historical n)
                    ''allocation_finalization'' False None ''no_candidate'') ids)))"

definition allocate_bound_lead ::
  "platform \<Rightarrow> db \<Rightarrow> clue_master_lead \<Rightarrow> clue_lead_rule_version_binding \<Rightarrow> allocation_request \<Rightarrow> string option
   \<Rightarrow> (allocation_result \<times> db) result" where
  "allocate_bound_lead P s lead b q start_after_strategy =
     (let anchor_reason = (if is_source_store_mode (b_rule_version_snapshot b) then source_store_anchor_reason lead
                           else anchor_unavailable_reason lead)
      in case anchor_reason of
           Some reason \<Rightarrow>
             send_to_headquarters P s lead (Some b) q
               (headquarters_outcome P lead (Some b) missing_sale_store_evidence [] ''anchor_validation'' True (Some 0) reason) []
         | None \<Rightarrow>
             (if clean (l_order_id lead) = None then
                send_to_headquarters P s lead (Some b) q
                  (headquarters_outcome P lead (Some b) missing_sale_store_evidence [] ''allocation_finalization'' False None
                     ''order_id_missing'') []
              else try_strategies P s (allocation_env_of s lead b q) start_after_strategy))"

definition simple_result :: "clue_master_lead \<Rightarrow> string \<Rightarrow> string \<Rightarrow> allocation_result" where
  "simple_result lead status reason =
     \<lparr>a_lead_key = l_lead_key lead, a_status = status, a_reason = Some reason, a_selected_store_id = None,
      a_assignment_round_id = None, a_decision_ids = []\<rparr>"

definition current_round_result :: "clue_master_lead \<Rightarrow> clue_assignment_round \<Rightarrow> allocation_result" where
  "current_round_result lead r =
     \<lparr>a_lead_key = l_lead_key lead, a_status = ''assigned'', a_reason = Some ''current_self_owned_round_exists'',
      a_selected_store_id = r_assigned_store_id r, a_assignment_round_id = Some (r_assignment_round_id r),
      a_decision_ids = (if truthy (r_allocation_decision_id r) then [the (r_allocation_decision_id r)] else [])\<rparr>"

definition allocate_open_lead ::
  "platform \<Rightarrow> db \<Rightarrow> clue_master_lead \<Rightarrow> allocation_request \<Rightarrow> string option \<Rightarrow> (allocation_result \<times> db) result" where
  "allocate_open_lead P s lead q start_after_strategy =
     (if l_lifecycle_status lead \<noteq> ''active'' \<or> l_normalized_order_status lead \<noteq> ''active''
      then Inr (simple_result lead ''skipped'' ''lead_not_active'', s)
      else if l_pool_location lead = Some ''headquarters_pool'' \<and> \<not> is_retriable_rule_version_unavailable s (l_lead_key lead)
      then Inl (ValueError ''headquarters_reentry_not_supported'')
      else case current_self_owned_round s lead of
        Some r \<Rightarrow> Inr (current_round_result lead r, s)
      | None \<Rightarrow>
          (case completed_headquarters_decision P s (l_lead_key lead) q of
             Some d \<Rightarrow>
               bind_result (project_headquarters P s lead (q_executed_at q) d) (\<lambda>s1. Inr (headquarters_result lead d [], s1))
           | None \<Rightarrow>
               (case bind_lead_rule_version s (Some (l_lead_key lead)) (l_anchor_store_id lead) (l_anchor_city_code lead) of
                  Inl (RuleResolutionError m) \<Rightarrow>
                    send_to_headquarters P s lead None q
                      (headquarters_outcome P lead None missing_sale_store_evidence [] ''rule_version_resolution'' False None
                         ''rule_version_unavailable'') []
                | Inl e \<Rightarrow> Inl e
                | Inr (b, s1) \<Rightarrow> allocate_bound_lead P s1 lead b q start_after_strategy)))"

definition allocate_lead ::
  "platform \<Rightarrow> (string \<times> terminal_evidence) list \<Rightarrow> db \<Rightarrow> string option \<Rightarrow> string option \<Rightarrow> string option \<Rightarrow> string option
   \<Rightarrow> instant \<Rightarrow> string option \<Rightarrow> string option \<Rightarrow> bool option \<Rightarrow> (allocation_result \<times> db) result" where
  "allocate_lead P terminal_by_order s lead_key execution_mode allocation_cycle_id actor now start_after_strategy
       transition_key auto_expiry_override =
     bind_result (engine_text lead_key ''lead_key'') (\<lambda>k.
     bind_result (engine_text execution_mode ''execution_mode'') (\<lambda>mode.
     bind_result (check (mode \<in> set self_owned_execution_modes) (ValueError ''execution_mode must be formal or trial'')) (\<lambda>_.
       case get_lead s k of
         None \<Rightarrow> Inl (ValueError ''clue master lead was not found'')
       | Some lead \<Rightarrow>
           (let q = \<lparr>q_execution_mode = mode, q_allocation_cycle_id = clean allocation_cycle_id,
                     q_actor = or_else (clean actor) ''manual'', q_executed_at = now,
                     q_transition_key = clean transition_key, q_auto_expiry_override = auto_expiry_override\<rparr>;
                terminal = Option.bind (l_order_id lead) (map_of terminal_by_order);
                (fenced, s1) = refresh_terminal_evidence_for_locked_lead P s lead now terminal
            in if fenced then Inr (simple_result lead ''skipped'' ''order_already_terminal'', s1)
               else allocate_open_lead P s1 lead q start_after_strategy))))"

text \<open>A batch: all leads exist, terminal evidence is read once, leads are served in key order.\<close>

fun engine_texts :: "string option list \<Rightarrow> string list result" where
  "engine_texts [] = Inr []"
| "engine_texts (v # vs) =
     bind_result (engine_text v ''lead_key'') (\<lambda>t. bind_result (engine_texts vs) (\<lambda>ts. Inr (t # ts)))"

fun allocate_in_order ::
  "(db \<Rightarrow> string \<Rightarrow> (allocation_result \<times> db) result) \<Rightarrow> (nat \<times> string) list \<Rightarrow> db
   \<Rightarrow> ((nat \<times> allocation_result) list \<times> db) result" where
  "allocate_in_order alloc [] s = Inr ([], s)"
| "allocate_in_order alloc ((i, k) # rest) s =
     bind_result (alloc s k) (\<lambda>(r, s1).
     bind_result (allocate_in_order alloc rest s1) (\<lambda>(rs, s2). Inr ((i, r) # rs, s2)))"

definition allocate_leads ::
  "platform \<Rightarrow> db \<Rightarrow> string option list \<Rightarrow> string option \<Rightarrow> string option \<Rightarrow> string option \<Rightarrow> instant \<Rightarrow> bool option
   \<Rightarrow> (allocation_result list \<times> db) result" where
  "allocate_leads P s lead_keys execution_mode allocation_cycle_id actor now auto_expiry_override =
     bind_result (engine_texts lead_keys) (\<lambda>keys.
     bind_result (check (list_all (\<lambda>k. get_lead s k \<noteq> None) keys) (ValueError ''clue master lead was not found'')) (\<lambda>_.
       let orders = map (the \<circ> l_order_id) (filter (\<lambda>l. truthy (l_order_id l)) (map (\<lambda>k. the (get_lead s k)) keys));
           terminal_by_order = load_terminal_evidence P s orders now;
           alloc = (\<lambda>st k. allocate_lead P terminal_by_order st (Some k) execution_mode allocation_cycle_id actor now
                             None None auto_expiry_override)
       in bind_result (allocate_in_order alloc (sort_key snd (zip [0..<length keys] keys)) s) (\<lambda>(rs, s1).
            Inr (map (\<lambda>i. the (map_of rs i)) [0..<length keys], s1))))"

section \<open>The invariant of the allocation tables\<close>

text \<open>
  Constraints the database declares, and the ownership of identifiers: a round whose identifier the
  engine issued runs in one of its own modes.
\<close>

definition engine_round_id :: "string \<Rightarrow> bool" where
  "engine_round_id i \<longleftrightarrow> take 17 i = ''allocation-round-''"

definition round_sig :: "clue_assignment_round \<Rightarrow> string \<times> string option \<times> string \<times> int" where
  "round_sig r = (r_assignment_round_id r, r_lead_key r, r_execution_mode r, r_round_no r)"

definition rounds_ok :: "(string \<times> string option \<times> string \<times> int) list \<Rightarrow> bool" where
  "rounds_ok sigs \<longleftrightarrow> distinct (map fst sigs) \<and> distinct (filter (\<lambda>(l, _). l \<noteq> None) (map snd sigs))
     \<and> (\<forall>(i, l, m, n) \<in> set sigs. engine_round_id i \<longrightarrow> m \<in> set self_owned_execution_modes)"

definition decision_ok :: "clue_allocation_decision \<Rightarrow> bool" where
  "decision_ok d \<longleftrightarrow> d_execution_mode d \<in> set self_owned_execution_modes
     \<and> (case d_assignment_round_id d of None \<Rightarrow> True | Some i \<Rightarrow> engine_round_id i)"

definition decisions_ok :: "clue_allocation_decision list \<Rightarrow> bool" where
  "decisions_ok ds \<longleftrightarrow> distinct (map d_attempt_key ds) \<and> distinct (map d_decision_id ds) \<and> list_all decision_ok ds"

definition engine_inv :: "db \<Rightarrow> bool" where
  "engine_inv s \<longleftrightarrow> pool_inv s \<and> decisions_ok (t_decisions s) \<and> rounds_ok (map round_sig (t_rounds s))"

text \<open>An operation on one lead leaves every other lead, its headquarters entry and the reference tables alone.\<close>

definition lead_frame :: "string \<Rightarrow> db \<Rightarrow> db \<Rightarrow> bool" where
  "lead_frame k s s' \<longleftrightarrow>
     (\<forall>j. j \<noteq> k \<longrightarrow> get_lead s' j = get_lead s j
        \<and> get_active_headquarters_pool_entry s' j = get_active_headquarters_pool_entry s j)
     \<and> (get_lead s' k = None \<longleftrightarrow> get_lead s k = None) \<and> t_stores s' = t_stores s \<and> t_follow_ups s' = t_follow_ups s"

text \<open>Where a lead is after an allocation.\<close>

definition in_store_pool :: "db \<Rightarrow> string \<Rightarrow> string \<Rightarrow> bool" where
  "in_store_pool s k round_id \<longleftrightarrow>
     (\<exists>lead r. get_lead s k = Some lead \<and> l_pool_location lead = Some ''store_follow_up_pool''
        \<and> l_allocation_state lead = ''assigned'' \<and> l_current_assignment_round_id lead = Some round_id
        \<and> engine_round_id round_id \<and> get_round s round_id = Some r
        \<and> r_execution_mode r \<in> set self_owned_execution_modes \<and> get_active_headquarters_pool_entry s k = None)"

definition in_headquarters_pool :: "db \<Rightarrow> string \<Rightarrow> bool" where
  "in_headquarters_pool s k \<longleftrightarrow>
     (\<exists>lead e. get_lead s k = Some lead \<and> l_pool_location lead = Some ''headquarters_pool''
        \<and> l_allocation_state lead = ''headquarters'' \<and> l_current_assignment_round_id lead = None
        \<and> get_active_headquarters_pool_entry s k = Some e)"

text \<open>What a strategy of an allocation chose, and the state an assignment leaves behind.\<close>

definition chosen_by :: "platform \<Rightarrow> allocation_env \<Rightarrow> strategy_config \<Rightarrow> candidate \<Rightarrow> bool" where
  "chosen_by P n k c \<longleftrightarrow> k_enabled k
     \<and> selected_candidate (fst (strategy_candidates P (k_strategy_type k) (n_lead n) (n_sale_store n) (n_stores n)
          (n_scores n) (n_historical n) (strategy_distance (k_strategy_type k) (k_params k)) (n_source_store_mode n))) = Some c"

definition assigned_post :: "platform \<Rightarrow> allocation_env \<Rightarrow> strategy_config list \<Rightarrow> db \<Rightarrow> allocation_result \<Rightarrow> bool" where
  "assigned_post P n ks s' res \<longleftrightarrow>
     a_lead_key res = l_lead_key (n_lead n) \<and> a_status res = ''assigned'' \<and> a_reason res = Some ''selected''
     \<and> (\<exists>i cycle t. a_assignment_round_id res = Some i \<and> in_store_pool s' (l_lead_key (n_lead n)) i
          \<and> get_lead s' (l_lead_key (n_lead n)) = Some (store_pool_lead (n_lead n) i cycle t))
     \<and> (\<exists>k \<in> set ks. \<exists>c. chosen_by P n k c \<and> a_selected_store_id res = cd_store_id c)"

definition headquarters_post :: "string \<Rightarrow> db \<Rightarrow> allocation_result \<Rightarrow> bool" where
  "headquarters_post k s' res \<longleftrightarrow>
     a_lead_key res = k \<and> a_status res = ''headquarters'' \<and> a_selected_store_id res = None \<and> in_headquarters_pool s' k"

lemma lead_frame_refl [simp]: "lead_frame k s s"
  by (simp add: lead_frame_def)

lemma lead_frame_trans [trans]: "lead_frame k s s' \<Longrightarrow> lead_frame k s' s'' \<Longrightarrow> lead_frame k s s''"
  by (simp add: lead_frame_def)

text \<open>What the invariant and the frame depend on.\<close>

lemma engine_inv_cong:
  assumes "t_entries s' = t_entries s" "t_decisions s' = t_decisions s" "t_rounds s' = t_rounds s"
  shows "engine_inv s' = engine_inv s"
  using assms by (simp add: engine_inv_def pool_inv_def)

lemma lead_frame_tables:
  assumes "t_leads s' = t_leads s" "t_entries s' = t_entries s" "t_stores s' = t_stores s" "t_follow_ups s' = t_follow_ups s"
  shows "lead_frame k s s'"
  using assms by (simp add: lead_frame_def get_lead_def get_active_headquarters_pool_entry_def)

section \<open>Decisions and rounds\<close>

lemma record_decision_cases:
  assumes "record_decision P s lead binding q x = Inr (d, s')"
  shows "(s' = s \<and> d \<in> set (t_decisions s))
     \<or> (d = new_decision P lead binding q x \<and> s' = s\<lparr>t_decisions := add_row d (t_decisions s)\<rparr>
        \<and> d_attempt_key d \<notin> d_attempt_key ` set (t_decisions s) \<and> d_decision_id d \<notin> d_decision_id ` set (t_decisions s))"
  using assms
  by (auto simp: record_decision_def Let_def find_decision_def find_row_None dest: find_row_Some
      split: option.splits if_splits)

lemma new_decision_ok:
  assumes "q_execution_mode q \<in> set self_owned_execution_modes"
    and "case x_assignment_round_id x of None \<Rightarrow> True | Some i \<Rightarrow> engine_round_id i"
  shows "decision_ok (new_decision P lead binding q x)"
  using assms by (simp add: decision_ok_def new_decision_def Let_def)

lemma record_decision_effect:
  assumes "record_decision P s lead binding q x = Inr (d, s')" and "engine_inv s"
    and "q_execution_mode q \<in> set self_owned_execution_modes"
    and "case x_assignment_round_id x of None \<Rightarrow> True | Some i \<Rightarrow> engine_round_id i"
  shows "engine_inv s' \<and> lead_frame k s s' \<and> decision_ok d \<and> t_leads s' = t_leads s \<and> t_rounds s' = t_rounds s
     \<and> t_entries s' = t_entries s"
proof (rule disjE [OF record_decision_cases [OF assms(1)]])
  assume d: "s' = s \<and> d \<in> set (t_decisions s)"
  then have "decision_ok d" using assms(2) by (auto simp: engine_inv_def decisions_ok_def list_all_iff)
  with d assms(2) show ?thesis by simp
next
  assume d: "d = new_decision P lead binding q x \<and> s' = s\<lparr>t_decisions := add_row d (t_decisions s)\<rparr>
        \<and> d_attempt_key d \<notin> d_attempt_key ` set (t_decisions s) \<and> d_decision_id d \<notin> d_decision_id ` set (t_decisions s)"
  then have ok: "decision_ok d" using new_decision_ok [OF assms(3,4)] by simp
  have s': "s' = s\<lparr>t_decisions := add_row d (t_decisions s)\<rparr>" using d by blast
  have "decisions_ok (t_decisions s')"
    using d ok assms(2) by (auto simp: s' engine_inv_def decisions_ok_def add_row_def)
  then have "engine_inv s'" using assms(2) by (simp add: s' engine_inv_def pool_inv_def)
  moreover have "lead_frame k s s'" by (simp add: s' lead_frame_tables)
  ultimately show ?thesis using ok by (simp add: s')
qed

lemma assignment_round_id_engine: "engine_round_id (assignment_round_id P k m c n)"
  by (simp add: engine_round_id_def assignment_round_id_def)

lemma ensure_selected_round_cases:
  assumes "ensure_selected_round s lead b d c q = Inr (r, s')"
  shows "\<exists>i. d_assignment_round_id d = Some i \<and> r_assignment_round_id r = i
     \<and> ((s' = s \<and> get_round s i = Some r)
      \<or> (\<exists>h p. r = selected_round lead b d c q h p \<and> 0 < h \<and> 0 < p \<and> s' = s\<lparr>t_rounds := add_row r (t_rounds s)\<rparr>
           \<and> get_round s i = None \<and> \<not> round_number_taken s r))"
proof -
  have pos: "0 < i" if "positive_int v n = Inr i" "0 < n" for v n i
    using that by (auto simp: positive_int_def split: sum.splits pyerr.splits if_splits)
  from assms obtain i where i: "d_assignment_round_id d = Some i"
    by (auto simp: ensure_selected_round_def truthy_def split: if_splits)
  show ?thesis
  proof (cases "lock_clue_assignment_round_for_update s (d_assignment_round_id d)")
    case (Some r')
    with assms have "r = r' \<and> s' = s" by (auto simp: ensure_selected_round_def split: if_splits)
    with Some i show ?thesis
      by (auto simp: lock_clue_assignment_round_for_update_def dest: round_table.get_key split: if_splits)
  next
    case None
    with assms obtain h p where hp: "positive_int (dget (b_rule_version_snapshot b) ''first_follow_up_sla_hours'') 24 = Inr h"
      "positive_int (dget (b_rule_version_snapshot b) ''protection_days'') 7 = Inr p"
      and r: "r = selected_round lead b d c q h p" "s' = s\<lparr>t_rounds := add_row r (t_rounds s)\<rparr>"
      "get_round s (r_assignment_round_id r) = None" "\<not> round_number_taken s r"
      by (auto simp: ensure_selected_round_def bind_result_Inr Let_def split: if_splits)
    have ri: "r_assignment_round_id r = i" using r(1) i by (simp add: selected_round_def Let_def)
    have "0 < h" "0 < p" using pos [OF hp(1)] pos [OF hp(2)] by simp_all
    moreover have "get_round s i = None" using r(3) by (simp only: ri)
    ultimately show ?thesis using i ri r(1,2,4) by blast
  qed
qed

lemma ensure_selected_round_effect:
  assumes "ensure_selected_round s lead b d c q = Inr (r, s')" and inv: "engine_inv s" and d: "decision_ok d"
  shows "engine_inv s' \<and> lead_frame k s s' \<and> t_leads s' = t_leads s \<and> t_entries s' = t_entries s
     \<and> get_round s' (r_assignment_round_id r) = Some r \<and> r_execution_mode r \<in> set self_owned_execution_modes
     \<and> engine_round_id (r_assignment_round_id r)"
proof -
  from ensure_selected_round_cases [OF assms(1)] obtain i where i: "d_assignment_round_id d = Some i" "r_assignment_round_id r = i"
    and cases: "(s' = s \<and> get_round s i = Some r)
      \<or> (\<exists>h p. r = selected_round lead b d c q h p \<and> 0 < h \<and> 0 < p \<and> s' = s\<lparr>t_rounds := add_row r (t_rounds s)\<rparr>
           \<and> get_round s i = None \<and> \<not> round_number_taken s r)" by blast
  have engine: "engine_round_id i" using d i by (simp add: decision_ok_def)
  from cases show ?thesis
  proof
    assume c: "s' = s \<and> get_round s i = Some r"
    then have "round_sig r \<in> set (map round_sig (t_rounds s))" by (auto simp: get_round_def dest: find_row_Some)
    then have "r_execution_mode r \<in> set self_owned_execution_modes"
      using inv engine i by (auto simp: engine_inv_def rounds_ok_def round_sig_def)
    with c i inv engine show ?thesis by simp
  next
    assume "\<exists>h p. r = selected_round lead b d c q h p \<and> 0 < h \<and> 0 < p \<and> s' = s\<lparr>t_rounds := add_row r (t_rounds s)\<rparr>
           \<and> get_round s i = None \<and> \<not> round_number_taken s r"
    then obtain h p where r: "r = selected_round lead b d c q h p" and s': "s' = s\<lparr>t_rounds := add_row r (t_rounds s)\<rparr>"
      and fresh: "get_round s i = None" "\<not> round_number_taken s r" by blast
    have mode: "r_execution_mode r \<in> set self_owned_execution_modes"
      using d by (simp add: r selected_round_def Let_def decision_ok_def)
    have "r_assignment_round_id r \<notin> set (map r_assignment_round_id (t_rounds s))"
      using fresh(1) i by (simp add: get_round_def find_row_None)
    moreover have "snd (round_sig r) \<notin> set (map (snd \<circ> round_sig) (t_rounds s))"
      using fresh(2) by (auto simp: round_number_taken_def round_sig_def list_ex_iff)
    ultimately have "rounds_ok (map round_sig (t_rounds s'))"
      using inv mode by (auto simp: s' engine_inv_def rounds_ok_def round_sig_def o_def)
    then have "engine_inv s'" using inv by (simp add: s' engine_inv_def pool_inv_def)
    moreover have "get_round s' (r_assignment_round_id r) = Some r"
      using fresh(1) i by (simp add: s' get_round_def find_row_add)
    moreover have "lead_frame k s s'" by (simp add: s' lead_frame_tables)
    ultimately show ?thesis using mode i engine by (simp add: s')
  qed
qed

section \<open>Projections\<close>

lemma close_pool_tables [simp]:
  "t_decisions (snd (close_current_headquarters_pool_entry s k t r st)) = t_decisions s"
  "t_stores (snd (close_current_headquarters_pool_entry s k t r st)) = t_stores s"
  "t_follow_ups (snd (close_current_headquarters_pool_entry s k t r st)) = t_follow_ups s"
  by (simp_all add: close_current_headquarters_pool_entry_def Let_def put_entry_def split: option.splits)

lemma add_entry_tables:
  assumes "add_entry e s = Inr s'"
  shows "t_leads s' = t_leads s \<and> t_rounds s' = t_rounds s \<and> t_decisions s' = t_decisions s
     \<and> t_stores s' = t_stores s \<and> t_follow_ups s' = t_follow_ups s"
  using assms by (auto simp: add_entry_def split: if_splits)

lemma enter_pool_tables:
  assumes "enter_headquarters_pool P s lead reason t d rd rv cy snap = Inr (e, s')"
  shows "t_leads s' = t_leads s \<and> t_rounds s' = t_rounds s \<and> t_decisions s' = t_decisions s
     \<and> t_stores s' = t_stores s \<and> t_follow_ups s' = t_follow_ups s"
proof -
  let ?c = "snd (close_current_headquarters_pool_entry s (l_lead_key lead) t ''superseded_by_new_allocation'' ''superseded'')"
  consider "s' = s" | e' where "add_entry e' s = Inr s'" | e' where "add_entry e' ?c = Inr s'"
    using assms
    by (auto simp: enter_headquarters_pool_def Let_def bind_result_Inr case_prod_beta split: option.splits if_splits)
  then show ?thesis
  proof cases
    case 1
    then show ?thesis by simp
  next
    case 2
    from add_entry_tables [OF this] show ?thesis .
  next
    case 3
    from add_entry_tables [OF this] show ?thesis by simp
  qed
qed

lemma project_center_assignment_tables:
  assumes "project_center_assignment s lead r c t = Inr s'"
  shows "t_leads s' = t_leads s \<and> t_rounds s' = t_rounds s \<and> t_decisions s' = t_decisions s
     \<and> t_entries s' = t_entries s \<and> t_stores s' = t_stores s \<and> t_follow_ups s' = t_follow_ups s"
  using assms by (auto simp: project_center_assignment_def put_center_def split: option.splits if_splits)

lemma project_center_headquarters_tables [simp]:
  "t_leads (project_center_headquarters s lead t) = t_leads s"
  "t_rounds (project_center_headquarters s lead t) = t_rounds s"
  "t_decisions (project_center_headquarters s lead t) = t_decisions s"
  "t_entries (project_center_headquarters s lead t) = t_entries s"
  "t_stores (project_center_headquarters s lead t) = t_stores s"
  "t_follow_ups (project_center_headquarters s lead t) = t_follow_ups s"
  by (simp_all add: project_center_headquarters_def put_center_def split: option.splits)

lemma put_lead_tables [simp]:
  "t_rounds (put_lead l s) = t_rounds s" "t_decisions (put_lead l s) = t_decisions s"
  "t_entries (put_lead l s) = t_entries s" "t_stores (put_lead l s) = t_stores s"
  "t_follow_ups (put_lead l s) = t_follow_ups s" "t_leads (put_lead l s) = upd_row l_lead_key l (t_leads s)"
  by (simp_all add: put_lead_def)

text \<open>Writing a lead's row and its pool entry is within the frame of that lead.\<close>

lemma lead_write_frame:
  assumes "t_leads s' = upd_row l_lead_key lead' (t_leads s)" and "l_lead_key lead' = k"
    and "\<And>j. j \<noteq> k \<Longrightarrow> get_active_headquarters_pool_entry s' j = get_active_headquarters_pool_entry s j"
    and "t_stores s' = t_stores s" and "t_follow_ups s' = t_follow_ups s"
  shows "lead_frame k s s'" and "get_lead s k \<noteq> None \<Longrightarrow> get_lead s' k = Some lead'"
  using assms by (auto simp: lead_frame_def get_lead_def find_row_upd)

lemma project_self_owned_effect:
  assumes pr: "project_self_owned_assignment s lead r c cycle t = Inr s'" and inv: "engine_inv s"
    and lead: "get_lead s (l_lead_key lead) \<noteq> None"
    and r: "get_round s (r_assignment_round_id r) = Some r" "r_execution_mode r \<in> set self_owned_execution_modes"
      "engine_round_id (r_assignment_round_id r)"
  shows "engine_inv s' \<and> lead_frame (l_lead_key lead) s s' \<and> in_store_pool s' (l_lead_key lead) (r_assignment_round_id r)
     \<and> get_lead s' (l_lead_key lead) = Some (store_pool_lead lead (r_assignment_round_id r) cycle t)"
proof -
  let ?k = "l_lead_key lead"
  let ?s1 = "snd (close_current_headquarters_pool_entry s ?k t ''allocated_to_store'' ''closed'')"
  define lead' where "lead' = store_pool_lead lead (r_assignment_round_id r) cycle t"
  have pool: "pool_inv s" using inv by (simp add: engine_inv_def)
  have "project_center_assignment (put_lead lead' ?s1) lead' r c t = Inr s'"
    using pr by (simp add: project_self_owned_assignment_def Let_def lead'_def)
  note tables = project_center_assignment_tables [OF this]
  have e: "t_entries s' = t_entries ?s1" and rs: "t_rounds s' = t_rounds s" and ds: "t_decisions s' = t_decisions s"
    and st: "t_stores s' = t_stores s" and fu: "t_follow_ups s' = t_follow_ups s"
    and ls: "t_leads s' = upd_row l_lead_key lead' (t_leads s)" using tables by simp_all
  have act: "get_active_headquarters_pool_entry s' j = (if j = ?k then None else get_active_headquarters_pool_entry s j)" for j
    using active_after_close [OF pool, of "''closed''"] pool_frame(2) [OF e] by simp
  have "pool_inv s'" using close_pool_inv [OF pool, of "''closed''"] pool_frame(1) [OF e] by simp
  then have "engine_inv s'" using inv by (simp add: engine_inv_def rs ds)
  moreover have key: "l_lead_key lead' = ?k" by (simp add: lead'_def store_pool_lead_def)
  note w = lead_write_frame [OF ls key _ st fu]
  have "lead_frame ?k s s'" "get_lead s' ?k = Some lead'" using w act lead by simp_all
  moreover have "get_round s' (r_assignment_round_id r) = Some r" using r(1) rs by (simp add: get_round_def)
  ultimately show ?thesis using r(2,3) act [of ?k] by (auto simp: in_store_pool_def lead'_def store_pool_lead_def)
qed

lemma project_headquarters_effect:
  assumes pr: "project_headquarters P s lead t d = Inr s'" and inv: "engine_inv s"
    and lead: "get_lead s (l_lead_key lead) \<noteq> None"
  shows "engine_inv s' \<and> lead_frame (l_lead_key lead) s s' \<and> in_headquarters_pool s' (l_lead_key lead)"
proof -
  let ?k = "l_lead_key lead"
  define lead' where "lead' = headquarters_lead lead d t"
  have key: "l_lead_key lead' = ?k" by (simp add: lead'_def headquarters_lead_def)
  from pr obtain e s1 where enter: "enter_headquarters_pool P (put_lead lead' s) lead' (or_else (d_reason d) ''headquarters'') t
      (Some d) None None None [] = Inr (e, s1)" and s': "s' = project_center_headquarters s1 lead' t"
    by (auto simp: project_headquarters_def Let_def bind_result_Inr lead'_def)
  have "pool_inv (put_lead lead' s)" using inv by (simp add: engine_inv_def pool_inv_def)
  from enter_pool [OF this enter] have p: "pool_inv s1"
    "\<And>j. get_active_headquarters_pool_entry s1 j = (if j = ?k then Some e else get_active_headquarters_pool_entry s j)"
    by (auto simp: key get_active_headquarters_pool_entry_def)
  note tables = enter_pool_tables [OF enter]
  have es: "t_entries s' = t_entries s1" by (simp add: s')
  have act: "get_active_headquarters_pool_entry s' j = (if j = ?k then Some e else get_active_headquarters_pool_entry s j)" for j
    using p(2) pool_frame(2) [OF es] by simp
  have ls: "t_leads s' = upd_row l_lead_key lead' (t_leads s)" and st: "t_stores s' = t_stores s"
    and fu: "t_follow_ups s' = t_follow_ups s" using tables by (simp_all add: s')
  have "engine_inv s'" using inv tables p(1) pool_frame(1) [OF es] by (simp add: engine_inv_def s')
  moreover have "lead_frame ?k s s'" "get_lead s' ?k = Some lead'"
    using lead_write_frame [OF ls key _ st fu] act lead by simp_all
  ultimately show ?thesis using act [of ?k] by (auto simp: in_headquarters_pool_def lead'_def headquarters_lead_def)
qed

section \<open>One allocation\<close>

lemma assign_selected_effect:
  assumes a: "assign_selected P s n k cs summary c ids = Inr (res, s')" and inv: "engine_inv s"
    and lead: "get_lead s (l_lead_key (n_lead n)) \<noteq> None"
    and mode: "q_execution_mode (n_request n) \<in> set self_owned_execution_modes" and c: "chosen_by P n k c"
  shows "engine_inv s' \<and> lead_frame (l_lead_key (n_lead n)) s s' \<and> assigned_post P n [k] s' res"
proof -
  let ?k = "l_lead_key (n_lead n)"
  let ?no = "round_no_for s n k"
  let ?id = "assignment_round_id P ?k (q_execution_mode (n_request n)) (q_allocation_cycle_id (n_request n)) ?no"
  let ?x = "selected_outcome P n k cs summary c ?id ?no"
  from a obtain d s1 r s2 where
    d: "record_decision P s (n_lead n) (Some (n_binding n)) (n_request n) ?x = Inr (d, s1)"
    and r: "ensure_selected_round s1 (n_lead n) (n_binding n) d c (n_request n) = Inr (r, s2)"
    and pr: "project_self_owned_assignment s2 (n_lead n) r c (q_allocation_cycle_id (n_request n)) (q_executed_at (n_request n)) = Inr s'"
    and res: "a_lead_key res = ?k" "a_status res = ''assigned''" "a_reason res = Some ''selected''"
      "a_selected_store_id res = cd_store_id c" "a_assignment_round_id res = Some (r_assignment_round_id r)"
    by (auto simp: assign_selected_def Let_def bind_result_Inr)
  have x: "case x_assignment_round_id ?x of None \<Rightarrow> True | Some i \<Rightarrow> engine_round_id i"
    by (simp add: selected_outcome_def Let_def assignment_round_id_engine)
  note d' = record_decision_effect [OF d inv mode x, of ?k]
  then have inv1: "engine_inv s1" and dok: "decision_ok d" by blast+
  note r' = ensure_selected_round_effect [OF r inv1 dok, of ?k]
  have lead2: "get_lead s2 ?k \<noteq> None" using lead d' r' by (simp add: get_lead_def)
  have inv2: "engine_inv s2" and gr: "get_round s2 (r_assignment_round_id r) = Some r"
    and rm: "r_execution_mode r \<in> set self_owned_execution_modes" "engine_round_id (r_assignment_round_id r)" using r' by blast+
  note p' = project_self_owned_effect [OF pr inv2 lead2 gr rm]
  have "lead_frame ?k s s1" "lead_frame ?k s1 s2" "lead_frame ?k s2 s'" using d' r' p' by blast+
  then have "lead_frame ?k s s'" by (meson lead_frame_trans)
  moreover have "assigned_post P n [k] s' res" using p' res c by (auto simp: assigned_post_def)
  ultimately show ?thesis using p' by blast
qed

lemma send_to_headquarters_effect:
  assumes a: "send_to_headquarters P s lead binding q x ids = Inr (res, s')" and inv: "engine_inv s"
    and lead: "get_lead s (l_lead_key lead) \<noteq> None" and mode: "q_execution_mode q \<in> set self_owned_execution_modes"
    and x: "x_assignment_round_id x = None"
  shows "engine_inv s' \<and> lead_frame (l_lead_key lead) s s' \<and> headquarters_post (l_lead_key lead) s' res"
proof -
  let ?k = "l_lead_key lead"
  from a obtain d s1 where d: "record_decision P s lead binding q x = Inr (d, s1)"
    and pr: "project_headquarters P s1 lead (q_executed_at q) d = Inr s'" and res: "res = headquarters_result lead d ids"
    by (auto simp: send_to_headquarters_def bind_result_Inr)
  have x': "case x_assignment_round_id x of None \<Rightarrow> True | Some i \<Rightarrow> engine_round_id i" by (simp add: x)
  note d' = record_decision_effect [OF d inv mode x', of ?k]
  then have inv1: "engine_inv s1" and lead1: "get_lead s1 ?k \<noteq> None" using lead by (simp_all add: get_lead_def)
  note p' = project_headquarters_effect [OF pr inv1 lead1]
  have "lead_frame ?k s s'" using d' p' by (meson lead_frame_trans)
  then show ?thesis using p' by (simp add: headquarters_post_def res headquarters_result_def)
qed

lemma assigned_post_mono: "assigned_post P n ks s' res \<Longrightarrow> set ks \<subseteq> set ks' \<Longrightarrow> assigned_post P n ks' s' res"
  unfolding assigned_post_def by blast

lemma skipped_outcome_no_round [simp]: "x_assignment_round_id (skipped_outcome P n k e cs summary reason) = None"
  by (simp add: skipped_outcome_def)

lemma headquarters_outcome_no_round [simp]: "x_assignment_round_id (headquarters_outcome P lead b sale h t e i reason) = None"
  by (simp add: headquarters_outcome_def)

text \<open>The loop over the strategies: it records, and stops at the first store it can assign.\<close>

definition loop_post ::
  "platform \<Rightarrow> allocation_env \<Rightarrow> strategy_config list \<Rightarrow> db \<Rightarrow> allocation_result option \<Rightarrow> db \<Rightarrow> bool" where
  "loop_post P n ks s found s' \<longleftrightarrow> engine_inv s' \<and> lead_frame (l_lead_key (n_lead n)) s s'
     \<and> (case found of None \<Rightarrow> get_lead s' = get_lead s | Some res \<Rightarrow> assigned_post P n ks s' res)"

lemma loop_post_Cons:
  assumes "loop_post P n ks s1 found s'" and "lead_frame (l_lead_key (n_lead n)) s s1" and "get_lead s1 = get_lead s"
  shows "loop_post P n (k # ks) s found s'"
  using assms unfolding loop_post_def
  by (auto split: option.splits intro: lead_frame_trans assigned_post_mono [of P n ks s'])

lemma run_strategies_effect:
  assumes "run_strategies P n start_after ks ids s = Inr ((found, ids'), s')" and "engine_inv s"
    and "get_lead s (l_lead_key (n_lead n)) \<noteq> None"
    and "q_execution_mode (n_request n) \<in> set self_owned_execution_modes"
  shows "loop_post P n ks s found s'"
  using assms
proof (induction ks arbitrary: ids s)
  case Nil
  then show ?case by (auto simp: loop_post_def)
next
  case (Cons k ks)
  let ?key = "l_lead_key (n_lead n)"
  have step: "loop_post P n (k # ks) s found s'"
    if d: "record_decision P s (n_lead n) (Some (n_binding n)) (n_request n) x = Inr (d, s1)"
      and x: "x_assignment_round_id x = None"
      and run: "run_strategies P n start_after ks ids1 s1 = Inr ((found, ids'), s')"
    for x d s1 ids1
  proof -
    have x': "case x_assignment_round_id x of None \<Rightarrow> True | Some i \<Rightarrow> engine_round_id i" by (simp add: x)
    note d' = record_decision_effect [OF d Cons.prems(2,4) x', of ?key]
    then have g: "get_lead s1 = get_lead s" by (simp add: get_lead_def fun_eq_iff)
    then have "loop_post P n ks s1 found s'" using Cons.IH [OF run] d' Cons.prems(3,4) by simp
    then show ?thesis using loop_post_Cons d' g by blast
  qed
  consider (past) "case start_after of None \<Rightarrow> False | Some i \<Rightarrow> k_execution_order k \<le> i"
    | (off) "\<not> (case start_after of None \<Rightarrow> False | Some i \<Rightarrow> k_execution_order k \<le> i)" "\<not> k_enabled k"
    | (on) "\<not> (case start_after of None \<Rightarrow> False | Some i \<Rightarrow> k_execution_order k \<le> i)" "k_enabled k"
    by blast
  then show ?case
  proof cases
    case past
    then have "loop_post P n ks s found s'" using Cons.IH [OF _ Cons.prems(2,3,4)] Cons.prems(1) by simp
    then show ?thesis by (rule loop_post_Cons) simp_all
  next
    case off
    from off Cons.prems(1) obtain d s1 where
      d: "record_decision P s (n_lead n) (Some (n_binding n)) (n_request n)
           (skipped_outcome P n k False [] None ''strategy_disabled'') = Inr (d, s1)"
      and run: "run_strategies P n start_after ks (ids @ [d_decision_id d]) s1 = Inr ((found, ids'), s')"
      by (auto simp: bind_result_Inr)
    show ?thesis by (rule step [OF d _ run]) simp
  next
    case on
    obtain cs reason summary where sc: "strategy_candidates P (k_strategy_type k) (n_lead n) (n_sale_store n) (n_stores n)
        (n_scores n) (n_historical n) (strategy_distance (k_strategy_type k) (k_params k)) (n_source_store_mode n)
      = (cs, reason, summary)" by (metis prod_cases3)
    show ?thesis
    proof (cases "selected_candidate cs")
      case None
      from on None Cons.prems(1) obtain d s1 where
        d: "record_decision P s (n_lead n) (Some (n_binding n)) (n_request n)
             (skipped_outcome P n k True cs (Some summary) (or_else reason ''no_candidate'')) = Inr (d, s1)"
        and run: "run_strategies P n start_after ks (ids @ [d_decision_id d]) s1 = Inr ((found, ids'), s')"
        by (auto simp: bind_result_Inr sc)
      show ?thesis by (rule step [OF d _ run]) simp
    next
      case (Some c)
      from on Some Cons.prems(1) obtain r where
        a: "assign_selected P s n k cs summary c ids = Inr (r, s')" and found: "found = Some r"
        by (auto simp: bind_result_Inr sc)
      have "chosen_by P n k c" using on Some by (simp add: chosen_by_def sc)
      note eff = assign_selected_effect [OF a Cons.prems(2,3,4) this]
      then have "assigned_post P n (k # ks) s' r" using assigned_post_mono [of P n "[k]" s' r "k # ks"] by simp
      with eff found show ?thesis by (simp add: loop_post_def)
    qed
  qed
qed

text \<open>The refresh writes one round in place, and nothing the engine issues.\<close>

lemma put_round_sig:
  assumes "rounds_ok (map round_sig (t_rounds s))" and "get_round s (r_assignment_round_id r) = Some r"
    and "round_sig r' = round_sig r"
  shows "map round_sig (t_rounds (put_round r' s)) = map round_sig (t_rounds s)"
proof -
  have id: "r_assignment_round_id r' = r_assignment_round_id r" using assms(3) by (simp add: round_sig_def)
  have d: "distinct (map r_assignment_round_id (t_rounds s))"
    using assms(1) by (simp add: rounds_ok_def round_sig_def o_def)
  have "x = r" if "x \<in> set (t_rounds s)" "r_assignment_round_id x = r_assignment_round_id r" for x
    using find_row_distinct [OF d that(1)] assms(2) that(2) by (simp add: get_round_def)
  then show ?thesis by (auto simp: put_round_def upd_row_def id assms(3))
qed

lemma close_current_assignment_sig:
  assumes "rounds_ok (map round_sig (t_rounds s))"
    and "\<And>r. r \<in> set rs \<Longrightarrow> get_round s (r_assignment_round_id r) = Some r"
  shows "map round_sig (t_rounds (close_current_assignment s lc t i c rs)) = map round_sig (t_rounds s)"
proof -
  have put: "map round_sig (t_rounds (put_round (r\<lparr>r_round_status := a, r_terminal_reason := b, r_matured_at := m,
        r_updated_at := u\<rparr>) s)) = map round_sig (t_rounds s)" if "find_row r_assignment_round_id j rs = Some r" for r j a b m u
    using put_round_sig [OF assms(1) assms(2), of r] find_row_Some [OF that] by (simp add: round_sig_def)
  show ?thesis
    by (simp add: close_current_assignment_def Let_def put_center_def put split: option.splits)
qed

lemma owned_rounds_stored:
  assumes "r \<in> set (owned_rounds s lead)"
  shows "get_round s (r_assignment_round_id r) = Some r"
proof -
  from assms obtain i where "get_round s i = Some r"
    by (auto simp: owned_rounds_def Let_def lock_clue_assignment_round_for_update_def split: option.splits if_splits)
  with round_table.get_key show ?thesis by metis
qed

lemma terminal_tables [simp]:
  "t_decisions (record_status_event P s k i res obs now) = t_decisions s"
  "t_stores (record_status_event P s k i res obs now) = t_stores s"
  "t_follow_ups (record_status_event P s k i res obs now) = t_follow_ups s"
  "t_decisions (close_current_assignment s lc t i c rs) = t_decisions s"
  "t_stores (close_current_assignment s lc t i c rs) = t_stores s"
  "t_follow_ups (close_current_assignment s lc t i c rs) = t_follow_ups s"
  by (simp_all add: record_status_event_def close_current_assignment_def Let_def put_round_def put_center_def
      split: option.splits)

lemma apply_evidence_tables:
  assumes "apply_independent_status_evidence P s lead res obs now rounds = (applied, lead', s')"
  shows "t_decisions s' = t_decisions s \<and> t_stores s' = t_stores s \<and> t_follow_ups s' = t_follow_ups s
    \<and> t_rounds s' = t_rounds s"
  using assms by (auto simp: apply_independent_status_evidence_def Let_def split: if_splits)

lemma close_lead_on_terminal_tables:
  assumes "rounds_ok (map round_sig (t_rounds s))" and s': "s' = close_lead_on_terminal P s lead now t"
  shows "t_decisions s' = t_decisions s \<and> t_stores s' = t_stores s \<and> t_follow_ups s' = t_follow_ups s
    \<and> map round_sig (t_rounds s') = map round_sig (t_rounds s)"
proof -
  obtain applied lead1 s1 where
    ap: "apply_independent_status_evidence P s lead (terminal_resolution lead now t) (terminal_observed_at lead now t) now
       (owned_rounds s lead) = (applied, lead1, s1)" by (metis prod_cases3)
  note a = apply_evidence_tables [OF ap]
  then have "get_round (snd (close_current_headquarters_pool_entry s1 k u reason st)) (r_assignment_round_id r) = Some r"
    if "r \<in> set (owned_rounds s lead)" for r k u reason st
    using owned_rounds_stored [OF that] by (simp add: get_round_def)
  with a assms(1) show ?thesis
    by (simp add: s' close_lead_on_terminal_def Let_def ap close_current_assignment_sig)
qed

lemma terminal_refresh_effect:
  assumes "refresh_terminal_evidence_for_locked_lead P s lead now g = (fenced, s')"
    and "get_lead s (l_lead_key lead) = Some lead" and "engine_inv s"
  shows "engine_inv s' \<and> lead_frame (l_lead_key lead) s s'
     \<and> (if fenced then \<exists>lead' kind. get_lead s' (l_lead_key lead) = Some lead' \<and> closed_lead kind lead' else s' = s)"
proof (cases "effective_terminal P s lead now g")
  case None
  with assms show ?thesis by (simp add: refresh_terminal_evidence_for_locked_lead_def)
next
  case (Some t)
  then obtain kind where k: "te_kind t = Some kind" "kind \<in> set terminal_kinds" using effective_terminalD by blast
  have f: "fenced" and s': "s' = close_lead_on_terminal P s lead now t"
    using Some assms(1) by (simp_all add: refresh_terminal_evidence_for_locked_lead_def)
  have inv: "pool_inv s" "rounds_ok (map round_sig (t_rounds s))" using assms(3) by (simp_all add: engine_inv_def)
  from close_lead_on_terminal_effect [OF assms(2) inv(1) k s'] obtain lead' where
    l: "get_lead s' = (get_lead s)(l_lead_key lead \<mapsto> lead')" "closed_lead kind lead'" and p: "pool_inv s'"
    and act: "get_active_headquarters_pool_entry s' = (get_active_headquarters_pool_entry s)(l_lead_key lead := None)" by blast
  note t = close_lead_on_terminal_tables [OF inv(2) s']
  have "engine_inv s'" using p t assms(3) by (simp add: engine_inv_def)
  moreover have "lead_frame (l_lead_key lead) s s'" using l act t assms(2) by (simp add: lead_frame_def)
  ultimately show ?thesis using f l by auto
qed

text \<open>What a caller may conclude from a result, in the order the engine reaches them.\<close>

definition allocation_outcome :: "db \<Rightarrow> string \<Rightarrow> allocation_result \<Rightarrow> db \<Rightarrow> bool" where
  "allocation_outcome s k res s' \<longleftrightarrow> a_lead_key res = k \<and>
     (if a_status res = ''headquarters'' then a_selected_store_id res = None \<and> in_headquarters_pool s' k
      else if a_reason res = Some ''selected''
      then a_status res = ''assigned'' \<and> (\<exists>i. a_assignment_round_id res = Some i \<and> in_store_pool s' k i)
      else if a_reason res = Some ''order_already_terminal''
      then a_status res = ''skipped'' \<and> (\<exists>lead' kind. get_lead s' k = Some lead' \<and> closed_lead kind lead')
      else s' = s \<and> a_reason res \<in> {Some ''lead_not_active'', Some ''current_self_owned_round_exists''})"

text \<open>A store a lead may be offered to: active, taking part, and never given this lead before.\<close>

definition offerable :: "db \<Rightarrow> string \<Rightarrow> string \<Rightarrow> bool" where
  "offerable s k i \<longleftrightarrow> (\<exists>st \<in> set (t_stores s). s_store_id st = i \<and> s_is_active st \<and> s_participates_in_clue_allocation st)
     \<and> i \<notin> set (historical_self_owned_store_ids s k)"

text \<open>A newly assigned lead was an active lead and keeps its order and its status.\<close>

definition newly_assigned :: "db \<Rightarrow> string \<Rightarrow> allocation_result \<Rightarrow> db \<Rightarrow> bool" where
  "newly_assigned s k res s' \<longleftrightarrow>
     (\<exists>lead i cycle t. get_lead s k = Some lead \<and> a_assignment_round_id res = Some i
        \<and> get_lead s' k = Some (store_pool_lead lead i cycle t))"

definition allocation_effect :: "db \<Rightarrow> string \<Rightarrow> allocation_result \<Rightarrow> db \<Rightarrow> bool" where
  "allocation_effect s k res s' \<longleftrightarrow> engine_inv s' \<and> lead_frame k s s' \<and> allocation_outcome s k res s'
     \<and> (a_reason res = Some ''selected'' \<and> a_status res = ''assigned'' \<and> distinct (map s_store_id (t_stores s))
        \<longrightarrow> (\<exists>i. a_selected_store_id res = Some i \<and> offerable s k i))
     \<and> (a_reason res = Some ''selected'' \<and> a_status res = ''assigned'' \<longrightarrow> newly_assigned s k res s')"

lemma headquarters_effect:
  "engine_inv s' \<and> lead_frame k s s' \<and> headquarters_post k s' res \<Longrightarrow>
     allocation_effect s k res s' \<and> (a_status res = ''headquarters'' \<or> a_reason res = Some ''selected'')"
  by (simp add: allocation_effect_def allocation_outcome_def headquarters_post_def)

lemma assigned_effect:
  assumes "engine_inv s'" "lead_frame (l_lead_key lead) s s'" and "get_lead s (l_lead_key lead) = Some lead"
    and "assigned_post P (allocation_env_of s lead b q) ks s' res"
  shows "allocation_effect s (l_lead_key lead) res s' \<and> (a_status res = ''headquarters'' \<or> a_reason res = Some ''selected'')"
proof -
  let ?n = "allocation_env_of s lead b q"
  have n: "n_lead ?n = lead" "n_stores ?n = sort_key s_store_id (t_stores s)"
    "n_historical ?n = historical_self_owned_store_ids s (l_lead_key lead)"
    by (simp_all add: allocation_env_of_def Let_def)
  from assms(4) obtain k c where c: "chosen_by P ?n k c" "a_selected_store_id res = cd_store_id c"
    by (auto simp: assigned_post_def)
  have "\<exists>i. a_selected_store_id res = Some i \<and> offerable s (l_lead_key lead) i" if "distinct (map s_store_id (t_stores s))"
  proof -
    have d: "distinct (map s_store_id (sort_key s_store_id (t_stores s)))" using that by (simp add: distinct_map)
    from strategy_selected [OF d c(1) [unfolded chosen_by_def n, THEN conjunct2]] obtain st where
      "st \<in> set (t_stores s)" "cd_store_id c = Some (s_store_id st)" "s_is_active st" "s_participates_in_clue_allocation st"
      "s_store_id st \<notin> set (historical_self_owned_store_ids s (l_lead_key lead))" by auto
    with c(2) show ?thesis by (auto simp: offerable_def)
  qed
  moreover have "newly_assigned s (l_lead_key lead) res s'"
    using assms(3,4) n by (auto simp: newly_assigned_def assigned_post_def)
  ultimately show ?thesis using assms n by (auto simp: allocation_effect_def allocation_outcome_def assigned_post_def)
qed

lemma allocate_bound_lead_effect:
  assumes a: "allocate_bound_lead P s lead b q start_after = Inr (res, s')" and inv: "engine_inv s"
    and lead: "get_lead s (l_lead_key lead) = Some lead" and mode: "q_execution_mode q \<in> set self_owned_execution_modes"
  shows "allocation_effect s (l_lead_key lead) res s' \<and> (a_status res = ''headquarters'' \<or> a_reason res = Some ''selected'')"
proof -
  let ?n = "allocation_env_of s lead b q"
  let ?ks = "strategy_configs (b_rule_version_snapshot b)"
  have n: "n_lead ?n = lead" "n_request ?n = q" "n_binding ?n = b" by (simp_all add: allocation_env_of_def Let_def)
  consider (direct) x ids where "send_to_headquarters P s lead (Some b) q x ids = Inr (res, s')" "x_assignment_round_id x = None"
    | (loop) "try_strategies P s ?n start_after = Inr (res, s')"
    using a by (auto simp: allocate_bound_lead_def Let_def split: option.splits if_splits)
  then show ?thesis
  proof cases
    case direct
    from send_to_headquarters_effect [OF direct(1) inv _ mode direct(2)] lead show ?thesis by (intro headquarters_effect) simp
  next
    case loop
    then obtain i found ids s1 where run: "run_strategies P ?n i ?ks [] s = Inr ((found, ids), s1)"
      and rest: "(case found of Some r \<Rightarrow> Inr (r, s1)
           | None \<Rightarrow> send_to_headquarters P s1 lead (Some b) q
                 (headquarters_outcome P lead (Some b) (n_sale_store ?n) (n_historical ?n)
                    ''allocation_finalization'' False None ''no_candidate'') ids) = Inr (res, s')"
      by (auto simp: try_strategies_def Let_def bind_result_Inr n cong: option.case_cong)
    have "loop_post P ?n ?ks s found s1" using run_strategies_effect [OF run inv] lead mode by (simp add: n)
    then have inv1: "engine_inv s1" and fr: "lead_frame (l_lead_key lead) s s1"
      and post: "case found of None \<Rightarrow> get_lead s1 = get_lead s | Some r \<Rightarrow> assigned_post P ?n ?ks s1 r"
      by (simp_all add: loop_post_def n)
    show ?thesis
    proof (cases found)
      case None
      with post lead have lead1: "get_lead s1 (l_lead_key lead) \<noteq> None" by simp
      from None rest have "send_to_headquarters P s1 lead (Some b) q (headquarters_outcome P lead (Some b) (n_sale_store ?n)
          (n_historical ?n) ''allocation_finalization'' False None ''no_candidate'') ids = Inr (res, s')" by simp
      note h = send_to_headquarters_effect [OF this inv1 lead1 mode headquarters_outcome_no_round]
      then show ?thesis using lead_frame_trans [OF fr] by (intro headquarters_effect) blast
    next
      case (Some r)
      then have "res = r" "s' = s1" using rest by simp_all
      then show ?thesis using assigned_effect [OF inv1 fr lead] post Some by simp
    qed
  qed
qed

lemma bind_effect:
  assumes "bind_lead_rule_version s k store city = Inr (b, s1)"
  shows "t_leads s1 = t_leads s \<and> t_entries s1 = t_entries s \<and> t_rounds s1 = t_rounds s \<and> t_decisions s1 = t_decisions s
     \<and> t_stores s1 = t_stores s \<and> t_follow_ups s1 = t_follow_ups s"
  using bind_frame [OF assms] by auto

lemma allocation_effect_after_bind:
  assumes "allocation_effect s1 k res s'" and "bind_lead_rule_version s i store city = Inr (b, s1)"
    and "a_status res = ''headquarters'' \<or> a_reason res = Some ''selected''"
  shows "allocation_effect s k res s'"
proof -
  note t = bind_effect [OF assms(2)]
  have fr: "lead_frame k s s1" using t by (simp add: lead_frame_tables)
  have h: "historical_self_owned_store_ids s1 k = historical_self_owned_store_ids s k"
    using t by (simp add: historical_self_owned_store_ids_def)
  have o: "allocation_outcome s k res s'" using assms(1,3) by (auto simp: allocation_effect_def allocation_outcome_def)
  have "offerable s1 k j = offerable s k j" for j using t by (simp add: offerable_def h)
  moreover have "newly_assigned s1 k res s' = newly_assigned s k res s'"
    using t by (simp add: newly_assigned_def get_lead_def)
  ultimately show ?thesis using assms(1) o t lead_frame_trans [OF fr] by (simp add: allocation_effect_def)
qed

lemma allocate_open_lead_effect:
  assumes a: "allocate_open_lead P s lead q start_after = Inr (res, s')" and inv: "engine_inv s"
    and lead: "get_lead s (l_lead_key lead) = Some lead" and mode: "q_execution_mode q \<in> set self_owned_execution_modes"
  shows "allocation_effect s (l_lead_key lead) res s'"
proof -
  let ?bind = "bind_lead_rule_version s (Some (l_lead_key lead)) (l_anchor_store_id lead) (l_anchor_city_code lead)"
  consider (same) "s' = s" "a_lead_key res = l_lead_key lead" "a_status res \<noteq> ''headquarters''"
      "a_reason res \<in> {Some ''lead_not_active'', Some ''current_self_owned_round_exists''}"
    | (redo) d where "project_headquarters P s lead (q_executed_at q) d = Inr s'" "res = headquarters_result lead d []"
    | (unbound) "send_to_headquarters P s lead None q (headquarters_outcome P lead None missing_sale_store_evidence []
         ''rule_version_resolution'' False None ''rule_version_unavailable'') [] = Inr (res, s')"
    | (bound) b s1 where "?bind = Inr (b, s1)" "allocate_bound_lead P s1 lead b q start_after = Inr (res, s')"
    using a
    by (auto simp: allocate_open_lead_def simple_result_def current_round_result_def bind_result_Inr
        split: if_splits option.splits sum.splits pyerr.splits prod.splits)
  then show ?thesis
  proof cases
    case same
    with inv show ?thesis by (auto simp: allocation_effect_def allocation_outcome_def)
  next
    case (redo d)
    from project_headquarters_effect [OF redo(1) inv] lead redo(2) show ?thesis
      by (intro headquarters_effect [THEN conjunct1]) (simp add: headquarters_post_def headquarters_result_def)
  next
    case unbound
    from send_to_headquarters_effect [OF this inv _ mode] lead show ?thesis
      by (intro headquarters_effect [THEN conjunct1]) simp
  next
    case (bound b s1)
    note t = bind_effect [OF bound(1)]
    have "engine_inv s1" using inv t engine_inv_cong by blast
    moreover have "get_lead s1 (l_lead_key lead) = Some lead" using lead t by (simp add: get_lead_def)
    ultimately show ?thesis
      using allocate_bound_lead_effect [OF bound(2) _ _ mode] allocation_effect_after_bind [OF _ bound(1)] by blast
  qed
qed

lemma allocate_lead_cases:
  assumes "allocate_lead P te s lead_key mode cycle actor now start_after tr override = Inr (res, s')"
  obtains k lead q fenced s1 where "clean lead_key = Some k" and "get_lead s k = Some lead"
    and "q_execution_mode q \<in> set self_owned_execution_modes"
    and "refresh_terminal_evidence_for_locked_lead P s lead now (Option.bind (l_order_id lead) (map_of te)) = (fenced, s1)"
    and "(if fenced then Inr (simple_result lead ''skipped'' ''order_already_terminal'', s1)
          else allocate_open_lead P s1 lead q start_after) = Inr (res, s')"
proof -
  from assms obtain k m lead where k: "clean lead_key = Some k" and m: "clean mode = Some m" "m \<in> set self_owned_execution_modes"
    and lead: "get_lead s k = Some lead"
    by (auto simp: allocate_lead_def bind_result_Inr engine_text_def check_def split: option.splits if_splits)
  obtain fenced s1 where
    r: "refresh_terminal_evidence_for_locked_lead P s lead now (Option.bind (l_order_id lead) (map_of te)) = (fenced, s1)"
    by (metis prod.exhaust)
  define q where "q = \<lparr>q_execution_mode = m, q_allocation_cycle_id = clean cycle,
                     q_actor = or_else (clean actor) ''manual'', q_executed_at = now,
                     q_transition_key = clean tr, q_auto_expiry_override = override\<rparr>"
  have "q_execution_mode q \<in> set self_owned_execution_modes" using m by (simp add: q_def)
  moreover have "(if fenced then Inr (simple_result lead ''skipped'' ''order_already_terminal'', s1)
          else allocate_open_lead P s1 lead q start_after) = Inr (res, s')"
    using assms k m lead r by (simp add: allocate_lead_def bind_result_Inr engine_text_def check_def Let_def q_def split: if_splits)
  ultimately show thesis using that k lead r by blast
qed

lemma allocate_lead_effect:
  assumes "allocate_lead P te s lead_key mode cycle actor now start_after tr override = Inr (res, s')" and inv: "engine_inv s"
  shows "\<exists>k. clean lead_key = Some k \<and> get_lead s k \<noteq> None \<and> allocation_effect s k res s'"
proof (rule allocate_lead_cases [OF assms(1)])
  fix k lead q fenced s1
  assume k: "clean lead_key = Some k" "get_lead s k = Some lead" and mode: "q_execution_mode q \<in> set self_owned_execution_modes"
    and ref: "refresh_terminal_evidence_for_locked_lead P s lead now (Option.bind (l_order_id lead) (map_of te)) = (fenced, s1)"
    and rest: "(if fenced then Inr (simple_result lead ''skipped'' ''order_already_terminal'', s1)
          else allocate_open_lead P s1 lead q start_after) = Inr (res, s')"
  have key: "l_lead_key lead = k" using lead_table.get_key [OF k(2)] .
  with k have lead: "get_lead s (l_lead_key lead) = Some lead" by simp
  note r = terminal_refresh_effect [OF ref lead inv]
  have "allocation_effect s k res s'"
  proof (cases fenced)
    case True
    with rest have res: "res = simple_result lead ''skipped'' ''order_already_terminal''" and s1: "s' = s1" by simp_all
    from True r key show ?thesis by (simp add: res s1 simple_result_def allocation_effect_def allocation_outcome_def)
  next
    case False
    then have "s1 = s" "allocate_open_lead P s1 lead q start_after = Inr (res, s')" using r rest by simp_all
    with allocate_open_lead_effect [of P s lead q start_after res s'] inv lead mode key show ?thesis by simp
  qed
  with k show ?thesis by blast
qed

section \<open>An example\<close>

text \<open>
  A lead bound to a version whose only enabled strategy is the city fallback, with one store in its
  city; another store had the lead before.
\<close>

definition example_binding :: clue_lead_rule_version_binding where
  "example_binding =
     \<lparr>b_lead_key = ''L1'', b_rule_version_id = ''V1'', b_scope_type = ''global'', b_scope_key = ''global'',
      b_scope_resolution_snapshot = [],
      b_rule_version_snapshot = [(''strategy_configs'', PList [PDict [(''strategy_type'', PStr ''city_fallback''),
        (''enabled'', PBool True), (''execution_order'', PInt 0), (''params'', PDict [])]])]\<rparr>"

definition example_old_round :: clue_assignment_round where
  "example_old_round = example_round\<lparr>r_assignment_round_id := ''R0'', r_assigned_store_id := Some ''S0'',
     r_round_status := ''closed_reassigned''\<rparr>"

definition example_allocation_db :: db where
  "example_allocation_db = empty_db\<lparr>t_leads := [example_lead], t_stores := [example_store], t_bindings := [example_binding],
     t_rounds := [example_old_round]\<rparr>"

definition example_open_evidence :: terminal_evidence where
  "example_open_evidence = \<lparr>te_kind = None, te_terminal_at = None, te_observed_at = None, te_source = None, te_evidence_ids = []\<rparr>"

definition example_request :: allocation_request where
  "example_request = \<lparr>q_execution_mode = ''formal'', q_allocation_cycle_id = None, q_actor = ''manual'', q_executed_at = 100,
     q_transition_key = None, q_auto_expiry_override = None\<rparr>"

lemma project_first_assignment:
  assumes "t_centers s = []"
  shows "\<exists>s'. project_self_owned_assignment s lead r c cycle t = Inr s'"
  using assms
  by (simp add: project_self_owned_assignment_def project_center_assignment_def Let_def put_lead_def get_center_def
      lock_clue_center_order_for_update_def)

lemma next_round_no_free:
  "\<not> list_ex (\<lambda>r. r_lead_key r = Some k \<and> r_execution_mode r = m \<and> r_round_no r = next_round_no s k m) (t_rounds s)"
proof -
  let ?xs = "map r_round_no (filter (\<lambda>r. r_lead_key r = Some k \<and> r_execution_mode r = m) (t_rounds s))"
  have "x < next_round_no s k m" if "x \<in> set ?xs" for x
  proof (cases "max_or_none ?xs")
    case None
    then have "?xs = []" by (simp only: max_or_none_None)
    with that show ?thesis by (simp only: list.set empty_iff)
  next
    case (Some y)
    with that max_or_none_Some [OF Some] show ?thesis unfolding next_round_no_def by fastforce
  qed
  then show ?thesis by (fastforce simp: list_ex_iff)
qed

lemma first_assignment_succeeds:
  assumes "t_decisions s = []" "t_centers s = []" "\<forall>r \<in> set (t_rounds s). \<not> engine_round_id (r_assignment_round_id r)"
    and "\<not> n_source_store_mode n"
    and "positive_int (dget (b_rule_version_snapshot (n_binding n)) ''first_follow_up_sla_hours'') 24 = Inr h"
    and "positive_int (dget (b_rule_version_snapshot (n_binding n)) ''protection_days'') 7 = Inr p"
  shows "\<exists>res s'. assign_selected P s n k cs summary c ids = Inr (res, s') \<and> a_selected_store_id res = cd_store_id c"
proof -
  have g: "get_round s (assignment_round_id P a m cy j) = None" for a m cy j
    using assms(3) assignment_round_id_engine [of P a m cy j] by (auto simp: get_round_def find_row_None)
  let ?no = "round_no_for s n k"
  let ?x = "selected_outcome P n k cs summary c
    (assignment_round_id P (l_lead_key (n_lead n)) (q_execution_mode (n_request n)) (q_allocation_cycle_id (n_request n)) ?no) ?no"
  let ?d = "new_decision P (n_lead n) (Some (n_binding n)) (n_request n) ?x"
  have d: "record_decision P s (n_lead n) (Some (n_binding n)) (n_request n) ?x
     = Inr (?d, s\<lparr>t_decisions := [?d]\<rparr>)"
    using assms(1) by (simp add: record_decision_def Let_def find_decision_def add_row_def)
  let ?r = "selected_round (n_lead n) (n_binding n) ?d c (n_request n) h p"
  have r: "ensure_selected_round (s\<lparr>t_decisions := [?d]\<rparr>) (n_lead n) (n_binding n) ?d c (n_request n)
     = Inr (?r, s\<lparr>t_decisions := [?d], t_rounds := add_row ?r (t_rounds s)\<rparr>)"
  proof -
    let ?id = "assignment_round_id P (l_lead_key (n_lead n)) (q_execution_mode (n_request n)) (q_allocation_cycle_id (n_request n)) ?no"
    have f: "d_assignment_round_id ?d = Some ?id" "d_round_no ?d = Some ?no" "d_execution_mode ?d = q_execution_mode (n_request n)"
      by (simp_all add: new_decision_def selected_outcome_def Let_def)
    then have ri: "r_assignment_round_id ?r = ?id" "r_lead_key ?r = Some (l_lead_key (n_lead n))"
      "r_execution_mode ?r = q_execution_mode (n_request n)" "r_round_no ?r = ?no" by (simp_all add: selected_round_def Let_def)
    have gd: "get_round (s\<lparr>t_decisions := [?d]\<rparr>) ?id = None" using g by (simp add: get_round_def)
    have "\<not> round_number_taken s ?r"
      using next_round_no_free [of "l_lead_key (n_lead n)" "q_execution_mode (n_request n)" s] ri assms(4)
      by (simp add: round_number_taken_def round_no_for_def)
    then have "\<not> round_number_taken (s\<lparr>t_decisions := [?d]\<rparr>) ?r" by (simp add: round_number_taken_def)
    then show ?thesis
      using f ri gd assms(5,6) assignment_round_id_engine [of P "l_lead_key (n_lead n)"]
      by (simp add: ensure_selected_round_def lock_clue_assignment_round_for_update_def truthy_def assignment_round_id_def Let_def)
  qed
  have "\<exists>s3. project_self_owned_assignment (s\<lparr>t_decisions := [?d], t_rounds := add_row ?r (t_rounds s)\<rparr>) (n_lead n) ?r c
     (q_allocation_cycle_id (n_request n)) (q_executed_at (n_request n)) = Inr s3"
    using assms by (intro project_first_assignment) simp
  then show ?thesis by (auto simp: assign_selected_def Let_def d r)
qed

lemma example_configs_of:
  "strategy_configs (b_rule_version_snapshot example_binding)
   = [\<lparr>k_strategy_type = ''city_fallback'', k_enabled = True, k_execution_order = 0, k_params = []\<rparr>,
      \<lparr>k_strategy_type = ''sales_store_priority'', k_enabled = False, k_execution_order = 1, k_params = []\<rparr>,
      \<lparr>k_strategy_type = ''nearby_city_optimization'', k_enabled = False, k_execution_order = 2, k_params = []\<rparr>]"
  by code_simp

lemma example_selected:
  "\<exists>cs reason summary c. strategy_candidates example_platform ''city_fallback'' example_lead sale [example_store] scores [''S0''] None False
     = (cs, reason, summary) \<and> selected_candidate cs = Some c \<and> cd_store_id c = Some ''S1''"
proof -
  obtain cs reason summary where r: "strategy_candidates example_platform ''city_fallback'' example_lead
      sale [example_store] scores [''S0''] None False = (cs, reason, summary)" by (metis prod_cases3)
  then have cs: "cs = fst (city_candidates example_platform example_lead [example_store] scores [''S0''] None)"
    by (simp add: strategy_candidates_def)
  have d: "distinct (map s_store_id [example_store])" by simp
  show ?thesis
  proof (cases "selected_candidate cs")
    case None
    moreover have "suitable_store example_platform example_lead [''S0''] None example_store"
      using example_store_suitable(2) by (simp add: suitable_store_def) (simp add: example_store_def)
    ultimately show ?thesis using city_none [OF d] example_store_suitable(1) by (auto simp: cs)
  next
    case (Some c)
    with strategy_selected [OF d, of example_platform "''city_fallback''" example_lead sale scores "[''S0'']" None False c] r
    show ?thesis by (auto simp: example_store_def)
  qed
qed

lemma example_open: "refresh_terminal_evidence_for_locked_lead example_platform example_allocation_db example_lead 100 None
  = (False, example_allocation_db)"
  by code_simp

lemma example_env:
  assumes "n = allocation_env_of example_allocation_db example_lead example_binding q"
  shows "n_lead n = example_lead \<and> n_binding n = example_binding \<and> n_request n = q \<and> n_stores n = [example_store]
     \<and> n_historical n = [''S0''] \<and> n_source_store_mode n = False"
proof -
  have "is_source_store_mode (b_rule_version_snapshot example_binding) = False" "clean (Some ''S0'') = Some ''S0''" by code_simp+
  then show ?thesis
    by (simp add: assms allocation_env_of_def Let_def example_allocation_db_def historical_self_owned_store_ids_def empty_db_def
        cleaned_def example_old_round_def example_round_def example_lead_def self_owned_execution_modes_def)
qed

lemma example_assigns:
  "\<exists>res s'. allocate_bound_lead example_platform example_allocation_db example_lead example_binding example_request None
     = Inr (res, s') \<and> a_status res = ''assigned'' \<and> a_reason res = Some ''selected'' \<and> a_selected_store_id res = Some ''S1''"
proof -
  let ?s = example_allocation_db
  define n where "n = allocation_env_of ?s example_lead example_binding example_request"
  note n = example_env [OF n_def]
  have reason: "is_source_store_mode (b_rule_version_snapshot example_binding) = False" "anchor_unavailable_reason example_lead = None"
     "clean (l_order_id example_lead) = Some ''O1''" by code_simp+
  have dist: "strategy_distance ''city_fallback'' [] = None" by code_simp
  obtain cs reason summary c where c: "strategy_candidates example_platform ''city_fallback'' example_lead (n_sale_store n)
     [example_store] (n_scores n) [''S0''] None False = (cs, reason, summary)" "selected_candidate cs = Some c" "cd_store_id c = Some ''S1''"
    using example_selected by blast
  have pos: "positive_int (dget (b_rule_version_snapshot example_binding) ''first_follow_up_sla_hours'') 24 = Inr 24"
    "positive_int (dget (b_rule_version_snapshot example_binding) ''protection_days'') 7 = Inr 7" by code_simp+
  have fresh: "t_decisions ?s = []" "t_centers ?s = []" "\<forall>r \<in> set (t_rounds ?s). \<not> engine_round_id (r_assignment_round_id r)"
    by (simp_all add: example_allocation_db_def empty_db_def example_old_round_def engine_round_id_def)
  let ?k = "\<lparr>k_strategy_type = ''city_fallback'', k_enabled = True, k_execution_order = 0, k_params = []\<rparr>"
  obtain res s' where a: "assign_selected example_platform ?s n ?k cs summary c [] = Inr (res, s')"
    "a_selected_store_id res = cd_store_id c"
    using first_assignment_succeeds [OF fresh, of n] pos n by metis
  then have "a_status res = ''assigned'' \<and> a_reason res = Some ''selected''"
    by (auto simp: assign_selected_def Let_def bind_result_Inr)
  with a c n dist reason show ?thesis
    by (simp add: allocate_bound_lead_def try_strategies_def start_after_order_def Let_def example_configs_of
        n_def [symmetric] clean_None)
qed

lemma example_allocates_with:
  assumes "te = [] \<or> te = [(''O1'', example_open_evidence)]"
  shows "\<exists>res s'. allocate_lead example_platform te example_allocation_db (Some ''L1'') (Some ''formal'') None None 100 None None None
     = Inr (res, s') \<and> a_status res = ''assigned'' \<and> a_reason res = Some ''selected'' \<and> a_selected_store_id res = Some ''S1''"
proof -
  let ?s = example_allocation_db
  have t: "clean (Some ''L1'') = Some ''L1''" "clean (Some ''formal'') = Some ''formal''" by code_simp+
  have l: "get_lead ?s ''L1'' = Some example_lead" "get_binding ?s ''L1'' = Some example_binding"
    "l_lead_key example_lead = ''L1''" "l_lifecycle_status example_lead = ''active''"
    "l_normalized_order_status example_lead = ''active''" "l_pool_location example_lead = None"
    "l_current_assignment_round_id example_lead = None"
    by (simp_all add: example_allocation_db_def get_lead_def get_binding_def find_row_Cons example_lead_def example_binding_def)
  have c: "current_self_owned_round ?s example_lead = None" "completed_headquarters_decision example_platform ?s k q = None" for k q
    using l by (simp_all add: current_self_owned_round_def completed_headquarters_decision_def find_decision_def
        example_allocation_db_def empty_db_def)
  have b: "bind_lead_rule_version ?s (Some ''L1'') x y = Inr (example_binding, ?s)" for x y
    using l t by (simp add: bind_lead_rule_version_def required_text_def)
  have "allocate_open_lead example_platform ?s example_lead example_request None
      = allocate_bound_lead example_platform ?s example_lead example_binding example_request None"
    by (simp add: allocate_open_lead_def l c b)
  moreover have "refresh_terminal_evidence_for_locked_lead example_platform ?s example_lead 100
      (Option.bind (l_order_id example_lead) (map_of te)) = (False, ?s)"
    using assms example_open
    by (auto simp: example_lead_def refresh_terminal_evidence_for_locked_lead_def effective_terminal_def is_terminal_def
        example_open_evidence_def)
  ultimately show ?thesis
    using example_assigns t l
    by (simp add: allocate_lead_def engine_text_def self_owned_execution_modes_def example_request_def or_else_def check_def)
qed

lemmas example_allocates = example_allocates_with [OF disjI1 [OF refl]]

lemma example_allocation_inv: "engine_inv example_allocation_db"
  by (simp add: engine_inv_def example_allocation_db_def empty_db_def pool_inv_def decisions_ok_def rounds_ok_def round_sig_def
      example_old_round_def example_round_def engine_round_id_def)

section \<open>Properties\<close>

text \<open>
  C1. Every allocation keeps the tables consistent and touches only its lead: attempt keys,
  decision ids, round ids and round numbers stay unique, rounds the engine issued stay in the engine's modes,
  a lead has at most one active headquarters entry, and no other lead, no other lead's headquarters
  entry, no store and no follow-up record changes.
\<close>

theorem allocate_lead_keeps_invariant:
  assumes "allocate_lead P te s lead_key mode cycle actor now start_after tr override = Inr (res, s')" and "engine_inv s"
  shows "engine_inv s' \<and> lead_frame (a_lead_key res) s s'"
  using allocate_lead_effect [OF assms] by (auto simp: allocation_effect_def allocation_outcome_def)

theorem allocate_lead_keeps_invariant_witness:
  "\<exists>res s'. allocate_lead example_platform [] example_allocation_db (Some ''L1'') (Some ''formal'') None None 100 None None None
     = Inr (res, s') \<and> engine_inv s' \<and> lead_frame (a_lead_key res) example_allocation_db s'"
proof -
  obtain res s' where "allocate_lead example_platform [] example_allocation_db (Some ''L1'') (Some ''formal'') None None 100
      None None None = Inr (res, s')" using example_allocates by blast
  with allocate_lead_keeps_invariant [OF this example_allocation_inv] show ?thesis by blast
qed

text \<open>
  C2. The result of an allocation tells where the lead is: a lead reported at headquarters has left
  its round and has an active headquarters entry; one newly assigned is in the store pool on the
  returned round, which exists, and has no headquarters entry; one skipped for terminal evidence is
  closed; in every other case nothing changed.
\<close>

theorem allocate_lead_result_is_true:
  assumes "allocate_lead P te s lead_key mode cycle actor now start_after tr override = Inr (res, s')" and "engine_inv s"
    and "clean lead_key = Some k"
  shows "allocation_outcome s k res s'"
  using allocate_lead_effect [OF assms(1,2)] assms(3) by (auto simp: allocation_effect_def)

theorem allocate_lead_result_is_true_witness:
  "\<exists>res s' i. allocate_lead example_platform [] example_allocation_db (Some ''L1'') (Some ''formal'') None None 100 None None None
     = Inr (res, s') \<and> a_assignment_round_id res = Some i \<and> in_store_pool s' ''L1'' i"
proof -
  obtain res s' where a: "allocate_lead example_platform [] example_allocation_db (Some ''L1'') (Some ''formal'') None None 100
      None None None = Inr (res, s')" "a_status res = ''assigned''" "a_reason res = Some ''selected''"
    using example_allocates by blast
  have "clean (Some ''L1'') = Some ''L1''" by code_simp
  from allocate_lead_result_is_true [OF a(1) example_allocation_inv this] a show ?thesis
    by (auto simp: allocation_outcome_def)
qed



lemma engine_round_id_clean:
  assumes "engine_round_id i"
  shows "clean (Some i) \<noteq> None \<and> truthy (Some i)"
proof -
  from assms obtain j where i: "i = CHR ''a'' # ''llocation-round-'' @ j"
    by (metis append.simps append_take_drop_id engine_round_id_def)
  have "\<not> is_pyspace ''a''" "utf8_width (CHR ''a'') = 1" by code_simp+
  with i show ?thesis by (simp add: clean_nonblank truthy_def del: append.simps)
qed

lemma selected_lead_was_active:
  assumes "allocate_lead P te s lead_key mode cycle actor now start_after tr override = Inr (res, s')"
    and "a_reason res = Some ''selected''" and "engine_inv s" and "get_lead s (a_lead_key res) = Some lead"
  shows "l_lifecycle_status lead = ''active'' \<and> l_normalized_order_status lead = ''active''"
proof (rule allocate_lead_cases [OF assms(1)])
  fix k lead0 q fenced s1
  assume k: "clean lead_key = Some k" "get_lead s k = Some lead0"
    and rest: "(if fenced then Inr (simple_result lead0 ''skipped'' ''order_already_terminal'', s1)
          else allocate_open_lead P s1 lead0 q start_after) = Inr (res, s')"
  have "a_lead_key res = k"
    using allocate_lead_effect [OF assms(1,3)] k by (auto simp: allocation_effect_def allocation_outcome_def)
  with k assms(4) have "lead0 = lead" by simp
  with rest assms(2) show ?thesis by (auto simp: allocate_open_lead_def simple_result_def split: if_splits)
qed

text \<open>An assigned lead that is still open stays where it is.\<close>

lemma assigned_lead_stays:
  assumes pool: "in_store_pool s k i" and lead: "get_lead s k = Some lead"
    and active: "l_lifecycle_status lead = ''active''" "l_normalized_order_status lead = ''active''"
    and open_order: "effective_terminal P s lead now (Option.bind (l_order_id lead) (map_of te)) = None"
    and args: "clean lead_key = Some k" "clean mode = Some m" "m \<in> set self_owned_execution_modes"
  shows "\<exists>r. allocate_lead P te s lead_key mode cycle actor now start_after tr override = Inr (current_round_result lead r, s)
     \<and> r_assignment_round_id r = i"
proof -
  from pool lead obtain r where r: "get_round s i = Some r" "r_execution_mode r \<in> set self_owned_execution_modes"
    and l: "l_pool_location lead = Some ''store_follow_up_pool''" "l_current_assignment_round_id lead = Some i"
    and i: "engine_round_id i" by (auto simp: in_store_pool_def)
  have "current_self_owned_round s lead = Some r"
    using l r engine_round_id_clean [OF i] by (auto simp: current_self_owned_round_def lock_clue_assignment_round_for_update_def)
  then have "allocate_open_lead P s lead q start_after = Inr (current_round_result lead r, s)" for q
    using active l by (simp add: allocate_open_lead_def)
  then have "allocate_lead P te s lead_key mode cycle actor now start_after tr override = Inr (current_round_result lead r, s)"
    using args lead open_order
    by (simp add: allocate_lead_def engine_text_def check_def Let_def refresh_terminal_evidence_for_locked_lead_def)
  with round_table.get_key [OF r(1)] show ?thesis by blast
qed

text \<open>
  C6. Allocation is idempotent: after an allocation has assigned a lead, allocating it again, in
  any mode and with any arguments, while its order has no terminal evidence, returns the same round
  and changes nothing.
\<close>

theorem allocation_is_idempotent:
  assumes "allocate_lead P te s lead_key mode cycle actor now start_after tr override = Inr (res, s')" and "engine_inv s"
    and "a_status res = ''assigned''" and "a_reason res = Some ''selected''"
    and "get_lead s' (a_lead_key res) = Some lead'"
    and "effective_terminal P s' lead' now' (Option.bind (l_order_id lead') (map_of te')) = None"
    and "clean mode' = Some m" and "m \<in> set self_owned_execution_modes"
  shows "\<exists>res'. allocate_lead P te' s' lead_key mode' cycle' actor' now' start_after' tr' override' = Inr (res', s')
     \<and> a_status res' = ''assigned'' \<and> a_assignment_round_id res' = a_assignment_round_id res"
proof -
  from allocate_lead_effect [OF assms(1,2)] obtain k where k: "clean lead_key = Some k" and e: "allocation_effect s k res s'"
    by blast
  then have key: "a_lead_key res = k" and post: "newly_assigned s k res s'" and out: "allocation_outcome s k res s'"
    using assms(3,4) by (auto simp: allocation_effect_def allocation_outcome_def)
  from out assms(3,4) obtain i where i: "a_assignment_round_id res = Some i" "in_store_pool s' k i"
    by (auto simp: allocation_outcome_def)
  from post i assms(5) key obtain lead cy t where lead: "get_lead s k = Some lead" "lead' = store_pool_lead lead i cy t"
    by (auto simp: newly_assigned_def)
  have "l_lifecycle_status lead' = ''active''" "l_normalized_order_status lead' = ''active''"
    using selected_lead_was_active [OF assms(1,4,2), of lead] lead key by (simp_all add: store_pool_lead_def)
  from assigned_lead_stays [OF i(2) _ this assms(6) k assms(7,8)] assms(5) key i show ?thesis
    by (fastforce simp: current_round_result_def)
qed

theorem allocation_is_idempotent_witness:
  "\<exists>res s' res'. allocate_lead example_platform [] example_allocation_db (Some ''L1'') (Some ''formal'') None None 100 None None None
       = Inr (res, s')
     \<and> allocate_lead example_platform [(''O1'', example_open_evidence)] s' (Some ''L1'') (Some ''trial'') None None 200 None None None
       = Inr (res', s') \<and> a_assignment_round_id res' = a_assignment_round_id res"
proof -
  obtain res s' where a: "allocate_lead example_platform [] example_allocation_db (Some ''L1'') (Some ''formal'') None None 100
      None None None = Inr (res, s')" "a_status res = ''assigned''" "a_reason res = Some ''selected''"
    using example_allocates by blast
  have t: "clean (Some ''L1'') = Some ''L1''" "clean (Some ''trial'') = Some ''trial''" by code_simp+
  from allocate_lead_effect [OF a(1) example_allocation_inv] t a obtain lead i cy u where
    l: "a_lead_key res = ''L1''" "get_lead example_allocation_db ''L1'' = Some lead" "get_lead s' ''L1'' = Some (store_pool_lead lead i cy u)"
    by (auto simp: allocation_effect_def allocation_outcome_def newly_assigned_def)
  then have "lead = example_lead"
    by (simp add: example_allocation_db_def get_lead_def find_row_Cons example_lead_def)
  then have e: "effective_terminal example_platform s' (store_pool_lead lead i cy u) 200
      (Option.bind (l_order_id (store_pool_lead lead i cy u)) (map_of [(''O1'', example_open_evidence)])) = None"
    by (simp add: effective_terminal_def is_terminal_def store_pool_lead_def example_lead_def example_open_evidence_def)
  have "''trial'' \<in> set self_owned_execution_modes" by (simp add: self_owned_execution_modes_def)
  from allocation_is_idempotent [OF a(1) example_allocation_inv a(2,3) _ e t(2) this] l a(1) show ?thesis by fastforce
qed

section \<open>Batches\<close>

lemma engine_texts_Inr: "engine_texts vs = Inr ts \<Longrightarrow> map clean vs = map Some ts"
  by (induction vs arbitrary: ts) (auto simp: bind_result_Inr engine_text_def split: option.splits)

text \<open>The contract of an operation that serves one lead: it keeps an invariant and touches no other lead.\<close>

locale lead_operation =
  fixes serve :: "db \<Rightarrow> string \<Rightarrow> (allocation_result \<times> db) result" and consistent :: "db \<Rightarrow> bool"
  assumes serve_one: "serve s k = Inr (r, s') \<Longrightarrow> consistent s \<Longrightarrow> clean (Some k) = Some k \<Longrightarrow>
      consistent s' \<and> a_lead_key r = k \<and> (\<forall>j. j \<noteq> k \<longrightarrow> get_lead s' j = get_lead s j)"
begin

lemma serve_in_order:
  assumes "allocate_in_order serve iks s = Inr (rs, s')" and "consistent s" and "\<forall>k \<in> snd ` set iks. clean (Some k) = Some k"
  shows "consistent s' \<and> map (\<lambda>(i, r). (i, a_lead_key r)) rs = iks
     \<and> (\<forall>j. j \<notin> snd ` set iks \<longrightarrow> get_lead s' j = get_lead s j)"
  using assms
proof (induction iks arbitrary: s rs)
  case Nil
  then show ?case by simp
next
  case (Cons ik iks)
  obtain i k where ik: "ik = (i, k)" by (cases ik)
  from Cons.prems(1) obtain r s1 rs' where a: "serve s k = Inr (r, s1)" and rest: "allocate_in_order serve iks s1 = Inr (rs', s')"
    and rs: "rs = (i, r) # rs'" by (auto simp: ik bind_result_Inr)
  have 1: "consistent s1 \<and> a_lead_key r = k \<and> (\<forall>j. j \<noteq> k \<longrightarrow> get_lead s1 j = get_lead s j)"
    using serve_one [OF a Cons.prems(2)] Cons.prems(3) by (simp add: ik)
  then have "consistent s' \<and> map (\<lambda>(i, r). (i, a_lead_key r)) rs' = iks
      \<and> (\<forall>j. j \<notin> snd ` set iks \<longrightarrow> get_lead s' j = get_lead s1 j)"
    using Cons.IH [OF rest] Cons.prems(3) by simp
  with 1 show ?case by (simp add: ik rs)
qed

end

interpretation batch: lead_operation
  "\<lambda>s k. allocate_lead P te s (Some k) mode cycle actor now start_after tr override" engine_inv
  for P te mode cycle actor now start_after tr override
proof
  fix s k r s'
  assume a: "allocate_lead P te s (Some k) mode cycle actor now start_after tr override = Inr (r, s')" "engine_inv s"
    and k: "clean (Some k) = Some k"
  from allocate_lead_effect [OF a] k show "engine_inv s' \<and> a_lead_key r = k \<and> (\<forall>j. j \<noteq> k \<longrightarrow> get_lead s' j = get_lead s j)"
    by (auto simp: allocation_effect_def allocation_outcome_def lead_frame_def)
qed

text \<open>Reading results back by request index undoes the reordering.\<close>

lemma results_by_index:
  assumes "mset (map (\<lambda>(i, r). (i, f r)) rs) = mset (zip [0..<length keys] keys)"
  shows "map (\<lambda>i. f (the (map_of rs i))) [0..<length keys] = keys"
proof (rule nth_equalityI)
  show "length (map (\<lambda>i. f (the (map_of rs i))) [0..<length keys]) = length keys" by simp
next
  fix i
  assume "i < length (map (\<lambda>i. f (the (map_of rs i))) [0..<length keys])"
  then have i: "i < length keys" by simp
  have set: "(\<lambda>(i, r). (i, f r)) ` set rs = set (zip [0..<length keys] keys)"
    using arg_cong [OF assms, of set_mset] by simp
  have "mset (map fst rs) = mset [0..<length keys]"
    using arg_cong [OF assms, of "image_mset fst"] by (simp add: case_prod_beta o_def flip: mset_map)
  then have d: "distinct (map fst rs)" by (metis distinct_upt mset_eq_imp_distinct_iff)
  have "(i, keys ! i) \<in> set (zip [0..<length keys] keys)" using i by (auto simp: set_zip intro!: exI [of _ i])
  with set obtain r where "(i, r) \<in> set rs" "f r = keys ! i" by force
  then show "map (\<lambda>i. f (the (map_of rs i))) [0..<length keys] ! i = keys ! i" using d i by simp
qed

lemma allocate_leads_cases:
  assumes "allocate_leads P s lead_keys mode cycle actor now override = Inr (rs, s')"
  obtains keys te out where "map clean lead_keys = map Some keys" and "\<forall>k \<in> set keys. get_lead s k \<noteq> None"
    and "allocate_in_order (\<lambda>st k. allocate_lead P te st (Some k) mode cycle actor now None None override)
           (sort_key snd (zip [0..<length keys] keys)) s = Inr (out, s')"
    and "rs = map (\<lambda>i. the (map_of out i)) [0..<length keys]"
proof -
  from assms obtain keys where t: "engine_texts lead_keys = Inr keys" and g: "\<forall>k \<in> set keys. get_lead s k \<noteq> None"
    by (auto simp: allocate_leads_def bind_result_Inr list_all_iff)
  from assms t g obtain te out where
    "allocate_in_order (\<lambda>st k. allocate_lead P te st (Some k) mode cycle actor now None None override)
       (sort_key snd (zip [0..<length keys] keys)) s = Inr (out, s')"
    "rs = map (\<lambda>i. the (map_of out i)) [0..<length keys]"
    by (auto simp: allocate_leads_def bind_result_Inr Let_def)
  with that [OF engine_texts_Inr [OF t] g] show thesis by blast
qed

text \<open>
  A batch answers every request: the results come in the order of the requests, one per key and
  for that key, although the leads are served in key order; the tables stay consistent, every key
  names an existing lead, and leads outside the batch are unchanged.
\<close>

theorem allocate_leads_answers_every_request:
  assumes "allocate_leads P s lead_keys mode cycle actor now override = Inr (rs, s')" and "engine_inv s"
  shows "map (Some \<circ> a_lead_key) rs = map clean lead_keys \<and> engine_inv s'
     \<and> (\<forall>r \<in> set rs. get_lead s (a_lead_key r) \<noteq> None)
     \<and> (\<forall>j. Some j \<notin> clean ` set lead_keys \<longrightarrow> get_lead s' j = get_lead s j)"
proof (rule allocate_leads_cases [OF assms(1)])
  fix keys te out
  assume k: "map clean lead_keys = map Some keys" and g: "\<forall>k \<in> set keys. get_lead s k \<noteq> None"
    and run: "allocate_in_order (\<lambda>st k. allocate_lead P te st (Some k) mode cycle actor now None None override)
           (sort_key snd (zip [0..<length keys] keys)) s = Inr (out, s')"
    and rs: "rs = map (\<lambda>i. the (map_of out i)) [0..<length keys]"
  have ks: "clean ` set lead_keys = Some ` set keys" using arg_cong [OF k, of set] by simp
  have sset: "snd ` set (sort_key snd (zip [0..<length keys] keys)) = set keys"
    by (metis length_upt list.set_map map_snd_zip minus_nat.diff_0 set_sort)
  have "clean (Some x) = Some x" if "x \<in> set keys" for x using ks that by (metis clean_idem imageE imageI)
  then have "\<forall>x \<in> snd ` set (sort_key snd (zip [0..<length keys] keys)). clean (Some x) = Some x" using sset by blast
  note b = batch.serve_in_order [OF run assms(2) this]
  have "mset (map (\<lambda>(i, r). (i, a_lead_key r)) out) = mset (zip [0..<length keys] keys)" using b by simp
  from results_by_index [OF this] have "map a_lead_key rs = keys" by (simp add: rs o_def)
  then show ?thesis using b g k ks sset by (auto simp flip: map_map)
qed

lemma example_batch_evidence:
  "load_terminal_evidence example_platform example_allocation_db [''O1''] 100 = [(''O1'', example_open_evidence)]"
  by code_simp

theorem allocate_leads_answers_every_request_witness:
  "\<exists>r s'. allocate_leads example_platform example_allocation_db [Some '' L1''] (Some ''formal'') None None 100 None = Inr ([r], s')
     \<and> a_lead_key r = ''L1'' \<and> engine_inv s'"
proof -
  let ?s = example_allocation_db
  obtain r s' where a: "allocate_lead example_platform [(''O1'', example_open_evidence)] ?s (Some ''L1'') (Some ''formal'')
      None None 100 None None None = Inr (r, s')" using example_allocates_with by blast
  have t: "clean (Some '' L1'') = Some ''L1''" by code_simp
  have l: "get_lead ?s ''L1'' = Some example_lead" "l_order_id example_lead = Some ''O1''" "truthy (l_order_id example_lead)"
    by (simp_all add: example_allocation_db_def get_lead_def find_row_Cons example_lead_def truthy_def)
  have run: "allocate_leads example_platform ?s [Some '' L1''] (Some ''formal'') None None 100 None = Inr ([r], s')"
    using a t l example_batch_evidence
    by (simp add: allocate_leads_def engine_text_def check_def Let_def)
  from allocate_leads_answers_every_request [OF run example_allocation_inv] run t show ?thesis by simp
qed

text \<open>
  C39. Reasons the engine gives itself when an anchor is unusable are not all known to the
  headquarters pool: a lead without an anchor store or with invalid coordinates is filed under
  \<open>data_inconsistency\<close>, not under the codes for an unmapped store or an invalid location; only the
  missing poi and the missing city code reach their own code.
\<close>

theorem anchor_reasons_lost_in_pool:
  assumes "\<not> truthy (l_anchor_unavailable_reason lead)" and "anchor_unavailable_reason lead = Some reason"
  shows "canonical_headquarters_pool_reason (Some reason) =
     (if clean (l_anchor_poi_id lead) = None then ''missing_follow_poi''
      else if clean (l_anchor_store_id lead) = None then ''data_inconsistency''
      else if \<not> truthy (normalize_city_code (l_anchor_city_code lead)) then ''anchor_geo_invalid''
      else ''data_inconsistency'')"
proof -
  have "canonical_headquarters_pool_reason (Some ''follow_poi_missing'') = ''missing_follow_poi''"
    "canonical_headquarters_pool_reason (Some ''anchor_store_missing'') = ''data_inconsistency''"
    "canonical_headquarters_pool_reason (Some ''anchor_city_code_missing'') = ''anchor_geo_invalid''"
    "canonical_headquarters_pool_reason (Some ''anchor_coordinates_unavailable'') = ''data_inconsistency''" by code_simp+
  with assms show ?thesis by (auto simp: anchor_unavailable_reason_def split: if_splits)
qed

theorem anchor_reasons_lost_in_pool_witness:
  "anchor_unavailable_reason (example_lead\<lparr>l_anchor_store_id := None\<rparr>) = Some ''anchor_store_missing''
     \<and> canonical_headquarters_pool_reason (Some ''anchor_store_missing'') = ''data_inconsistency''"
proof -
  let ?l = "example_lead\<lparr>l_anchor_store_id := None\<rparr>"
  have p: "clean (l_anchor_poi_id ?l) \<noteq> None" "clean (l_anchor_store_id ?l) = None"
    "\<not> truthy (l_anchor_unavailable_reason ?l)" by code_simp+
  then have "anchor_unavailable_reason ?l = Some ''anchor_store_missing''" by (simp add: anchor_unavailable_reason_def)
  with anchor_reasons_lost_in_pool [OF p(3) this] p(1,2) show ?thesis by simp
qed

end
