(* ===== verification/FollowUp.thy ===== *)
theory FollowUp
  imports AllocationEngine
begin

text \<open>
  Following up an assigned lead, from \<open>apps/worker/clue_follow_up_state.py\<close> and
  \<open>src/dy_data/clue_access.py\<close>: who may act on a round, recording an action, the due
  transitions that take a round away, reversing a record, and revealing a phone number.
\<close>

section \<open>Access\<close>

text \<open>The text of an actor's field, as \<open>str(value or "").strip()\<close> reads it.\<close>

definition actor_text :: "platform \<Rightarrow> pydict \<Rightarrow> string \<Rightarrow> string" where
  "actor_text P actor k = py_strip (py_str (py_repr P) (py_or (dget actor k) (PStr [])))"

definition can_access_clue_store :: "platform \<Rightarrow> pydict \<Rightarrow> string option \<Rightarrow> bool" where
  "can_access_clue_store P actor store_id =
     (let role = actor_text P actor ''role''; target = py_strip (or_else store_id [])
      in if role \<notin> {''admin'', ''highest_admin'', ''store''} \<or> target = [] then False
         else let scope_mode = (if dget actor ''auth_type'' = PStr ''env_admin'' \<and> py_truth (dget actor ''is_highest_admin'')
                                then PStr ''all'' else dget actor ''store_scope_mode'')
              in if scope_mode = PStr ''all'' then role \<in> {''admin'', ''highest_admin''}
                 else if scope_mode \<noteq> PStr ''specified'' then False
                 else case dget actor ''store_ids'' of
                        PList ids \<Rightarrow> target \<in> set (map (\<lambda>v. py_strip (py_str (py_repr P) v)) (filter (\<lambda>v. v \<noteq> PNone) ids))
                      | _ \<Rightarrow> False)"

section \<open>Vocabulary\<close>

definition business_execution_mode :: string where
  "business_execution_mode = ''formal''"

definition follow_up_actions :: "string list" where
  "follow_up_actions = [''appointment'', ''further_follow_up'', ''lost'', ''unreachable'', ''request_store_change'']"

definition protection_actions :: "string list" where
  "protection_actions = [''appointment'', ''further_follow_up'', ''unreachable'']"

definition active_round_statuses :: "string list" where
  "active_round_statuses = [''active_unfollowed'', ''active_followed'']"

definition terminal_order_statuses :: "string list" where
  "terminal_order_statuses = [''verified'', ''refunded'', ''closed'']"

record follow_up_state_result =
  fs_status :: string
  fs_record :: "clue_follow_up_record option"
  fs_assignment_round_id :: "string option"

definition refused :: "string \<Rightarrow> follow_up_state_result" where
  "refused status = \<lparr>fs_status = status, fs_record = None, fs_assignment_round_id = None\<rparr>"

section \<open>The current round of a lead\<close>

definition actor_can_operate_round :: "platform \<Rightarrow> clue_assignment_round \<Rightarrow> pydict \<Rightarrow> bool" where
  "actor_can_operate_round P r actor = can_access_clue_store P actor (r_assigned_store_id r)"

definition is_current_self_owned_round :: "clue_master_lead \<Rightarrow> clue_assignment_round \<Rightarrow> bool" where
  "is_current_self_owned_round lead r \<longleftrightarrow>
     r_execution_mode r = business_execution_mode
     \<and> l_current_assignment_round_id lead = Some (r_assignment_round_id r)"

definition is_current_active_round :: "clue_master_lead \<Rightarrow> clue_assignment_round \<Rightarrow> bool" where
  "is_current_active_round lead r \<longleftrightarrow>
     is_current_self_owned_round lead r \<and> l_lifecycle_status lead = ''active''
     \<and> l_normalized_order_status lead = ''active'' \<and> l_pool_location lead = Some ''store_follow_up_pool''
     \<and> r_round_status r \<in> set active_round_statuses"

definition locked_round_state :: "db \<Rightarrow> string \<Rightarrow> clue_assignment_round option \<times> clue_master_lead option" where
  "locked_round_state s round_id =
     (case get_round s round_id of
        None \<Rightarrow> (None, None)
      | Some r \<Rightarrow> (Some r, if truthy (r_lead_key r) then get_lead s (the (r_lead_key r)) else None))"

section \<open>Projections onto the order centre\<close>

text \<open>The centre follows a round only while it shows that round.\<close>

definition with_center_of ::
  "db \<Rightarrow> clue_assignment_round \<Rightarrow> (clue_center_order \<Rightarrow> clue_center_order) \<Rightarrow> db" where
  "with_center_of s r f =
     (case get_center s (r_order_id r) of
        None \<Rightarrow> s
      | Some c \<Rightarrow> (if c_current_assignment_round_id c = Some (r_assignment_round_id r) then put_center (f c) s else s))"

definition project_current_round_summary :: "db \<Rightarrow> clue_assignment_round \<Rightarrow> instant \<Rightarrow> db" where
  "project_current_round_summary s r now =
     with_center_of s r (\<lambda>c. c\<lparr>c_follow_result := r_follow_result r, c_is_followed := r_is_followed r,
       c_is_follow_success := r_is_follow_success r, c_current_round_status := r_round_status r,
       c_lead_status := ''active'', c_reassign_reason := None, c_updated_at := now\<rparr>)"

definition project_closed_round :: "db \<Rightarrow> clue_assignment_round \<Rightarrow> string \<Rightarrow> instant \<Rightarrow> db" where
  "project_closed_round s r reason now =
     with_center_of s r (\<lambda>c. c\<lparr>c_follow_result := r_follow_result r, c_is_followed := r_is_followed r,
       c_is_follow_success := False, c_current_round_status := r_round_status r,
       c_lead_status := ''pending_reassign'', c_reassign_reason := Some reason, c_updated_at := now\<rparr>)"

section \<open>Closing a round\<close>

definition reason_by_cause :: "(string \<times> string) list" where
  "reason_by_cause =
     [(''lost'', ''follow_lost''), (''request_store_change'', ''request_store_change''),
      (''sla_expired'', ''first_sla_expired''), (''protection_expired'', ''protection_expired'')]"

definition reassigned_round :: "clue_assignment_round \<Rightarrow> string \<Rightarrow> instant \<Rightarrow> clue_assignment_round" where
  "reassigned_round r cause now =
     (let reason = the (map_of reason_by_cause cause); acted = cause \<in> set follow_up_actions;
          followed_at = (if acted then Some now else r_followed_at r)
      in r\<lparr>r_followed_at := followed_at,
           r_follow_result := (if acted then cause else r_follow_result r),
           r_is_followed := (followed_at \<noteq> None), r_is_follow_success := False,
           r_round_status := ''closed_reassigned'', r_terminal_reason := Some reason,
           r_reassign_reason := Some reason, r_reassigned_at := Some now, r_matured_at := Some now,
           r_updated_at := now\<rparr>)"

definition released_lead :: "clue_master_lead \<Rightarrow> instant \<Rightarrow> clue_master_lead" where
  "released_lead lead now =
     lead\<lparr>l_current_assignment_round_id := None, l_pool_location := None,
          l_allocation_state := ''pending_reassign'', l_updated_at := now\<rparr>"

definition close_for_reassignment ::
  "db \<Rightarrow> clue_master_lead \<Rightarrow> clue_assignment_round \<Rightarrow> string \<Rightarrow> instant \<Rightarrow> db" where
  "close_for_reassignment s lead r cause now =
     (let r' = reassigned_round r cause now
      in project_closed_round (put_lead (released_lead lead now) (put_round r' s)) r'
           (the (map_of reason_by_cause cause)) now)"

definition terminal_round :: "clue_master_lead \<Rightarrow> clue_assignment_round \<Rightarrow> instant \<Rightarrow> clue_assignment_round" where
  "terminal_round lead r now =
     (let verified = (l_normalized_order_status lead = ''verified'');
          refunded = (l_normalized_order_status lead = ''refunded'')
      in r\<lparr>r_round_status := (if verified then ''closed_order_verified'' else if refunded then ''closed_order_refunded''
                              else ''closed_order_closed''),
           r_terminal_reason := Some (if verified then ''order_verified'' else if refunded then ''order_refunded''
                              else ''order_closed''),
           r_matured_at := Some (case l_closed_at lead of Some t \<Rightarrow> t | None \<Rightarrow> now), r_updated_at := now\<rparr>)"

definition terminal_lead :: "clue_master_lead \<Rightarrow> clue_assignment_round \<Rightarrow> instant \<Rightarrow> clue_master_lead" where
  "terminal_lead lead r' now =
     lead\<lparr>l_lifecycle_status := (if l_normalized_order_status lead = ''verified'' then ''closed_verified''
             else if l_normalized_order_status lead = ''refunded'' then ''closed_refunded'' else ''closed_order''),
          l_pool_location := Some ''closed'', l_allocation_state := ''closed'', l_current_assignment_round_id := None,
          l_closed_at := Some (case l_closed_at lead of Some t \<Rightarrow> t | None \<Rightarrow> now),
          l_closed_reason := r_terminal_reason r', l_updated_at := now\<rparr>"

definition close_for_terminal_order :: "db \<Rightarrow> clue_master_lead \<Rightarrow> clue_assignment_round \<Rightarrow> instant \<Rightarrow> db" where
  "close_for_terminal_order s lead r now =
     (let r' = terminal_round lead r now
      in with_center_of (put_lead (terminal_lead lead r' now) (put_round r' s)) r'
           (\<lambda>c. c\<lparr>c_lead_status := (if l_normalized_order_status lead = ''verified'' then ''converted''
                    else if l_normalized_order_status lead = ''refunded'' then ''refunded'' else ''closed''),
                 c_current_round_status := r_round_status r', c_reassign_reason := r_terminal_reason r',
                 c_updated_at := now\<rparr>))"

section \<open>The visible summary of a round\<close>

definition protection_days_of :: "clue_assignment_round \<Rightarrow> int" where
  "protection_days_of r = (case r_protection_days r of None \<Rightarrow> 7 | Some d \<Rightarrow> if d = 0 then 7 else d)"

definition visible_summary :: "clue_assignment_round \<Rightarrow> string \<Rightarrow> instant \<Rightarrow> clue_assignment_round" where
  "visible_summary r action now =
     (let r1 = r\<lparr>r_followed_at := Some now, r_follow_result := action, r_is_followed := True,
                 r_is_follow_success := (action \<in> set protection_actions), r_round_status := ''active_followed'',
                 r_updated_at := now\<rparr>
      in if action \<in> set protection_actions \<and> r_protection_started_at r = None
         then r1\<lparr>r_protection_started_at := Some now, r_protection_expires_at := Some (now + days (protection_days_of r))\<rparr>
         else r1)"

text \<open>The records of a round that still count, in the order they were made.\<close>

definition live_records :: "db \<Rightarrow> string \<Rightarrow> clue_follow_up_record list" where
  "live_records s round_id =
     sort_key (\<lambda>f. (f_created_at f, f_follow_up_record_id f))
       (filter (\<lambda>f. f_assignment_round_id f = round_id \<and> f_deleted_at f = None) (t_follow_ups s))"

definition unfollowed_round :: "clue_assignment_round \<Rightarrow> clue_assignment_round" where
  "unfollowed_round r =
     r\<lparr>r_followed_at := None, r_follow_result := ''pending'', r_is_followed := False, r_is_follow_success := False,
       r_round_status := ''active_unfollowed''\<rparr>"

definition active_summary ::
  "clue_assignment_round \<Rightarrow> clue_follow_up_record list \<Rightarrow> clue_assignment_round" where
  "active_summary r records =
     (if records = [] then
        (unfollowed_round r)\<lparr>r_protection_started_at := None, r_protection_expires_at := None\<rparr>
      else
        (let latest = last records;
             r1 = r\<lparr>r_followed_at := Some (f_created_at latest), r_follow_result := f_follow_result latest,
                    r_is_followed := True, r_is_follow_success := (f_follow_result latest \<in> set protection_actions),
                    r_round_status := ''active_followed''\<rparr>
         in case find (\<lambda>f. f_follow_result f \<in> set protection_actions) records of
              None \<Rightarrow> r1\<lparr>r_protection_started_at := None, r_protection_expires_at := None\<rparr>
            | Some f \<Rightarrow> r1\<lparr>r_protection_started_at := Some (f_created_at f),
                           r_protection_expires_at := Some (f_created_at f + days (protection_days_of r))\<rparr>))"

definition recalculate_active_round_summary :: "db \<Rightarrow> clue_assignment_round \<Rightarrow> instant \<Rightarrow> db" where
  "recalculate_active_round_summary s r now =
     (let r' = (active_summary r (live_records s (r_assignment_round_id r)))\<lparr>r_updated_at := now\<rparr>
      in project_current_round_summary (put_round r' s) r' now)"

definition detached_summary ::
  "clue_assignment_round \<Rightarrow> clue_follow_up_record list \<Rightarrow> clue_assignment_round" where
  "detached_summary r records =
     (if records = [] then (unfollowed_round r)\<lparr>r_reassign_reason := None\<rparr>
      else
        (let latest = last records; result = f_follow_result latest
         in r\<lparr>r_followed_at := Some (f_created_at latest), r_follow_result := result, r_is_followed := True,
              r_is_follow_success := (result \<in> set protection_actions \<or> result = ''success''),
              r_round_status := (if result \<in> {''lost'', ''request_store_change''} then ''failed_pending_reassign''
                                 else ''active_followed''),
              r_reassign_reason := (if result = ''lost'' then Some ''follow_lost''
                                    else if result = ''request_store_change'' then Some ''request_store_change''
                                    else None)\<rparr>))"

definition recalculate_detached_round_summary :: "db \<Rightarrow> clue_assignment_round \<Rightarrow> instant \<Rightarrow> db" where
  "recalculate_detached_round_summary s r now =
     (if r_round_status r \<notin> set active_round_statuses then s
      else
        (let r' = (detached_summary r (live_records s (r_assignment_round_id r)))\<lparr>r_updated_at := now\<rparr>
         in with_center_of (put_round r' s) r' (\<lambda>c. c\<lparr>c_follow_result := r_follow_result r',
              c_is_followed := r_is_followed r', c_is_follow_success := r_is_follow_success r',
              c_current_round_status := r_round_status r',
              c_lead_status := (if r_round_status r' = ''failed_pending_reassign'' then ''pending_reassign'' else ''active''),
              c_reassign_reason := r_reassign_reason r', c_updated_at := now\<rparr>)))"

section \<open>Operations\<close>

definition new_follow_up ::
  "platform \<Rightarrow> string \<Rightarrow> clue_assignment_round \<Rightarrow> string \<Rightarrow> string \<Rightarrow> pydict \<Rightarrow> string option \<Rightarrow> instant
   \<Rightarrow> clue_follow_up_record" where
  "new_follow_up P uid r order_id action actor note now =
     \<lparr>f_follow_up_record_id = uid, f_order_id = order_id, f_assignment_round_id = r_assignment_round_id r,
      f_round_no = r_round_no r, f_assigned_store_id = r_assigned_store_id r, f_follow_result = action,
      f_note = clean note, f_operator_user_id = clean (Some (actor_text P actor ''user_id'')),
      f_operator_username = clean (Some (actor_text P actor ''username'')), f_created_at = now, f_deleted_at = None,
      f_deleted_by_user_id = None, f_deleted_by_username = None, f_deletion_reason = None\<rparr>"

definition add_follow_up :: "clue_follow_up_record \<Rightarrow> db \<Rightarrow> db result" where
  "add_follow_up f s =
     (if get_follow_up s (f_follow_up_record_id f) \<noteq> None then Inl (IntegrityError ''clue_follow_up_records'')
      else Inr (s\<lparr>t_follow_ups := add_row f (t_follow_ups s)\<rparr>))"

text \<open>Recording an action once every guard has passed.\<close>

definition record_action ::
  "platform \<Rightarrow> db \<Rightarrow> clue_master_lead \<Rightarrow> clue_assignment_round \<Rightarrow> clue_follow_up_record \<Rightarrow> instant
   \<Rightarrow> (follow_up_state_result \<times> db) result" where
  "record_action P s lead r f now =
     bind_result (add_follow_up f s) (\<lambda>s1.
       if f_follow_result f \<in> {''lost'', ''request_store_change''} then
         Inr (\<lparr>fs_status = ''ok'', fs_record = Some f, fs_assignment_round_id = None\<rparr>,
              close_for_reassignment s1 lead r (f_follow_result f) now)
       else
         (let r' = visible_summary r (f_follow_result f) now
          in Inr (\<lparr>fs_status = ''ok'', fs_record = Some f, fs_assignment_round_id = Some (r_assignment_round_id r)\<rparr>,
                  project_current_round_summary (put_round r' s1) r' now)))"

definition apply_follow_up_action ::
  "platform \<Rightarrow> db \<Rightarrow> string \<Rightarrow> string \<Rightarrow> string \<Rightarrow> string option \<Rightarrow> pydict \<Rightarrow> string option \<Rightarrow> instant
   \<Rightarrow> (follow_up_state_result \<times> db) result" where
  "apply_follow_up_action P s uid order_id round_id follow_result actor note now =
     (let action = py_strip (or_else follow_result [])
      in if action \<notin> set follow_up_actions then Inr (refused ''conflict'', s)
         else case locked_round_state s round_id of
           (None, _) \<Rightarrow> Inr (refused ''not_found'', s)
         | (Some r, None) \<Rightarrow> Inr (refused (if r_order_id r \<noteq> order_id then ''not_found'' else ''conflict''), s)
         | (Some r, Some lead) \<Rightarrow>
             (if r_order_id r \<noteq> order_id then Inr (refused ''not_found'', s)
              else if \<not> actor_can_operate_round P r actor then Inr (refused ''forbidden'', s)
              else let (fenced, s1) = refresh_terminal_evidence_for_locked_lead P s lead now None
                   in if fenced then Inr (refused ''conflict'', s1)
                      else if l_normalized_order_status lead \<in> set terminal_order_statuses then
                        Inr (refused ''conflict'',
                             if is_current_self_owned_round lead r then close_for_terminal_order s1 lead r now else s1)
                      else if \<not> is_current_active_round lead r then Inr (refused ''conflict'', s1)
                      else record_action P s1 lead r (new_follow_up P uid r order_id action actor note now) now))"

record due_stats =
  ds_sla_expired :: nat
  ds_protection_expired :: nat
  ds_terminal_closed :: nat

definition due_transition ::
  "platform \<Rightarrow> (string \<times> terminal_evidence) list \<Rightarrow> instant \<Rightarrow> string \<Rightarrow> due_stats \<times> db \<Rightarrow> due_stats \<times> db" where
  "due_transition P terminal_by_order now round_id = (\<lambda>(stats, s).
     case locked_round_state s round_id of
       (Some r, Some lead) \<Rightarrow>
         (if \<not> is_current_self_owned_round lead r then (stats, s)
          else let (fenced, s1) = refresh_terminal_evidence_for_locked_lead P s lead now (map_of terminal_by_order (r_order_id r));
                   sla = if_none (r_first_sla_expires_at r) (r_expires_at r)
               in if fenced then (stats\<lparr>ds_terminal_closed := ds_terminal_closed stats + 1\<rparr>, s1)
                  else if l_normalized_order_status lead \<in> set terminal_order_statuses then
                    (stats\<lparr>ds_terminal_closed := ds_terminal_closed stats + 1\<rparr>, close_for_terminal_order s1 lead r now)
                  else if \<not> is_current_active_round lead r then (stats, s1)
                  else if r_auto_expiry_enabled r \<noteq> Some True then (stats, s1)
                  else if \<not> r_is_followed r \<and> (case sla of None \<Rightarrow> False | Some t \<Rightarrow> t \<le> now) then
                    (stats\<lparr>ds_sla_expired := ds_sla_expired stats + 1\<rparr>, close_for_reassignment s1 lead r ''sla_expired'' now)
                  else if (case r_protection_expires_at r of None \<Rightarrow> False | Some t \<Rightarrow> t \<le> now) then
                    (stats\<lparr>ds_protection_expired := ds_protection_expired stats + 1\<rparr>,
                     close_for_reassignment s1 lead r ''protection_expired'' now)
                  else (stats, s1))
     | _ \<Rightarrow> (stats, s))"

definition active_formal_rounds :: "db \<Rightarrow> clue_assignment_round list" where
  "active_formal_rounds s =
     sort_key (\<lambda>r. (r_lead_key r = None, or_else (r_lead_key r) [], r_assignment_round_id r))
       (filter (\<lambda>r. r_execution_mode r = business_execution_mode \<and> r_round_status r \<in> set active_round_statuses) (t_rounds s))"

definition process_due_transitions :: "platform \<Rightarrow> db \<Rightarrow> instant \<Rightarrow> due_stats \<times> db" where
  "process_due_transitions P s now =
     (let refs = active_formal_rounds s;
          terminal_by_order = load_terminal_evidence P s (map r_order_id refs) now
      in fold (due_transition P terminal_by_order now) (map r_assignment_round_id refs)
           (\<lparr>ds_sla_expired = 0, ds_protection_expired = 0, ds_terminal_closed = 0\<rparr>, s))"

definition soft_delete_follow_up_record ::
  "platform \<Rightarrow> db \<Rightarrow> string \<Rightarrow> pydict \<Rightarrow> string option \<Rightarrow> instant \<Rightarrow> follow_up_state_result \<times> db" where
  "soft_delete_follow_up_record P s record_id actor reason now =
     (if actor_text P actor ''role'' \<notin> {''admin'', ''highest_admin''} then (refused ''forbidden'', s)
      else case get_follow_up s record_id of
        None \<Rightarrow> (refused ''not_found'', s)
      | Some f \<Rightarrow>
          (case locked_round_state s (f_assignment_round_id f) of
             (None, _) \<Rightarrow> (refused ''not_found'', s)
           | (Some r, lead) \<Rightarrow>
               (if \<not> can_access_clue_store P actor (r_assigned_store_id r) then (refused ''not_found'', s)
                else if r_execution_mode r \<noteq> business_execution_mode then (refused ''conflict'', s)
                else if f_deleted_at f \<noteq> None then (refused ''conflict'', s)
                else let f' = f\<lparr>f_deleted_at := Some now, f_deleted_by_user_id := clean (Some (actor_text P actor ''user_id'')),
                               f_deleted_by_username := clean (Some (actor_text P actor ''username'')),
                               f_deletion_reason := clean reason\<rparr>;
                         s1 = put_follow_up f' s;
                         s2 = (if (case lead of None \<Rightarrow> False | Some l \<Rightarrow> is_current_active_round l r)
                               then recalculate_active_round_summary s1 r now
                               else recalculate_detached_round_summary s1 r now)
                     in (\<lparr>fs_status = ''ok'', fs_record = Some f', fs_assignment_round_id = Some (r_assignment_round_id r)\<rparr>, s2))))"

definition can_reveal_current_order_phone :: "platform \<Rightarrow> db \<Rightarrow> string \<Rightarrow> pydict \<Rightarrow> bool" where
  "can_reveal_current_order_phone P s order_id actor =
     (case get_center s order_id of
        None \<Rightarrow> False
      | Some c \<Rightarrow>
          (if \<not> truthy (c_current_assignment_round_id c) then False
           else case locked_round_state s (the (c_current_assignment_round_id c)) of
                  (Some r, Some lead) \<Rightarrow> is_current_active_round lead r \<and> actor_can_operate_round P r actor
                | _ \<Rightarrow> False))"

section \<open>What follow-up never touches\<close>

text \<open>The identity of a round: what no follow-up operation rewrites.\<close>

definition round_core :: "clue_assignment_round \<Rightarrow> string \<times> string option \<times> string \<times> int \<times> string \<times> string option" where
  "round_core r = (r_assignment_round_id r, r_lead_key r, r_execution_mode r, r_round_no r, r_order_id r, r_assigned_store_id r)"

lemma round_sig_core: "round_core r' = round_core r \<Longrightarrow> round_sig r' = round_sig r"
  by (simp add: round_core_def round_sig_def)

lemma round_core_simps [simp]:
  "round_core (visible_summary r action now) = round_core r"
  "round_core (unfollowed_round r) = round_core r"
  "round_core (active_summary r records) = round_core r"
  "round_core (detached_summary r records) = round_core r"
  "round_core (reassigned_round r cause now) = round_core r"
  "round_core (terminal_round lead r now) = round_core r"
  "round_core (r\<lparr>r_updated_at := now\<rparr>) = round_core r"
  by (simp_all add: round_core_def visible_summary_def unfollowed_round_def active_summary_def detached_summary_def
      reassigned_round_def terminal_round_def Let_def split: option.splits)

lemma round_core_id: "round_core r' = round_core r \<Longrightarrow> r_assignment_round_id r' = r_assignment_round_id r"
  by (simp add: round_core_def)

lemma round_ids_distinct: "engine_inv s \<Longrightarrow> distinct (map r_assignment_round_id (t_rounds s))"
  by (simp add: engine_inv_def rounds_ok_def round_sig_def o_def)

lemma put_round_map:
  assumes "distinct (map r_assignment_round_id (t_rounds s))" and "get_round s (r_assignment_round_id r) = Some r"
    and "r_assignment_round_id r' = r_assignment_round_id r" and "f r' = f r"
  shows "map f (t_rounds (put_round r' s)) = map f (t_rounds s)"
proof -
  have "x = r" if "x \<in> set (t_rounds s)" "r_assignment_round_id x = r_assignment_round_id r" for x
    using find_row_distinct [OF assms(1) that(1)] assms(2) that(2) by (simp add: get_round_def)
  then show ?thesis using assms(3,4) by (auto simp: put_round_def upd_row_def)
qed

lemma with_center_of_tables [simp]:
  "t_leads (with_center_of s r f) = t_leads s" "t_rounds (with_center_of s r f) = t_rounds s"
  "t_entries (with_center_of s r f) = t_entries s" "t_decisions (with_center_of s r f) = t_decisions s"
  "t_follow_ups (with_center_of s r f) = t_follow_ups s" "t_stores (with_center_of s r f) = t_stores s"
  "t_bindings (with_center_of s r f) = t_bindings s"
  by (simp_all add: with_center_of_def put_center_def split: option.splits)

lemma put_round_tables [simp]:
  "t_leads (put_round r s) = t_leads s" "t_entries (put_round r s) = t_entries s" "t_decisions (put_round r s) = t_decisions s"
  "t_follow_ups (put_round r s) = t_follow_ups s" "t_stores (put_round r s) = t_stores s"
  "t_bindings (put_round r s) = t_bindings s" "t_bindings (put_lead l s) = t_bindings s"
  by (simp_all add: put_round_def put_lead_def)

lemma put_follow_up_tables [simp]:
  "t_leads (put_follow_up f s) = t_leads s" "t_rounds (put_follow_up f s) = t_rounds s"
  "t_entries (put_follow_up f s) = t_entries s" "t_decisions (put_follow_up f s) = t_decisions s"
  by (simp_all add: put_follow_up_def)

text \<open>
  The effect of one operation on rounds and leads: identities stay, and a row that changes is the
  round or the lead of the operation.
\<close>

definition round_write :: "string \<Rightarrow> clue_assignment_round \<Rightarrow> db \<Rightarrow> db \<Rightarrow> bool" where
  "round_write i r' s s' \<longleftrightarrow> t_entries s' = t_entries s \<and> t_decisions s' = t_decisions s
     \<and> map round_core (t_rounds s') = map round_core (t_rounds s) \<and> get_round s' = (get_round s)(i \<mapsto> r')"

lemma round_writeI:
  assumes "engine_inv s" and "get_round s (r_assignment_round_id r) = Some r" and "round_core r' = round_core r"
    and "t_rounds s' = t_rounds (put_round r' s)" and "t_entries s' = t_entries s" and "t_decisions s' = t_decisions s"
  shows "round_write (r_assignment_round_id r) r' s s'"
proof -
  note id = round_core_id [OF assms(3)]
  have "get_round s' j = get_round (put_round r' s) j" for j using assms(4) by (simp add: get_round_def)
  then have "get_round s' = (get_round s)(r_assignment_round_id r \<mapsto> r')"
    using round_table.get_put [of r' s] assms(2) id by (auto simp: fun_eq_iff)
  moreover have "map round_core (t_rounds s') = map round_core (t_rounds s)"
    using put_round_map [OF round_ids_distinct [OF assms(1)] assms(2) id assms(3)] assms(4) by simp
  ultimately show ?thesis using assms(5,6) by (simp add: round_write_def)
qed

lemma map_round_sig_core:
  assumes "map round_core xs = map round_core ys"
  shows "map round_sig xs = map round_sig ys"
proof -
  have sig: "map round_sig zs = map (\<lambda>(i, k, m, n, _). (i, k, m, n)) (map round_core zs)" for zs
    by (simp add: round_sig_def round_core_def)
  show ?thesis by (simp only: sig [of xs] sig [of ys] assms)
qed

lemma engine_inv_core:
  assumes "engine_inv s" and "pool_inv s'" and "t_decisions s' = t_decisions s"
    and "map round_core (t_rounds s') = map round_core (t_rounds s)"
  shows "engine_inv s'"
  using assms map_round_sig_core [OF assms(4)] by (simp add: engine_inv_def)

lemma round_write_engine_inv: "round_write i r' s s' \<Longrightarrow> engine_inv s \<Longrightarrow> engine_inv s'"
  using engine_inv_core [of s s'] pool_frame(1) [of s' s] by (simp add: round_write_def engine_inv_def)

text \<open>Every round keeps its identity and either stays as it is or moves as \<open>Q\<close> allows.\<close>

definition round_moves :: "(clue_assignment_round \<Rightarrow> clue_assignment_round \<Rightarrow> bool) \<Rightarrow> db \<Rightarrow> db \<Rightarrow> bool" where
  "round_moves Q s s' \<longleftrightarrow>
     list_all2 (\<lambda>x y. round_core y = round_core x \<and> (y = x \<or> Q x y)) (t_rounds s) (t_rounds s')"

lemma round_moves_same: "t_rounds s' = t_rounds s \<Longrightarrow> round_moves Q s s'"
  by (simp add: round_moves_def list.rel_refl)

lemma round_moves_core: "round_moves Q s s' \<Longrightarrow> map round_core (t_rounds s') = map round_core (t_rounds s)"
  by (auto simp: round_moves_def list_all2_conv_all_nth intro: nth_equalityI)

lemma round_moves_mono: "round_moves Q s s' \<Longrightarrow> (\<And>x y. Q x y \<Longrightarrow> Q' x y) \<Longrightarrow> round_moves Q' s s'"
  by (auto simp: round_moves_def elim: list_all2_mono)

lemma round_moves_trans:
  assumes "round_moves Q s s'" and "round_moves Q s' s''" and "\<And>x y z. Q x y \<Longrightarrow> Q y z \<Longrightarrow> Q x z"
  shows "round_moves Q s s''"
proof -
  let ?R = "\<lambda>x y. round_core y = round_core x \<and> (y = x \<or> Q x y)"
  have t: "?R x z" if "?R x y" "?R y z" for x y z using that assms(3) by (elim conjE disjE) auto
  note a = assms(1) [unfolded round_moves_def] and b = assms(2) [unfolded round_moves_def]
  note l = list_all2_lengthD [OF a] list_all2_lengthD [OF b]
  have "?R (t_rounds s ! i) (t_rounds s'' ! i)" if "i < length (t_rounds s)" for i
    by (rule t [OF list_all2_nthD [OF a that] list_all2_nthD [OF b]]) (use l that in simp)
  then show ?thesis unfolding round_moves_def using l by (intro list_all2_all_nthI) simp_all
qed

lemma round_moves_get:
  assumes "round_moves Q s s'"
  shows "get_round s' j = get_round s j
     \<or> (\<exists>r r'. get_round s j = Some r \<and> get_round s' j = Some r' \<and> round_core r' = round_core r \<and> Q r r')"
proof -
  have "find_row r_assignment_round_id j ys = find_row r_assignment_round_id j xs
     \<or> (\<exists>r r'. find_row r_assignment_round_id j xs = Some r \<and> find_row r_assignment_round_id j ys = Some r'
          \<and> round_core r' = round_core r \<and> Q r r')"
    if "list_all2 (\<lambda>x y. round_core y = round_core x \<and> (y = x \<or> Q x y)) xs ys" for xs ys
    using that by (induction rule: list_all2_induct) (auto simp: find_row_Cons dest: round_core_id)
  with assms show ?thesis by (simp add: round_moves_def get_round_def)
qed

lemma put_round_moves:
  assumes "distinct (map r_assignment_round_id (t_rounds s))" and "get_round s (r_assignment_round_id r) = Some r" and "round_core r' = round_core r" and "Q r r'"
    and "t_rounds s' = t_rounds (put_round r' s)"
  shows "round_moves Q s s'"
proof -
  have r: "t_rounds s ! i = r" if "i < length (t_rounds s)" "r_assignment_round_id (t_rounds s ! i) = r_assignment_round_id r" for i
    using find_row_distinct [OF assms(1) nth_mem [OF that(1)]] assms(2) that(2)
    by (simp add: get_round_def)
  show ?thesis using assms(3-5) round_core_id [OF assms(3)]
    by (auto simp: round_moves_def put_round_def upd_row_def list_all2_conv_all_nth r)
qed

text \<open>A round that stops being followed up keeps the record of how it was followed.\<close>

definition ends :: "clue_assignment_round \<Rightarrow> clue_assignment_round \<Rightarrow> bool" where
  "ends r r' \<longleftrightarrow> r_round_status r' \<notin> set active_round_statuses
     \<and> (r_is_followed r' = (r_followed_at r' \<noteq> None) \<or> (r_is_followed r' = r_is_followed r \<and> r_followed_at r' = r_followed_at r))"

lemma ends_trans: "ends x y \<Longrightarrow> ends y z \<Longrightarrow> ends x z"
  by (auto simp: ends_def)

lemma ends_moves_trans: "round_moves ends s s' \<Longrightarrow> round_moves ends s' s'' \<Longrightarrow> round_moves ends s s''"
  by (rule round_moves_trans) (auto intro: ends_trans)

lemma terminal_round_status_closed: "terminal_round_status lc \<notin> set active_round_statuses"
  by (simp add: terminal_round_status_def active_round_statuses_def)

lemma ends_simps [simp]:
  "ends r (reassigned_round r cause now)" "ends r (terminal_round lead r now)"
  "ends r (r\<lparr>r_round_status := terminal_round_status lc, r_terminal_reason := a, r_matured_at := b, r_updated_at := c\<rparr>)"
  by (simp_all add: ends_def reassigned_round_def terminal_round_def Let_def active_round_statuses_def terminal_round_status_closed)
    (simp add: terminal_round_status_def)

lemma close_current_assignment_moves:
  assumes "distinct (map r_assignment_round_id (t_rounds s))" and "\<And>r. r \<in> set rs \<Longrightarrow> get_round s (r_assignment_round_id r) = Some r"
  shows "round_moves ends s (close_current_assignment s lc t i c rs)"
proof -
  let ?s' = "close_current_assignment s lc t i c rs"
  let ?ended = "\<lambda>r. r\<lparr>r_round_status := terminal_round_status lc, r_terminal_reason := Some (terminal_reason lc),
       r_matured_at := Some t, r_updated_at := t\<rparr>"
  have "t_rounds ?s' = t_rounds s \<or> (\<exists>r \<in> set rs. t_rounds ?s' = t_rounds (put_round (?ended r) s))"
    by (auto simp: close_current_assignment_def Let_def put_center_def dest: find_row_Some split: option.splits)
  then show ?thesis
  proof
    assume "t_rounds ?s' = t_rounds s"
    then show ?thesis by (rule round_moves_same)
  next
    assume "\<exists>r \<in> set rs. t_rounds ?s' = t_rounds (put_round (?ended r) s)"
    then obtain r where "r \<in> set rs" "t_rounds ?s' = t_rounds (put_round (?ended r) s)" by blast
    then show ?thesis by (intro put_round_moves [OF assms(1) assms(2), of r]) (simp_all add: round_core_def)
  qed
qed

lemma refresh_moves:
  assumes "refresh_terminal_evidence_for_locked_lead P s lead now g = (fenced, s')" and "engine_inv s"
  shows "round_moves ends s s'"
proof (cases "effective_terminal P s lead now g")
  case None
  with assms(1) show ?thesis by (simp add: refresh_terminal_evidence_for_locked_lead_def round_moves_same)
next
  case (Some t)
  then have s': "s' = close_lead_on_terminal P s lead now t"
    using assms(1) by (simp add: refresh_terminal_evidence_for_locked_lead_def)
  obtain applied lead1 s1 where
    ap: "apply_independent_status_evidence P s lead (terminal_resolution lead now t) (terminal_observed_at lead now t) now
       (owned_rounds s lead) = (applied, lead1, s1)" by (metis prod_cases3)
  let ?at = "case l_closed_at lead1 of Some x \<Rightarrow> x | None \<Rightarrow> now"
  define s2 where "s2 = snd (close_current_headquarters_pool_entry s1 (l_lead_key lead) ?at
                 (or_else (l_closed_reason lead1) ''order_closed'') ''closed'')"
  have r1: "t_rounds s1 = t_rounds s" using apply_evidence_tables [OF ap] by simp
  then have r2: "t_rounds s2 = t_rounds s" by (simp add: s2_def)
  have "get_round s2 (r_assignment_round_id r) = Some r" if "r \<in> set (owned_rounds s lead)" for r
    using owned_rounds_stored [OF that] r2 by (simp add: get_round_def)
  then have "round_moves ends s2 (close_current_assignment s2 (l_lifecycle_status lead1) ?at (l_current_assignment_round_id lead1)
      (lock_clue_center_order_for_update s (l_order_id lead)) (owned_rounds s lead))"
    using round_ids_distinct [OF assms(2)] r2 by (intro close_current_assignment_moves) simp_all
  moreover have "s' = s1 \<or> s' = close_current_assignment s2 (l_lifecycle_status lead1) ?at (l_current_assignment_round_id lead1)
      (lock_clue_center_order_for_update s (l_order_id lead)) (owned_rounds s lead)"
    by (simp add: s' close_lead_on_terminal_def Let_def ap s2_def)
  ultimately show ?thesis using r1 r2 by (auto simp: round_moves_def list.rel_refl)
qed

section \<open>Closing a round\<close>

definition closes_round :: "db \<Rightarrow> string \<Rightarrow> string \<Rightarrow> clue_assignment_round \<Rightarrow> clue_master_lead \<Rightarrow> db \<Rightarrow> bool" where
  "closes_round s i k r' lead' s' \<longleftrightarrow> engine_inv s' \<and> round_moves ends s s'
     \<and> get_round s' i = Some r' \<and> get_lead s' = (get_lead s)(k \<mapsto> lead') \<and> t_entries s' = t_entries s
     \<and> t_follow_ups s' = t_follow_ups s \<and> t_stores s' = t_stores s"

lemma closes_roundI:
  assumes inv: "engine_inv s" and r: "get_round s (r_assignment_round_id r) = Some r"
    and lead: "get_lead s (l_lead_key lead') \<noteq> None" and core: "round_core r' = round_core r" and e: "ends r r'"
    and s': "t_rounds s' = t_rounds (put_round r' s)" "t_leads s' = upd_row l_lead_key lead' (t_leads s)"
      "t_entries s' = t_entries s" "t_decisions s' = t_decisions s" "t_follow_ups s' = t_follow_ups s" "t_stores s' = t_stores s"
  shows "closes_round s (r_assignment_round_id r) (l_lead_key lead') r' lead' s'"
proof -
  note w = round_writeI [OF inv r core s'(1,3,4)]
  have "round_moves ends s s'" using put_round_moves [of s r r' ends s'] round_ids_distinct [OF inv] r core e s'(1) by simp
  moreover have "get_lead s' = (get_lead s)(l_lead_key lead' \<mapsto> lead')"
    using lead by (auto simp: fun_eq_iff get_lead_def s'(2) find_row_upd)
  ultimately show ?thesis
    using round_write_engine_inv [OF w inv] w s' by (simp add: closes_round_def round_write_def)
qed

lemma close_for_reassignment_closes:
  assumes "engine_inv s" and "get_round s (r_assignment_round_id r) = Some r" and "get_lead s (l_lead_key lead) = Some lead"
  shows "closes_round s (r_assignment_round_id r) (l_lead_key lead) (reassigned_round r cause now) (released_lead lead now)
    (close_for_reassignment s lead r cause now)"
proof -
  have k: "l_lead_key (released_lead lead now) = l_lead_key lead" by (simp add: released_lead_def)
  show ?thesis
    unfolding k [symmetric] using assms k
    by (intro closes_roundI) (simp_all add: close_for_reassignment_def project_closed_round_def Let_def)
qed

lemma close_for_terminal_order_closes:
  assumes "engine_inv s" and "get_round s (r_assignment_round_id r) = Some r" and "get_lead s (l_lead_key lead) = Some lead"
  shows "closes_round s (r_assignment_round_id r) (l_lead_key lead) (terminal_round lead r now)
    (terminal_lead lead (terminal_round lead r now) now) (close_for_terminal_order s lead r now)"
proof -
  have k: "l_lead_key (terminal_lead lead r' now) = l_lead_key lead" for r' by (simp add: terminal_lead_def)
  show ?thesis
    unfolding k [symmetric, of "terminal_round lead r now"] using assms k
    by (intro closes_roundI) (simp_all add: close_for_terminal_order_def Let_def)
qed

section \<open>Due transitions\<close>

text \<open>A round a lead is being followed up on, and one whose time has run out.\<close>

definition followed_up :: "db \<Rightarrow> string \<Rightarrow> clue_assignment_round \<Rightarrow> clue_master_lead \<Rightarrow> bool" where
  "followed_up s i r lead \<longleftrightarrow> locked_round_state s i = (Some r, Some lead) \<and> is_current_active_round lead r"

definition expired :: "instant \<Rightarrow> clue_assignment_round \<Rightarrow> bool" where
  "expired now r \<longleftrightarrow> r_auto_expiry_enabled r = Some True
     \<and> ((\<not> r_is_followed r \<and> (case if_none (r_first_sla_expires_at r) (r_expires_at r) of None \<Rightarrow> False | Some t \<Rightarrow> t \<le> now))
        \<or> (case r_protection_expires_at r of None \<Rightarrow> False | Some t \<Rightarrow> t \<le> now))"

definition overdue :: "db \<Rightarrow> instant \<Rightarrow> string \<Rightarrow> bool" where
  "overdue s now i \<longleftrightarrow> (\<exists>r lead. followed_up s i r lead \<and> expired now r)"

lemma locked_round_state_Some:
  "locked_round_state s i = (Some r, Some lead) \<longleftrightarrow>
     get_round s i = Some r \<and> truthy (r_lead_key r) \<and> get_lead s (the (r_lead_key r)) = Some lead"
  by (auto simp: locked_round_state_def split: option.splits if_splits)

lemma locked_keys:
  assumes "locked_round_state s i = (Some r, Some lead)"
  shows "r_assignment_round_id r = i \<and> r_lead_key r = Some (l_lead_key lead)
     \<and> get_round s (r_assignment_round_id r) = Some r \<and> get_lead s (l_lead_key lead) = Some lead"
  using assms round_table.get_key [of s i r] lead_table.get_key [of s "the (r_lead_key r)" lead]
  by (cases "r_lead_key r") (auto simp: locked_round_state_Some)

text \<open>What one due transition may do: nothing, or end rounds and take the lead out of the store pool.\<close>

definition due_effect :: "db \<Rightarrow> string \<Rightarrow> db \<Rightarrow> bool" where
  "due_effect s k s' \<longleftrightarrow> engine_inv s' \<and> round_moves ends s s' \<and> t_follow_ups s' = t_follow_ups s
     \<and> (\<exists>lead'. get_lead s' = (get_lead s)(k \<mapsto> lead') \<and> (\<forall>r. \<not> is_current_active_round lead' r))"

lemma closes_due_effect:
  assumes "closes_round s i k r' lead' s'" and "l_current_assignment_round_id lead' = None"
  shows "due_effect s k s'"
proof -
  have "\<not> is_current_active_round lead' r" for r
    using assms(2) by (simp add: is_current_active_round_def is_current_self_owned_round_def)
  with assms(1) show ?thesis unfolding due_effect_def closes_round_def by blast
qed

lemma refresh_due_effect:
  assumes ref: "refresh_terminal_evidence_for_locked_lead P s lead now g = (True, s')" and inv: "engine_inv s"
    and lead: "get_lead s (l_lead_key lead) = Some lead"
  shows "due_effect s (l_lead_key lead) s'"
proof -
  note r = terminal_refresh_effect [OF ref lead inv]
  then obtain lead' kind where l: "get_lead s' (l_lead_key lead) = Some lead'" "closed_lead kind lead'" by auto
  have "get_lead s' = (get_lead s)(l_lead_key lead \<mapsto> lead')"
    using l r by (auto simp: lead_frame_def fun_eq_iff)
  moreover have "\<not> is_current_active_round lead' x" for x
    using l(2) by (simp add: closed_lead_def is_current_active_round_def)
  ultimately show ?thesis
    using r refresh_moves [OF ref inv] unfolding due_effect_def by (auto simp: lead_frame_def)
qed

lemma due_effect_overdue:
  assumes "due_effect s k s'" and "overdue s' now j"
  shows "overdue s now j \<and> (\<forall>r lead. locked_round_state s j = (Some r, Some lead) \<longrightarrow> l_lead_key lead \<noteq> k)"
proof -
  from assms(2) obtain r lead where f: "locked_round_state s' j = (Some r, Some lead)" "is_current_active_round lead r"
    and e: "expired now r" by (auto simp: overdue_def followed_up_def)
  from assms(1) obtain lead' where l: "get_lead s' = (get_lead s)(k \<mapsto> lead')" "\<forall>r. \<not> is_current_active_round lead' r"
    and m: "round_moves ends s s'" by (auto simp: due_effect_def)
  have "r_round_status r \<in> set active_round_statuses" using f(2) by (simp add: is_current_active_round_def)
  then have g: "get_round s j = Some r"
    using round_moves_get [OF m, of j] f(1) by (auto simp: locked_round_state_Some ends_def)
  have "the (r_lead_key r) \<noteq> k" using f l by (auto simp: locked_round_state_Some)
  then have st: "locked_round_state s j = (Some r, Some lead)" using f(1) g l(1) by (simp add: locked_round_state_Some)
  moreover have "l_lead_key lead \<noteq> k" using locked_keys [OF st] \<open>the (r_lead_key r) \<noteq> k\<close> by simp
  ultimately show ?thesis using f(2) e by (auto simp: overdue_def followed_up_def)
qed

lemma due_transition_cases:
  assumes d: "due_transition P te now i (stats, s) = (stats', s')" and inv: "engine_inv s"
  shows "(s' = s \<and> \<not> overdue s now i)
     \<or> (\<exists>r lead. locked_round_state s i = (Some r, Some lead) \<and> due_effect s (l_lead_key lead) s')"
proof (cases "\<exists>r lead. locked_round_state s i = (Some r, Some lead) \<and> is_current_self_owned_round lead r")
  case False
  then have "s' = s" using d by (auto simp: due_transition_def split: option.splits prod.splits if_splits)
  moreover have "\<not> overdue s now i" using False by (auto simp: overdue_def followed_up_def is_current_active_round_def)
  ultimately show ?thesis by blast
next
  case True
  then obtain r lead where l: "locked_round_state s i = (Some r, Some lead)" and own: "is_current_self_owned_round lead r" by blast
  note k = locked_keys [OF l]
  obtain fenced s1 where ref: "refresh_terminal_evidence_for_locked_lead P s lead now (map_of te (r_order_id r)) = (fenced, s1)"
    by (metis prod.exhaust)
  show ?thesis
  proof (cases fenced)
    case True
    then have "s' = s1" using d l own ref by (simp add: due_transition_def Let_def)
    with True ref refresh_due_effect [of P s lead now _ s1] inv k l show ?thesis by auto
  next
    case False
    then have s1: "s1 = s" using terminal_refresh_effect [OF ref] k inv by simp
    have re: "due_effect s (l_lead_key lead) (close_for_reassignment s lead r cause now)" for cause
      using close_for_reassignment_closes [OF inv, of r lead cause now] k
      by (intro closes_due_effect [where lead' = "released_lead lead now"]) (auto simp: released_lead_def)
    have te: "due_effect s (l_lead_key lead) (close_for_terminal_order s lead r now)"
      using close_for_terminal_order_closes [OF inv, of r lead now] k
      by (intro closes_due_effect [where lead' = "terminal_lead lead (terminal_round lead r now) now"])
        (auto simp: terminal_lead_def)
    have "s' = s \<and> \<not> (is_current_active_round lead r \<and> expired now r)
       \<or> s' = close_for_terminal_order s lead r now \<or> (\<exists>cause. s' = close_for_reassignment s lead r cause now)"
      using d l own ref False s1
      by (auto simp: due_transition_def Let_def expired_def split: if_splits)
    moreover have "\<not> overdue s now i" if "\<not> (is_current_active_round lead r \<and> expired now r)"
      using that l by (auto simp: overdue_def followed_up_def)
    ultimately show ?thesis using re te l by blast
  qed
qed

lemma due_transition_effect:
  assumes "due_transition P te now i (stats, s) = (stats', s')" and "engine_inv s"
  shows "engine_inv s' \<and> round_moves ends s s' \<and> t_follow_ups s' = t_follow_ups s
     \<and> (\<forall>j. overdue s' now j \<longrightarrow> overdue s now j \<and> j \<noteq> i)"
proof -
  consider (same) "s' = s" "\<not> overdue s now i"
    | (moved) r lead where "locked_round_state s i = (Some r, Some lead)" "due_effect s (l_lead_key lead) s'"
    using due_transition_cases [OF assms] by blast
  then show ?thesis
  proof cases
    case same
    then show ?thesis using assms(2) by (auto simp: round_moves_same)
  next
    case moved
    have "j \<noteq> i" if "overdue s' now j" for j using due_effect_overdue [OF moved(2) that] moved(1) by auto
    with moved(2) due_effect_overdue [OF moved(2)] show ?thesis by (auto simp: due_effect_def)
  qed
qed

lemma due_transitions_effect:
  assumes "fold (due_transition P te now) ids (stats, s) = (stats', s')" and "engine_inv s"
  shows "engine_inv s' \<and> round_moves ends s s' \<and> t_follow_ups s' = t_follow_ups s
     \<and> (\<forall>j. overdue s' now j \<longrightarrow> overdue s now j \<and> j \<notin> set ids)"
  using assms
proof (induction ids arbitrary: stats s)
  case Nil
  then show ?case by (auto simp: round_moves_same)
next
  case (Cons i ids)
  obtain stats1 s1 where st: "due_transition P te now i (stats, s) = (stats1, s1)" by (metis prod.exhaust)
  note e = due_transition_effect [OF st Cons.prems(2)]
  then have "engine_inv s' \<and> round_moves ends s1 s' \<and> t_follow_ups s' = t_follow_ups s1
     \<and> (\<forall>j. overdue s' now j \<longrightarrow> overdue s1 now j \<and> j \<notin> set ids)"
    using Cons.IH [of stats1 s1] Cons.prems(1) st by simp
  with e ends_moves_trans [of s s1 s'] show ?case by auto
qed

text \<open>
  C13. Processing due transitions leaves nothing overdue: afterwards no lead is still followed up on a
  formal round whose first deadline passed without a follow-up, or whose protection ended, with
  automatic expiry on. It only ends rounds: every round keeps its identity and store, rounds that
  changed are no longer active, and no follow-up record is written.
\<close>

theorem due_transitions_leave_nothing_overdue:
  assumes "process_due_transitions P s now = (stats, s')" and "engine_inv s"
  shows "(\<forall>i. \<not> overdue s' now i) \<and> engine_inv s' \<and> round_moves ends s s' \<and> t_follow_ups s' = t_follow_ups s"
proof -
  let ?ids = "map r_assignment_round_id (active_formal_rounds s)"
  have fold: "fold (due_transition P (load_terminal_evidence P s (map r_order_id (active_formal_rounds s)) now) now) ?ids
      (\<lparr>ds_sla_expired = 0, ds_protection_expired = 0, ds_terminal_closed = 0\<rparr>, s) = (stats, s')"
    using assms(1) by (simp add: process_due_transitions_def Let_def)
  note e = due_transitions_effect [OF fold assms(2)]
  have "j \<in> set ?ids" if "overdue s now j" for j
  proof -
    from that obtain r lead where f: "locked_round_state s j = (Some r, Some lead)" "is_current_active_round lead r"
      by (auto simp: overdue_def followed_up_def)
    then have "r \<in> set (active_formal_rounds s)" "r_assignment_round_id r = j"
      using locked_keys [OF f(1)]
      by (auto simp: active_formal_rounds_def is_current_active_round_def is_current_self_owned_round_def get_round_def
          dest: find_row_Some)
    then show ?thesis by auto
  qed
  with e show ?thesis by blast
qed

theorem due_transitions_leave_nothing_overdue_witness:
  "let s = empty_db\<lparr>t_leads := [example_assigned_lead], t_rounds := [example_round]\<rparr>;
       (stats, s') = process_due_transitions example_platform s (days 2)
   in overdue s (days 2) ''R1'' \<and> \<not> overdue s' (days 2) ''R1'' \<and> engine_inv s'"
proof -
  let ?s = "empty_db\<lparr>t_leads := [example_assigned_lead], t_rounds := [example_round]\<rparr>"
  have inv: "engine_inv ?s"
    by (simp add: engine_inv_def pool_inv_def decisions_ok_def rounds_ok_def empty_db_def round_sig_def example_round_def
        engine_round_id_def)
  obtain stats s' where p: "process_due_transitions example_platform ?s (days 2) = (stats, s')" by (metis prod.exhaust)
  have "locked_round_state ?s ''R1'' = (Some example_round, Some example_assigned_lead)"
    by (simp add: locked_round_state_Some get_round_def get_lead_def find_row_Cons example_round_def example_assigned_lead_def
        example_lead_def)
  moreover have "is_current_active_round example_assigned_lead example_round"
    by (simp add: is_current_active_round_def is_current_self_owned_round_def example_round_def example_assigned_lead_def
        example_lead_def business_execution_mode_def active_round_statuses_def)
  moreover have "expired (days 2) example_round"
    by (simp add: expired_def example_round_def if_none_def days_def hours_def)
  ultimately have "overdue ?s (days 2) ''R1''" by (auto simp: overdue_def followed_up_def)
  with due_transitions_leave_nothing_overdue [OF p inv] p show ?thesis by (simp add: Let_def)
qed

section \<open>Recording an action\<close>

text \<open>A recorded action passed every guard; a refused one left things alone or closed a finished lead.\<close>

definition action_allowed :: "platform \<Rightarrow> db \<Rightarrow> string \<Rightarrow> string \<Rightarrow> pydict \<Rightarrow> clue_assignment_round \<Rightarrow> clue_master_lead \<Rightarrow> bool" where
  "action_allowed P s order_id i actor r lead \<longleftrightarrow>
     followed_up s i r lead \<and> r_order_id r = order_id \<and> can_access_clue_store P actor (r_assigned_store_id r)"

lemma apply_action_cases:
  assumes a: "apply_follow_up_action P s uid order_id i follow_result actor note now = Inr (res, s')" and inv: "engine_inv s"
  shows "(fs_status res \<noteq> ''ok'' \<and> fs_record res = None \<and> fs_assignment_round_id res = None \<and> t_follow_ups s' = t_follow_ups s \<and> (s' = s \<or> (\<exists>k. due_effect s k s')))
     \<or> (\<exists>r lead. action_allowed P s order_id i actor r lead \<and> py_strip (or_else follow_result []) \<in> set follow_up_actions
          \<and> record_action P s lead r (new_follow_up P uid r order_id (py_strip (or_else follow_result [])) actor note now) now
              = Inr (res, s'))"
proof (cases "\<exists>r lead. locked_round_state s i = (Some r, Some lead) \<and> r_order_id r = order_id \<and> actor_can_operate_round P r actor")
  case False
  then have "fs_status res \<noteq> ''ok'' \<and> fs_record res = None \<and> fs_assignment_round_id res = None \<and> s' = s"
    using a by (auto simp: apply_follow_up_action_def Let_def refused_def split: option.splits prod.splits if_splits)
  then show ?thesis by blast
next
  case True
  then obtain r lead where l: "locked_round_state s i = (Some r, Some lead)" "r_order_id r = order_id" "actor_can_operate_round P r actor"
    by blast
  note k = locked_keys [OF l(1)]
  obtain fenced s1 where ref: "refresh_terminal_evidence_for_locked_lead P s lead now None = (fenced, s1)" by (metis prod.exhaust)
  show ?thesis
  proof (cases fenced)
    case True
    have e: "due_effect s (l_lead_key lead) s1" using refresh_due_effect [of P s lead now None s1] ref True inv k by simp
    have "res = refused ''conflict'' \<and> (s' = s \<or> s' = s1)"
      using a l ref True by (auto simp: apply_follow_up_action_def Let_def split: if_splits)
    then show ?thesis using e by (auto simp: refused_def due_effect_def)
  next
    case False
    then have s1: "s1 = s" using terminal_refresh_effect [OF ref] k inv by simp
    have te: "due_effect s (l_lead_key lead) (close_for_terminal_order s lead r now)"
      using close_for_terminal_order_closes [OF inv, of r lead now] k
      by (intro closes_due_effect [where lead' = "terminal_lead lead (terminal_round lead r now) now"])
        (auto simp: terminal_lead_def)
    have "(res = refused ''conflict'' \<and> (s' = s \<or> s' = close_for_terminal_order s lead r now))
       \<or> (py_strip (or_else follow_result []) \<in> set follow_up_actions \<and> is_current_active_round lead r
          \<and> record_action P s lead r (new_follow_up P uid r order_id (py_strip (or_else follow_result [])) actor note now) now
              = Inr (res, s'))"
      using a l ref False s1 by (auto simp: apply_follow_up_action_def Let_def split: if_splits)
    then show ?thesis using te l by (auto simp: refused_def action_allowed_def followed_up_def actor_can_operate_round_def due_effect_def)
  qed
qed

lemma record_action_Inr:
  assumes "record_action P s lead r f now = Inr (res, s')"
  shows "get_follow_up s (f_follow_up_record_id f) = None \<and> fs_status res = ''ok'' \<and> fs_record res = Some f
     \<and> (fs_assignment_round_id res = None \<longleftrightarrow> f_follow_result f \<in> {''lost'', ''request_store_change''})
     \<and> (let s1 = s\<lparr>t_follow_ups := add_row f (t_follow_ups s)\<rparr>; r' = visible_summary r (f_follow_result f) now
        in if f_follow_result f \<in> {''lost'', ''request_store_change''}
           then s' = close_for_reassignment s1 lead r (f_follow_result f) now
           else s' = project_current_round_summary (put_round r' s1) r' now)"
  using assms by (auto simp: record_action_def add_follow_up_def bind_result_Inr Let_def split: if_splits)

lemma engine_inv_follow_ups [simp]: "engine_inv (s\<lparr>t_follow_ups := x\<rparr>) = engine_inv s"
  by (rule engine_inv_cong) simp_all

lemma get_follow_ups_update [simp]:
  "get_round (s\<lparr>t_follow_ups := x\<rparr>) = get_round s" "get_lead (s\<lparr>t_follow_ups := x\<rparr>) = get_lead s"
  by (simp_all add: get_round_def get_lead_def fun_eq_iff)

lemma summary_tables [simp]:
  "t_leads (project_current_round_summary s r now) = t_leads s" "t_rounds (project_current_round_summary s r now) = t_rounds s"
  "t_entries (project_current_round_summary s r now) = t_entries s" "t_decisions (project_current_round_summary s r now) = t_decisions s"
  "t_follow_ups (project_current_round_summary s r now) = t_follow_ups s" "t_stores (project_current_round_summary s r now) = t_stores s"
  by (simp_all add: project_current_round_summary_def)

lemma record_action_keeps:
  assumes a: "record_action P s lead r f now = Inr (res, s')" and inv: "engine_inv s"
    and r: "get_round s (r_assignment_round_id r) = Some r" and lead: "get_lead s (l_lead_key lead) = Some lead"
  shows "t_follow_ups s' = add_row f (t_follow_ups s) \<and> engine_inv s'
     \<and> (if f_follow_result f \<in> {''lost'', ''request_store_change''}
        then get_round s' (r_assignment_round_id r) = Some (reassigned_round r (f_follow_result f) now)
          \<and> get_lead s' = (get_lead s)(l_lead_key lead \<mapsto> released_lead lead now)
        else get_round s' = (get_round s)(r_assignment_round_id r \<mapsto> visible_summary r (f_follow_result f) now)
          \<and> get_lead s' = get_lead s)"
proof -
  let ?s1 = "s\<lparr>t_follow_ups := add_row f (t_follow_ups s)\<rparr>"
  have inv1: "engine_inv ?s1" and r1: "get_round ?s1 (r_assignment_round_id r) = Some r"
    and lead1: "get_lead ?s1 (l_lead_key lead) = Some lead" using inv r lead by simp_all
  show ?thesis
  proof (cases "f_follow_result f \<in> {''lost'', ''request_store_change''}")
    case True
    with record_action_Inr [OF a] have "s' = close_for_reassignment ?s1 lead r (f_follow_result f) now" by (simp add: Let_def)
    with True close_for_reassignment_closes [OF inv1 r1 lead1, of "f_follow_result f" now] show ?thesis
      by (auto simp: closes_round_def)
  next
    case False
    let ?r' = "visible_summary r (f_follow_result f) now"
    from False record_action_Inr [OF a] have s': "s' = project_current_round_summary (put_round ?r' ?s1) ?r' now"
      by (auto simp: Let_def)
    have w: "round_write (r_assignment_round_id r) ?r' ?s1 s'"
      by (rule round_writeI [OF inv1 r1]) (simp_all add: s')
    with round_write_engine_inv [OF w inv1] False show ?thesis
      by (simp add: round_write_def s' get_lead_def fun_eq_iff)
  qed
qed

text \<open>What a user sees of a round, and whether it is what the records that count say.\<close>

definition summary_fields ::
  "clue_assignment_round \<Rightarrow> instant option \<times> string \<times> bool \<times> bool \<times> string \<times> instant option \<times> instant option" where
  "summary_fields r = (r_followed_at r, r_follow_result r, r_is_followed r, r_is_follow_success r, r_round_status r,
     r_protection_started_at r, r_protection_expires_at r)"

definition summary_matches :: "db \<Rightarrow> clue_assignment_round \<Rightarrow> bool" where
  "summary_matches s r \<longleftrightarrow>
     summary_fields r = summary_fields (active_summary r (live_records s (r_assignment_round_id r)))"

lemma summary_fields_updated [simp]: "summary_fields (r\<lparr>r_updated_at := t\<rparr>) = summary_fields r"
  by (simp add: summary_fields_def)

lemma active_summary_overwrites:
  "summary_fields (active_summary (visible_summary r action now) records) = summary_fields (active_summary r records)"
  "summary_fields (active_summary (r\<lparr>r_updated_at := t\<rparr>) records) = summary_fields (active_summary r records)"
  "summary_fields (active_summary (active_summary r records') records) = summary_fields (active_summary r records)"
  by (simp_all add: summary_fields_def active_summary_def visible_summary_def unfollowed_round_def protection_days_of_def Let_def
      split: option.splits)

lemma insort_key_snoc: "f a \<le> f x \<Longrightarrow> insort_key f a (ys @ [x]) = insort_key f a ys @ [x]"
  by (induction ys) auto

lemma sort_key_snoc: "(\<forall>y \<in> set xs. f y \<le> f x) \<Longrightarrow> sort_key f (xs @ [x]) = sort_key f xs @ [x]"
  by (induction xs) (simp_all add: insort_key_snoc)

lemma live_records_add:
  assumes "\<forall>g \<in> set (live_records s (f_assignment_round_id f)).
      (f_created_at g, f_follow_up_record_id g) \<le> (f_created_at f, f_follow_up_record_id f)"
    and "f_deleted_at f = None" and "t_follow_ups s' = add_row f (t_follow_ups s)"
  shows "live_records s' (f_assignment_round_id f) = live_records s (f_assignment_round_id f) @ [f]"
  using assms by (simp add: live_records_def add_row_def sort_key_snoc)

lemma find_snoc: "find P (xs @ [x]) = (case find P xs of Some y \<Rightarrow> Some y | None \<Rightarrow> if P x then Some x else None)"
  by (induction xs) auto

text \<open>The incremental update computes what a recalculation from the records would.\<close>

lemma visible_summary_is_recalculation:
  assumes "summary_fields r = summary_fields (active_summary r records)" and "f_follow_result f \<in> set protection_actions"
  shows "summary_fields (visible_summary r (f_follow_result f) (f_created_at f))
       = summary_fields (active_summary r (records @ [f]))"
  using assms
  by (auto simp: summary_fields_def active_summary_def visible_summary_def unfollowed_round_def Let_def find_snoc
      protection_days_of_def split: option.splits if_splits)

lemma ongoing_action_protects:
  "action \<in> set follow_up_actions \<Longrightarrow> action \<notin> {''lost'', ''request_store_change''} \<Longrightarrow> action \<in> set protection_actions"
  by (auto simp: follow_up_actions_def protection_actions_def)

lemma new_follow_up_fields [simp]:
  "f_follow_up_record_id (new_follow_up P uid r o' a actor note now) = uid"
  "f_assignment_round_id (new_follow_up P uid r o' a actor note now) = r_assignment_round_id r"
  "f_follow_result (new_follow_up P uid r o' a actor note now) = a"
  "f_created_at (new_follow_up P uid r o' a actor note now) = now"
  "f_deleted_at (new_follow_up P uid r o' a actor note now) = None"
  "f_assigned_store_id (new_follow_up P uid r o' a actor note now) = r_assigned_store_id r"
  by (simp_all add: new_follow_up_def)

text \<open>
  C15. A follow-up is recorded only for the round a lead is currently followed up on, of the given
  order, by an actor with access to its store, and adds exactly one record for that round and
  store. A refused action records nothing: it changes nothing at all, unless the order turned out
  to be finished, when the lead leaves the store pool. The tables stay consistent either way.
\<close>

theorem follow_up_needs_current_round_and_access:
  assumes "apply_follow_up_action P s uid order_id i follow_result actor note now = Inr (res, s')" and "engine_inv s"
  shows "engine_inv s' \<and> (if fs_status res = ''ok''
     then (\<exists>r lead f. action_allowed P s order_id i actor r lead \<and> t_follow_ups s' = t_follow_ups s @ [f]
             \<and> f_assignment_round_id f = i \<and> f_assigned_store_id f = r_assigned_store_id r
             \<and> f_follow_result f \<in> set follow_up_actions)
     else t_follow_ups s' = t_follow_ups s \<and> (s' = s \<or> (\<exists>k. due_effect s k s')))"
  using apply_action_cases [OF assms]
proof (elim disjE exE conjE)
  fix r lead
  assume al: "action_allowed P s order_id i actor r lead" and a: "py_strip (or_else follow_result []) \<in> set follow_up_actions"
    and rec: "record_action P s lead r (new_follow_up P uid r order_id (py_strip (or_else follow_result [])) actor note now) now
       = Inr (res, s')"
  then have k: "r_assignment_round_id r = i" "get_round s (r_assignment_round_id r) = Some r"
    "get_lead s (l_lead_key lead) = Some lead"
    using locked_keys [of s i r lead] by (auto simp: action_allowed_def followed_up_def)
  from record_action_keeps [OF rec assms(2) k(2,3)] record_action_Inr [OF rec] k(1) al a show ?thesis
    by (auto simp: add_row_def intro!: exI [of _ r] exI [of _ lead])
qed (use assms(2) in \<open>auto simp: due_effect_def\<close>)

text \<open>An administrator of every store, and the example lead on its first round.\<close>

definition example_actor :: pydict where
  "example_actor = [(''role'', PStr ''admin''), (''store_scope_mode'', PStr ''all'')]"

definition example_follow_up_db :: db where
  "example_follow_up_db = empty_db\<lparr>t_leads := [example_assigned_lead], t_rounds := [example_round]\<rparr>"

lemma example_follow_up_inv: "engine_inv example_follow_up_db"
  by (simp add: example_follow_up_db_def engine_inv_def pool_inv_def decisions_ok_def rounds_ok_def empty_db_def round_sig_def
      example_round_def engine_round_id_def)

lemma example_action:
  "case apply_follow_up_action example_platform example_follow_up_db ''F1'' ''O1'' ''R1'' (Some ''appointment'') example_actor None 20 of
     Inl _ \<Rightarrow> False | Inr (res, s') \<Rightarrow> fs_status res = ''ok'' \<and> fs_assignment_round_id res = Some ''R1''"
  by code_simp

text \<open>The effect of an action after which the store keeps the lead.\<close>

lemma ongoing_action_effect:
  assumes a: "apply_follow_up_action P s uid order_id i follow_result actor note now = Inr (res, s')" and inv: "engine_inv s"
    and on: "fs_assignment_round_id res \<noteq> None"
  obtains r lead f where "followed_up s i r lead" and "f_follow_up_record_id f = uid" and "f_assignment_round_id f = i"
    and "f_created_at f = now" and "f_deleted_at f = None" and "f_follow_result f \<in> set protection_actions"
    and "t_follow_ups s' = add_row f (t_follow_ups s)" and "get_follow_up s uid = None"
    and "get_round s' = (get_round s)(i \<mapsto> visible_summary r (f_follow_result f) now)" and "get_lead s' = get_lead s"
    and "engine_inv s'"
proof -
  from apply_action_cases [OF a inv] on obtain r lead where al: "action_allowed P s order_id i actor r lead"
    and act: "py_strip (or_else follow_result []) \<in> set follow_up_actions"
    and rec: "record_action P s lead r (new_follow_up P uid r order_id (py_strip (or_else follow_result [])) actor note now) now
       = Inr (res, s')" by auto
  have f: "followed_up s i r lead" using al by (simp add: action_allowed_def)
  then have k: "r_assignment_round_id r = i" "get_round s (r_assignment_round_id r) = Some r"
    "get_lead s (l_lead_key lead) = Some lead" using locked_keys [of s i r lead] by (auto simp: followed_up_def)
  have ong: "py_strip (or_else follow_result []) \<notin> {''lost'', ''request_store_change''}"
    using record_action_Inr [OF rec] on by simp
  note e = record_action_keeps [OF rec inv k(2,3)]
  let ?f = "new_follow_up P uid r order_id (py_strip (or_else follow_result [])) actor note now"
  show thesis
    using that [OF f, of ?f] e k(1) ong ongoing_action_protects [OF act ong] record_action_Inr [OF rec] by simp
qed



theorem follow_up_needs_current_round_and_access_witness:
  "\<exists>res s' f. apply_follow_up_action example_platform example_follow_up_db ''F1'' ''O1'' ''R1'' (Some ''appointment'')
      example_actor None 20 = Inr (res, s') \<and> engine_inv s' \<and> t_follow_ups s' = [f] \<and> f_assignment_round_id f = ''R1''"
proof -
  obtain res s' where a: "apply_follow_up_action example_platform example_follow_up_db ''F1'' ''O1'' ''R1'' (Some ''appointment'')
      example_actor None 20 = Inr (res, s')" "fs_status res = ''ok''"
    using example_action by (auto split: sum.splits)
  have "t_follow_ups example_follow_up_db = []" by (simp add: example_follow_up_db_def empty_db_def)
  with follow_up_needs_current_round_and_access [OF a(1) example_follow_up_inv] a show ?thesis by auto
qed

section \<open>Reversing a record\<close>

lemma recalculated_round:
  assumes "engine_inv s" and "get_round s (r_assignment_round_id r) = Some r"
  shows "get_round (recalculate_active_round_summary s r now) = (get_round s)(r_assignment_round_id r \<mapsto>
     (active_summary r (live_records s (r_assignment_round_id r)))\<lparr>r_updated_at := now\<rparr>)"
proof -
  let ?r' = "(active_summary r (live_records s (r_assignment_round_id r)))\<lparr>r_updated_at := now\<rparr>"
  have "round_write (r_assignment_round_id r) ?r' s (recalculate_active_round_summary s r now)"
    by (rule round_writeI [OF assms]) (simp_all add: recalculate_active_round_summary_def Let_def)
  then show ?thesis by (simp add: round_write_def)
qed

lemma soft_delete_ok:
  assumes "soft_delete_follow_up_record P s uid actor reason now = (res, s')" and "fs_status res = ''ok''"
  obtains f f' r lead where "get_follow_up s uid = Some f" and "f_deleted_at f = None"
    and "locked_round_state s (f_assignment_round_id f) = (Some r, lead)"
    and "f_follow_up_record_id f' = uid" and "f_deleted_at f' = Some now"
    and "s' = (if (case lead of None \<Rightarrow> False | Some l \<Rightarrow> is_current_active_round l r)
               then recalculate_active_round_summary (put_follow_up f' s) r now
               else recalculate_detached_round_summary (put_follow_up f' s) r now)"
proof -
  from assms obtain f where f: "get_follow_up s uid = Some f"
    by (auto simp: soft_delete_follow_up_record_def refused_def split: if_splits option.splits)
  with assms obtain r lead where r: "locked_round_state s (f_assignment_round_id f) = (Some r, lead)" and d: "f_deleted_at f = None"
    by (auto simp: soft_delete_follow_up_record_def refused_def split: if_splits option.splits prod.splits)
  have "f_follow_up_record_id f = uid" using follow_up_table.get_key [OF f] .
  with assms f r d show thesis
    by (intro that [OF f d r, of "f\<lparr>f_deleted_at := Some now, f_deleted_by_user_id := clean (Some (actor_text P actor ''user_id'')),
         f_deleted_by_username := clean (Some (actor_text P actor ''username'')), f_deletion_reason := clean reason\<rparr>"])
      (auto simp: soft_delete_follow_up_record_def refused_def Let_def split: if_splits)
qed

lemma live_records_delete:
  assumes "get_follow_up s uid = None" and "t_follow_ups s1 = add_row f (t_follow_ups s)"
    and "f_follow_up_record_id f = uid" and "f_follow_up_record_id f' = uid" and "f_deleted_at f' \<noteq> None"
  shows "live_records (put_follow_up f' s1) i = live_records s i"
proof -
  have "f_follow_up_record_id g \<noteq> uid" if "g \<in> set (t_follow_ups s)" for g
    using assms(1) that by (auto simp: get_follow_up_def find_row_None)
  then have "upd_row f_follow_up_record_id f' (t_follow_ups s @ [f]) = t_follow_ups s @ [f']"
    using assms(3,4) by (auto simp: upd_row_def intro: map_idI)
  then show ?thesis using assms(2,5) by (auto simp: live_records_def put_follow_up_def add_row_def)
qed


lemma example_reversal:
  "case apply_follow_up_action example_platform example_follow_up_db ''F1'' ''O1'' ''R1'' (Some ''appointment'') example_actor None 20 of
     Inl _ \<Rightarrow> False
   | Inr (res, s') \<Rightarrow> fs_assignment_round_id res \<noteq> None
       \<and> fs_status (fst (soft_delete_follow_up_record example_platform s' ''F1'' example_actor None 30)) = ''ok''"
  by code_simp


end
