(* ===== verification/Lifecycle.thy ===== *)
theory Lifecycle
  imports FollowUp
begin

text \<open>
  The life of a lead: allocation, follow-up, due transitions, reversals and terminal evidence as
  steps of one state machine, and what holds along every run. Each operation is a sequence of a
  few kinds of writes to rounds and order centres; a relation closed under these writes is
  respected by every operation.
\<close>

section \<open>The writes of the operations\<close>

text \<open>The flags of a round agree with each other.\<close>

definition round_flags_ok :: "clue_assignment_round \<Rightarrow> bool" where
  "round_flags_ok r \<longleftrightarrow> r_is_followed r = (r_followed_at r \<noteq> None)
     \<and> (r_round_status r \<in> set active_round_statuses \<longrightarrow> r_is_followed r = (r_round_status r = ''active_followed''))"

text \<open>A centre shows a round of its own order.\<close>

definition shows_own_round :: "db \<Rightarrow> clue_center_order \<Rightarrow> bool" where
  "shows_own_round s c \<longleftrightarrow>
     (\<exists>r. c_current_assignment_round_id c = Some (r_assignment_round_id r)
        \<and> get_round s (r_assignment_round_id r) = Some r \<and> r_order_id r = c_order_id c)"

lemma round_flags_ok_simps [simp]:
  "round_flags_ok (reassigned_round r cause now)" "round_flags_ok (visible_summary r action now)"
  "round_flags_ok (active_summary r records)" "round_flags_ok (detached_summary r records)"
  "round_flags_ok r \<Longrightarrow> round_flags_ok (terminal_round lead r now)"
  "round_flags_ok (r\<lparr>r_updated_at := now\<rparr>) = round_flags_ok r"
  by (simp_all add: round_flags_ok_def reassigned_round_def visible_summary_def active_summary_def detached_summary_def
      terminal_round_def unfollowed_round_def active_round_statuses_def Let_def split: option.splits)

locale write_closed =
  fixes R :: "db \<Rightarrow> db \<Rightarrow> bool"
  assumes R_trans: "R s s' \<Longrightarrow> R s' s'' \<Longrightarrow> R s s''"
    and R_other: "t_rounds s' = t_rounds s \<Longrightarrow> t_centers s' = t_centers s \<Longrightarrow> R s s'"
    and R_new_round: "get_round s (r_assignment_round_id r) = None \<Longrightarrow> round_flags_ok r \<Longrightarrow>
          R s (s\<lparr>t_rounds := add_row r (t_rounds s)\<rparr>)"
    and R_put_round: "get_round s (r_assignment_round_id r) = Some r \<Longrightarrow> round_core r' = round_core r \<Longrightarrow>
          (round_flags_ok r \<Longrightarrow> round_flags_ok r') \<Longrightarrow> R s (put_round r' s)"
    and R_new_center: "get_center s (c_order_id c) = None \<Longrightarrow> shows_own_round s c \<Longrightarrow>
          R s (s\<lparr>t_centers := add_row c (t_centers s)\<rparr>)"
    and R_put_center: "get_center s (c_order_id c) = Some c \<Longrightarrow> c_order_id c' = c_order_id c \<Longrightarrow>
          c_current_assignment_round_id c' \<in> {None, c_current_assignment_round_id c} \<or> shows_own_round s c' \<Longrightarrow>
          R s (put_center c' s)"
begin

lemma R_refl: "R s s"
  by (rule R_other) simp_all

lemma R_with_center:
  assumes "\<And>c. c_order_id (f c) = c_order_id c \<and> c_current_assignment_round_id (f c) = c_current_assignment_round_id c"
  shows "R s (with_center_of s r f)"
proof (cases "get_center s (r_order_id r)")
  case None
  then show ?thesis by (simp add: with_center_of_def R_refl)
next
  case (Some c)
  then have "R s (put_center (f c) s)"
    using assms [of c] center_table.get_key [OF Some] by (intro R_put_center [of s c]) simp_all
  with Some show ?thesis by (simp add: with_center_of_def R_refl)
qed

lemma R_put_round_then:
  assumes "get_round s (r_assignment_round_id r) = Some r" and "round_core r' = round_core r"
    and "round_flags_ok r \<Longrightarrow> round_flags_ok r'" and "R (put_round r' s) s'"
  shows "R s s'"
  using R_trans [OF R_put_round [OF assms(1-3)] assms(4)] .

subsection \<open>Terminal evidence\<close>

lemma R_close_current_assignment:
  assumes rs: "\<And>r. r \<in> set rs \<Longrightarrow> get_round s (r_assignment_round_id r) = Some r"
    and c: "\<And>x. center = Some x \<Longrightarrow> get_center s (c_order_id x) = Some x"
  shows "R s (close_current_assignment s lc t i center rs)"
proof -
  let ?ended = "\<lambda>r. r\<lparr>r_round_status := terminal_round_status lc, r_terminal_reason := Some (terminal_reason lc),
       r_matured_at := Some t, r_updated_at := t\<rparr>"
  let ?shut = "\<lambda>x. x\<lparr>c_lead_status := terminal_center_lead_status lc, c_current_round_status := terminal_round_status lc,
       c_reassign_reason := Some (terminal_reason lc), c_updated_at := t\<rparr>"
  have put: "R s (put_round (?ended r) s)" if "r \<in> set rs" for r
    using rs [OF that] by (rule R_put_round) (auto simp: round_core_def round_flags_ok_def terminal_round_status_closed)
  have shut: "R s' (put_center (?shut x) s')" if "center = Some x" "t_centers s' = t_centers s" for s' x
    using c [OF that(1)] that(2) by (intro R_put_center [of s' x]) (simp_all add: get_center_def)
  define s1 where "s1 = (case (if truthy (if truthy i then i else Option.bind center c_current_assignment_round_id)
        then find_row r_assignment_round_id (the (if truthy i then i else Option.bind center c_current_assignment_round_id)) rs
        else None) of Some r \<Rightarrow> (if r_execution_mode r = ''formal'' then put_round (?ended r) s else s) | None \<Rightarrow> s)"
  have "R s s1" using put by (auto simp: s1_def R_refl dest: find_row_Some split: option.splits)
  moreover have "t_centers s1 = t_centers s" by (simp add: s1_def put_round_def split: option.splits)
  then have "R s1 (case center of Some x \<Rightarrow> (if i = None \<or> c_current_assignment_round_id x = i then put_center (?shut x) s1 else s1)
      | None \<Rightarrow> s1)" using shut by (auto simp: R_refl split: option.splits)
  ultimately show ?thesis unfolding close_current_assignment_def Let_def s1_def by (rule R_trans)
qed

lemma R_refresh:
  assumes "refresh_terminal_evidence_for_locked_lead P s lead now g = (fenced, s')"
  shows "R s s'"
proof (cases "effective_terminal P s lead now g")
  case None
  with assms show ?thesis by (simp add: refresh_terminal_evidence_for_locked_lead_def R_refl)
next
  case (Some t)
  then have s': "s' = close_lead_on_terminal P s lead now t"
    using assms by (simp add: refresh_terminal_evidence_for_locked_lead_def)
  obtain applied lead1 s1 where
    ap: "apply_independent_status_evidence P s lead (terminal_resolution lead now t) (terminal_observed_at lead now t) now
       (owned_rounds s lead) = (applied, lead1, s1)" by (metis prod_cases3)
  let ?at = "case l_closed_at lead1 of Some x \<Rightarrow> x | None \<Rightarrow> now"
  define s2 where "s2 = snd (close_current_headquarters_pool_entry s1 (l_lead_key lead) ?at
                 (or_else (l_closed_reason lead1) ''order_closed'') ''closed'')"
  have r1: "t_rounds s1 = t_rounds s" using apply_evidence_tables [OF ap] by simp
  have c1: "t_centers s1 = t_centers s"
    using ap by (auto simp: apply_independent_status_evidence_def Let_def put_lead_def split: if_splits)
  have r2: "t_rounds s2 = t_rounds s" and c2: "t_centers s2 = t_centers s" using r1 c1 by (simp_all add: s2_def)
  have "get_round s2 (r_assignment_round_id r) = Some r" if "r \<in> set (owned_rounds s lead)" for r
    using owned_rounds_stored [OF that] r2 by (simp add: get_round_def)
  moreover have "get_center s2 (c_order_id x) = Some x" if "lock_clue_center_order_for_update s (l_order_id lead) = Some x" for x
  proof -
    from that have "get_center s (the (l_order_id lead)) = Some x" by (auto simp: lock_clue_center_order_for_update_def split: if_splits)
    with center_table.get_key [OF this] c2 show ?thesis by (simp add: get_center_def)
  qed
  ultimately have "R s2 (close_current_assignment s2 (l_lifecycle_status lead1) ?at (l_current_assignment_round_id lead1)
      (lock_clue_center_order_for_update s (l_order_id lead)) (owned_rounds s lead))"
    by (rule R_close_current_assignment)
  moreover have "R s s2" using r2 c2 by (rule R_other)
  moreover have "R s s1" using r1 c1 by (rule R_other)
  moreover have "s' = s1 \<or> s' = close_current_assignment s2 (l_lifecycle_status lead1) ?at (l_current_assignment_round_id lead1)
      (lock_clue_center_order_for_update s (l_order_id lead)) (owned_rounds s lead)"
    by (simp add: s' close_lead_on_terminal_def Let_def ap s2_def)
  ultimately show ?thesis using R_trans by blast
qed

subsection \<open>Allocation\<close>

lemma R_record_decision: "record_decision P s lead b q x = Inr (d, s') \<Longrightarrow> R s s'"
  using record_decision_cases [of P s lead b q x d s'] by (auto intro: R_refl R_other)

lemma R_ensure_selected_round:
  assumes "ensure_selected_round s lead b d c q = Inr (r, s')"
  shows "R s s' \<and> get_round s' (r_assignment_round_id r) = Some r"
proof -
  from ensure_selected_round_cases [OF assms] consider "s' = s" "get_round s (r_assignment_round_id r) = Some r"
    | h p where "r = selected_round lead b d c q h p" "s' = s\<lparr>t_rounds := add_row r (t_rounds s)\<rparr>"
      "get_round s (r_assignment_round_id r) = None" by blast
  then show ?thesis
  proof cases
    case 1
    then show ?thesis by (simp add: R_refl)
  next
    case 2
    have "round_flags_ok r" by (simp add: 2(1) selected_round_def Let_def round_flags_ok_def active_round_statuses_def)
    with 2(2,3) R_new_round [of s r] show ?thesis by (simp add: get_round_def find_row_add)
  qed
qed

lemma R_project_self_owned:
  assumes pr: "project_self_owned_assignment s lead r c cycle t = Inr s'" and r: "get_round s (r_assignment_round_id r) = Some r"
  shows "R s s'"
proof -
  define s1 where "s1 = put_lead (store_pool_lead lead (r_assignment_round_id r) cycle t)
    (snd (close_current_headquarters_pool_entry s (l_lead_key lead) t ''allocated_to_store'' ''closed''))"
  have f: "t_rounds s1 = t_rounds s" "t_centers s1 = t_centers s" by (simp_all add: s1_def) (simp add: put_lead_def)
  have own: "shows_own_round s1 (assigned_center l r c u t)" for l u
    using r f by (auto simp: shows_own_round_def assigned_center_def get_round_def)
  have id: "c_order_id (assigned_center l r c u t) = r_order_id r" for l u by (simp add: assigned_center_def)
  have pc: "project_center_assignment s1 (store_pool_lead lead (r_assignment_round_id r) cycle t) r c t = Inr s'"
    using pr by (simp add: project_self_owned_assignment_def Let_def s1_def)
  have "R s1 s'"
  proof (cases "lock_clue_center_order_for_update s1 (Some (r_order_id r))")
    case None
    with pc own id show ?thesis
      by (auto simp: project_center_assignment_def split: if_splits intro!: R_new_center)
  next
    case (Some x)
    then have x: "get_center s1 (r_order_id r) = Some x" by (auto simp: lock_clue_center_order_for_update_def split: if_splits)
    with center_table.get_key [OF x] have "R s1 (put_center (assigned_center l r c u t) s1)" for l u
      using own id by (intro R_put_center [of s1 x]) simp_all
    with pc Some show ?thesis by (auto simp: project_center_assignment_def R_refl split: if_splits)
  qed
  then show ?thesis using R_trans [OF R_other [OF f]] by blast
qed

lemma R_project_headquarters:
  assumes "project_headquarters P s lead t d = Inr s'"
  shows "R s s'"
proof -
  define lead' where "lead' = headquarters_lead lead d t"
  from assms obtain e s1 where enter: "enter_headquarters_pool P (put_lead lead' s) lead' (or_else (d_reason d) ''headquarters'') t
      (Some d) None None None [] = Inr (e, s1)" and s': "s' = project_center_headquarters s1 lead' t"
    by (auto simp: project_headquarters_def Let_def bind_result_Inr lead'_def)
  have c: "t_centers s1 = t_centers s"
    using enter by (auto simp: enter_headquarters_pool_def Let_def bind_result_Inr add_entry_def put_lead_def
        close_current_headquarters_pool_entry_def put_entry_def split: option.splits if_splits prod.splits)
  have "R s s1" using enter_pool_tables [OF enter] c by (intro R_other) simp_all
  moreover have "R s1 s'"
  proof (cases "s' = s1")
    case True
    then show ?thesis by (simp add: R_refl)
  next
    case False
    then obtain x where x: "get_center s1 (the (l_order_id lead')) = Some x" and s'x: "s' = put_center (headquarters_center x t) s1"
      by (auto simp: s' project_center_headquarters_def lock_clue_center_order_for_update_def split: if_splits option.splits)
    show ?thesis unfolding s'x using x center_table.get_key [OF x]
      by (intro R_put_center [of s1 x]) (simp_all add: headquarters_center_def)
  qed
  ultimately show ?thesis by (rule R_trans)
qed

lemma R_send_to_headquarters: "send_to_headquarters P s lead b q x ids = Inr (res, s') \<Longrightarrow> R s s'"
  using R_trans [OF R_record_decision R_project_headquarters] by (auto simp: send_to_headquarters_def bind_result_Inr)

lemma R_assign_selected:
  assumes "assign_selected P s n k cs summary c ids = Inr (res, s')"
  shows "R s s'"
proof -
  from assms obtain d s1 r s2 x where d: "record_decision P s (n_lead n) (Some (n_binding n)) (n_request n) x = Inr (d, s1)"
    and r: "ensure_selected_round s1 (n_lead n) (n_binding n) d c (n_request n) = Inr (r, s2)"
    and pr: "project_self_owned_assignment s2 (n_lead n) r c (q_allocation_cycle_id (n_request n)) (q_executed_at (n_request n)) = Inr s'"
    by (auto simp: assign_selected_def Let_def bind_result_Inr)
  from R_record_decision [OF d] R_ensure_selected_round [OF r] R_project_self_owned [OF pr] show ?thesis
    using R_trans by blast
qed

lemma R_run_strategies: "run_strategies P n start_after ks ids s = Inr ((found, ids'), s') \<Longrightarrow> R s s'"
proof (induction ks arbitrary: ids s)
  case Nil
  then show ?case by (simp add: R_refl)
next
  case (Cons k ks)
  have step: "R s s'" if "record_decision P s (n_lead n) (Some (n_binding n)) (n_request n) x = Inr (d, s1)"
    and "run_strategies P n start_after ks ids1 s1 = Inr ((found, ids'), s')" for x d s1 ids1
    using R_trans [OF R_record_decision [OF that(1)] Cons.IH [OF that(2)]] .
  obtain cs reason summary where sc: "strategy_candidates P (k_strategy_type k) (n_lead n) (n_sale_store n) (n_stores n)
      (n_scores n) (n_historical n) (strategy_distance (k_strategy_type k) (k_params k)) (n_source_store_mode n)
    = (cs, reason, summary)" by (metis prod_cases3)
  from Cons.prems consider "run_strategies P n start_after ks ids s = Inr ((found, ids'), s')"
    | x d s1 ids1 where "record_decision P s (n_lead n) (Some (n_binding n)) (n_request n) x = Inr (d, s1)"
      "run_strategies P n start_after ks ids1 s1 = Inr ((found, ids'), s')"
    | c r where "assign_selected P s n k cs summary c ids = Inr (r, s')"
    by (auto simp: bind_result_Inr sc split: if_splits option.splits)
  then show ?case using Cons.IH step R_assign_selected by cases blast+
qed

lemma R_try_strategies:
  assumes "try_strategies P s n start_after = Inr (res, s')"
  shows "R s s'"
proof -
  from assms obtain i found ids s1 where run: "run_strategies P n i (strategy_configs (b_rule_version_snapshot (n_binding n))) [] s
      = Inr ((found, ids), s1)"
    and rest: "s' = s1 \<or> (\<exists>x. send_to_headquarters P s1 (n_lead n) (Some (n_binding n)) (n_request n) x ids = Inr (res, s'))"
    by (fastforce simp: try_strategies_def Let_def bind_result_Inr split: option.splits)
  show ?thesis using rest R_trans [OF R_run_strategies [OF run]] R_run_strategies [OF run] R_send_to_headquarters by blast
qed

lemma R_allocate_bound_lead:
  assumes "allocate_bound_lead P s lead b q start_after = Inr (res, s')"
  shows "R s s'"
proof -
  consider x ids where "send_to_headquarters P s lead (Some b) q x ids = Inr (res, s')"
    | n where "try_strategies P s n start_after = Inr (res, s')"
    using assms by (auto simp: allocate_bound_lead_def Let_def split: option.splits if_splits)
  then show ?thesis using R_send_to_headquarters R_try_strategies by cases blast+
qed

lemma R_bind: "bind_lead_rule_version s i store city = Inr (b, s') \<Longrightarrow> R s s'"
  using bind_frame [of s i store city b s'] by (auto intro: R_refl R_other)

lemma R_allocate_open_lead:
  assumes "allocate_open_lead P s lead q start_after = Inr (res, s')"
  shows "R s s'"
proof -
  consider "s' = s" | d where "project_headquarters P s lead (q_executed_at q) d = Inr s'"
    | x where "send_to_headquarters P s lead None q x [] = Inr (res, s')"
    | b s1 where "bind_lead_rule_version s (Some (l_lead_key lead)) (l_anchor_store_id lead) (l_anchor_city_code lead) = Inr (b, s1)"
      "allocate_bound_lead P s1 lead b q start_after = Inr (res, s')"
    using assms
    by (auto simp: allocate_open_lead_def bind_result_Inr split: if_splits option.splits sum.splits pyerr.splits prod.splits)
  then show ?thesis using R_refl R_project_headquarters R_send_to_headquarters R_trans [OF R_bind R_allocate_bound_lead] by cases blast+
qed

lemma R_allocate_lead:
  assumes "allocate_lead P te s lead_key mode cycle actor now start_after tr override = Inr (res, s')"
  shows "R s s'"
proof (rule allocate_lead_cases [OF assms])
  fix lead q fenced s1
  assume "refresh_terminal_evidence_for_locked_lead P s lead now (Option.bind (l_order_id lead) (map_of te)) = (fenced, s1)"
    and "(if fenced then Inr (simple_result lead ''skipped'' ''order_already_terminal'', s1)
          else allocate_open_lead P s1 lead q start_after) = Inr (res, s')"
  then show ?thesis using R_refresh R_trans R_allocate_open_lead by (auto split: if_splits) blast+
qed

lemma R_allocate_in_order:
  assumes "allocate_in_order (\<lambda>st k. allocate_lead P te st (Some k) mode cycle actor now None None override) iks s = Inr (rs, s')"
  shows "R s s'"
  using assms
proof (induction iks arbitrary: s rs)
  case Nil
  then show ?case by (simp add: R_refl)
next
  case (Cons ik iks)
  then obtain k r s1 rs' where "allocate_lead P te s (Some k) mode cycle actor now None None override = Inr (r, s1)"
    and "allocate_in_order (\<lambda>st k. allocate_lead P te st (Some k) mode cycle actor now None None override) iks s1 = Inr (rs', s')"
    by (cases ik) (auto simp: bind_result_Inr)
  with Cons.IH R_allocate_lead R_trans show ?case by blast
qed

lemma R_allocate_leads: "allocate_leads P s lead_keys mode cycle actor now override = Inr (rs, s') \<Longrightarrow> R s s'"
  by (erule allocate_leads_cases) (rule R_allocate_in_order)

subsection \<open>Follow-up\<close>

lemma R_close_for_reassignment:
  assumes "get_round s (r_assignment_round_id r) = Some r"
  shows "R s (close_for_reassignment s lead r cause now)"
proof (rule R_put_round_then [OF assms])
  let ?r' = "reassigned_round r cause now"
  show "R (put_round ?r' s) (close_for_reassignment s lead r cause now)"
    unfolding close_for_reassignment_def project_closed_round_def Let_def
    by (rule R_trans [OF R_other R_with_center]) (simp_all add: put_lead_def)
qed simp_all

lemma R_close_for_terminal_order:
  assumes "get_round s (r_assignment_round_id r) = Some r"
  shows "R s (close_for_terminal_order s lead r now)"
proof (rule R_put_round_then [OF assms])
  show "R (put_round (terminal_round lead r now) s) (close_for_terminal_order s lead r now)"
    unfolding close_for_terminal_order_def Let_def
    by (rule R_trans [OF R_other R_with_center]) (simp_all add: put_lead_def)
qed simp_all

lemma R_record_action:
  assumes "record_action P s lead r f now = Inr (res, s')" and "get_round s (r_assignment_round_id r) = Some r"
  shows "R s s'"
proof -
  let ?s1 = "s\<lparr>t_follow_ups := add_row f (t_follow_ups s)\<rparr>" let ?r' = "visible_summary r (f_follow_result f) now"
  have r1: "get_round ?s1 (r_assignment_round_id r) = Some r" using assms(2) by simp
  have "R ?s1 (project_current_round_summary (put_round ?r' ?s1) ?r' now)"
    by (rule R_put_round_then [OF r1, of ?r']) (simp_all add: project_current_round_summary_def R_with_center)
  moreover have "R ?s1 (close_for_reassignment ?s1 lead r (f_follow_result f) now)" by (rule R_close_for_reassignment [OF r1])
  moreover have "s' = project_current_round_summary (put_round ?r' ?s1) ?r' now
     \<or> s' = close_for_reassignment ?s1 lead r (f_follow_result f) now"
    using record_action_Inr [OF assms(1)] by (auto simp: Let_def split: if_splits)
  ultimately have "R ?s1 s'" by blast
  then show ?thesis by (rule R_trans [OF R_other, rotated 2]) simp_all
qed

lemma R_apply_follow_up_action:
  assumes "apply_follow_up_action P s uid order_id i follow_result actor note now = Inr (res, s')"
  shows "R s s'"
proof (cases "\<exists>r lead. locked_round_state s i = (Some r, Some lead)")
  case False
  then have "s' = s" using assms by (auto simp: apply_follow_up_action_def Let_def split: option.splits prod.splits if_splits)
  then show ?thesis by (simp add: R_refl)
next
  case True
  then obtain r lead where l: "locked_round_state s i = (Some r, Some lead)" by blast
  obtain fenced s1 where ref: "refresh_terminal_evidence_for_locked_lead P s lead now None = (fenced, s1)" by (metis prod.exhaust)
  have s1: "\<not> fenced \<Longrightarrow> s1 = s"
    using ref by (auto simp: refresh_terminal_evidence_for_locked_lead_def split: option.splits)
  have r: "get_round s (r_assignment_round_id r) = Some r" using locked_keys [OF l] by blast
  have "s' = s \<or> s' = s1 \<or> s' = close_for_terminal_order s lead r now
     \<or> (\<exists>f. record_action P s lead r f now = Inr (res, s'))"
    using assms l ref s1 by (auto simp: apply_follow_up_action_def Let_def split: if_splits)
  then show ?thesis using R_refl R_refresh [OF ref] R_close_for_terminal_order [OF r] R_record_action [OF _ r] by blast
qed

lemma R_due_transition:
  assumes "due_transition P te now i (stats, s) = (stats', s')"
  shows "R s s'"
proof (cases "\<exists>r lead. locked_round_state s i = (Some r, Some lead)")
  case False
  then have "s' = s" using assms by (auto simp: due_transition_def split: option.splits prod.splits)
  then show ?thesis by (simp add: R_refl)
next
  case True
  then obtain r lead where l: "locked_round_state s i = (Some r, Some lead)" by blast
  obtain fenced s1 where ref: "refresh_terminal_evidence_for_locked_lead P s lead now (map_of te (r_order_id r)) = (fenced, s1)"
    by (metis prod.exhaust)
  have s1: "\<not> fenced \<Longrightarrow> s1 = s"
    using ref by (auto simp: refresh_terminal_evidence_for_locked_lead_def split: option.splits)
  have r: "get_round s (r_assignment_round_id r) = Some r" using locked_keys [OF l] by blast
  have "s' = s \<or> s' = s1 \<or> s' = close_for_terminal_order s lead r now \<or> (\<exists>cause. s' = close_for_reassignment s lead r cause now)"
    using assms l ref s1 by (auto simp: due_transition_def Let_def split: if_splits)
  then show ?thesis
    using R_refl R_refresh [OF ref] R_close_for_terminal_order [OF r] R_close_for_reassignment [OF r] by blast
qed

lemma R_process_due_transitions:
  assumes "process_due_transitions P s now = (stats, s')"
  shows "R s s'"
proof -
  have "R s s'" if "fold (due_transition P te now) ids (st, s) = (st', s')" for te ids st st' s
    using that
  proof (induction ids arbitrary: st s)
    case Nil
    then show ?case by (simp add: R_refl)
  next
    case (Cons i ids)
    obtain st1 s1 where d: "due_transition P te now i (st, s) = (st1, s1)" by (metis prod.exhaust)
    show ?case using Cons.IH [of st1 s1] Cons.prems d R_trans [OF R_due_transition [OF d]] by simp
  qed
  with assms show ?thesis by (simp add: process_due_transitions_def Let_def)
qed

lemma R_soft_delete:
  assumes "soft_delete_follow_up_record P s uid actor reason now = (res, s')"
  shows "R s s'"
proof (cases "fs_status res = ''ok''")
  case False
  then have "s' = s" using assms
    by (auto simp: soft_delete_follow_up_record_def refused_def Let_def split: if_splits option.splits prod.splits)
  then show ?thesis by (simp add: R_refl)
next
  case True
  obtain f f' r lead where "get_follow_up s uid = Some f" "f_deleted_at f = None"
    and l: "locked_round_state s (f_assignment_round_id f) = (Some r, lead)"
    and "f_follow_up_record_id f' = uid" "f_deleted_at f' = Some now"
    and s': "s' = (if (case lead of None \<Rightarrow> False | Some l \<Rightarrow> is_current_active_round l r)
               then recalculate_active_round_summary (put_follow_up f' s) r now
               else recalculate_detached_round_summary (put_follow_up f' s) r now)"
    by (rule soft_delete_ok [OF assms True])
  let ?s1 = "put_follow_up f' s"
  have "get_round s (f_assignment_round_id f) = Some r" using l by (auto simp: locked_round_state_def split: option.splits)
  then have r: "get_round ?s1 (r_assignment_round_id r) = Some r"
    using round_table.get_key [of s "f_assignment_round_id f" r] by (simp add: put_follow_up_def)
  have "R ?s1 (recalculate_active_round_summary ?s1 r now)"
    by (rule R_put_round_then [OF r, of "(active_summary r (live_records ?s1 (r_assignment_round_id r)))\<lparr>r_updated_at := now\<rparr>"])
      (simp_all add: recalculate_active_round_summary_def project_current_round_summary_def Let_def R_with_center)
  moreover have "R ?s1 (recalculate_detached_round_summary ?s1 r now)"
  proof (cases "r_round_status r \<in> set active_round_statuses")
    case True
    show ?thesis
      by (rule R_put_round_then [OF r, of "(detached_summary r (live_records ?s1 (r_assignment_round_id r)))\<lparr>r_updated_at := now\<rparr>"])
        (simp_all add: recalculate_detached_round_summary_def True Let_def R_with_center)
  qed (simp add: recalculate_detached_round_summary_def R_refl)
  moreover have "R s ?s1" by (rule R_other) (simp_all add: put_follow_up_def)
  ultimately show ?thesis using s' R_trans by (metis (full_types))
qed

end

section \<open>What the writes preserve\<close>

text \<open>A centre that shows a round shows a stored round of its own order.\<close>

definition centers_ok :: "db \<Rightarrow> bool" where
  "centers_ok s \<longleftrightarrow> (\<forall>i c. get_center s i = Some c \<longrightarrow> c_current_assignment_round_id c = None \<or> shows_own_round s c)"

definition flags_ok :: "db \<Rightarrow> bool" where
  "flags_ok s \<longleftrightarrow> (\<forall>i r. get_round s i = Some r \<longrightarrow> round_flags_ok r)"

text \<open>Every round a lead ever had is still on record, with its store.\<close>

definition history_grows :: "db \<Rightarrow> db \<Rightarrow> bool" where
  "history_grows s s' \<longleftrightarrow> distinct (map r_assignment_round_id (t_rounds s')) \<and>
     (\<forall>k. set (historical_self_owned_store_ids s k) \<subseteq> set (historical_self_owned_store_ids s' k))"

lemma historical_store_ids:
  "i \<in> set (historical_self_owned_store_ids s k) \<longleftrightarrow>
     (\<exists>r \<in> set (t_rounds s). r_lead_key r = Some k \<and> r_execution_mode r \<in> set self_owned_execution_modes
        \<and> clean (r_assigned_store_id r) = Some i)"
  by (force simp: historical_self_owned_store_ids_def cleaned_def)

lemma historical_core:
  "set (map round_core (t_rounds s)) \<subseteq> set (map round_core (t_rounds s')) \<Longrightarrow>
     set (historical_self_owned_store_ids s k) \<subseteq> set (historical_self_owned_store_ids s' k)"
proof
  fix i
  assume sub: "set (map round_core (t_rounds s)) \<subseteq> set (map round_core (t_rounds s'))"
    and "i \<in> set (historical_self_owned_store_ids s k)"
  then obtain r where r: "r \<in> set (t_rounds s)" "r_lead_key r = Some k" "r_execution_mode r \<in> set self_owned_execution_modes"
    "clean (r_assigned_store_id r) = Some i" by (auto simp: historical_store_ids)
  then obtain r' where "r' \<in> set (t_rounds s')" "round_core r' = round_core r" using sub by fastforce
  with r show "i \<in> set (historical_self_owned_store_ids s' k)" by (auto simp: historical_store_ids round_core_def)
qed

lemma get_round_add: "get_round (s\<lparr>t_rounds := add_row r (t_rounds s)\<rparr>) i =
  (case get_round s i of Some x \<Rightarrow> Some x | None \<Rightarrow> if r_assignment_round_id r = i then Some r else None)"
  by (simp add: get_round_def find_row_add)

lemma get_center_add: "get_center (s\<lparr>t_centers := add_row c (t_centers s)\<rparr>) i =
  (case get_center s i of Some x \<Rightarrow> Some x | None \<Rightarrow> if c_order_id c = i then Some c else None)"
  by (simp add: get_center_def find_row_add)

lemma get_unchanged [simp]:
  "get_center (s\<lparr>t_rounds := x\<rparr>) = get_center s" "get_center (put_round r s) = get_center s"
  "get_round (s\<lparr>t_centers := y\<rparr>) = get_round s" "get_round (put_center c s) = get_round s"
  by (simp_all add: get_center_def get_round_def put_round_def put_center_def fun_eq_iff)

lemma shows_own_round_mono:
  assumes "\<And>i r. get_round s i = Some r \<Longrightarrow> \<exists>r'. get_round s' i = Some r' \<and> round_core r' = round_core r"
    and "shows_own_round s c"
  shows "shows_own_round s' c"
proof -
  from assms(2) obtain r where r: "c_current_assignment_round_id c = Some (r_assignment_round_id r)"
    "get_round s (r_assignment_round_id r) = Some r" "r_order_id r = c_order_id c" by (auto simp: shows_own_round_def)
  from assms(1) [OF r(2)] obtain r' where "get_round s' (r_assignment_round_id r) = Some r'" "round_core r' = round_core r" by blast
  with r show ?thesis by (auto simp: shows_own_round_def round_core_def intro!: exI [of _ r'])
qed

interpretation centers: write_closed "\<lambda>s s'. centers_ok s \<longrightarrow> centers_ok s'"
proof
  fix s r r'
  assume r: "get_round s (r_assignment_round_id r) = Some r" and core: "round_core r' = round_core r"
  have "\<exists>x'. get_round (put_round r' s) i = Some x' \<and> round_core x' = round_core x" if "get_round s i = Some x" for i x
    using that r core round_table.get_put [of r' s i] round_core_id [OF core] by (cases "i = r_assignment_round_id r") auto
  from shows_own_round_mono [of s "put_round r' s", OF this] show "centers_ok s \<longrightarrow> centers_ok (put_round r' s)"
    by (auto simp: centers_ok_def)
next
  fix s and r :: clue_assignment_round
  assume "get_round s (r_assignment_round_id r) = None"
  have "shows_own_round (s\<lparr>t_rounds := add_row r (t_rounds s)\<rparr>) c" if "shows_own_round s c" for c
    using that by (rule shows_own_round_mono [rotated]) (simp add: get_round_add)
  then show "centers_ok s \<longrightarrow> centers_ok (s\<lparr>t_rounds := add_row r (t_rounds s)\<rparr>)"
    by (auto simp: centers_ok_def)
next
  fix s c
  assume "get_center s (c_order_id c) = None" "shows_own_round s c"
  then show "centers_ok s \<longrightarrow> centers_ok (s\<lparr>t_centers := add_row c (t_centers s)\<rparr>)"
    by (auto simp: centers_ok_def get_center_add shows_own_round_def split: option.splits if_splits)
next
  fix s c c'
  assume c: "get_center s (c_order_id c) = Some c" "c_order_id c' = c_order_id c"
    and w: "c_current_assignment_round_id c' \<in> {None, c_current_assignment_round_id c} \<or> shows_own_round s c'"
  have eq: "shows_own_round s c' = shows_own_round s c" if "c_current_assignment_round_id c' = c_current_assignment_round_id c"
    using that c(2) by (simp add: shows_own_round_def)
  have same: "shows_own_round (put_center c' s) x = shows_own_round s x" for x by (simp add: shows_own_round_def)
  show "centers_ok s \<longrightarrow> centers_ok (put_center c' s)"
  proof
    assume ok: "centers_ok s"
    then have "c_current_assignment_round_id c = None \<or> shows_own_round s c" using c(1) unfolding centers_ok_def by blast
    then have "c_current_assignment_round_id c' = None \<or> shows_own_round s c'" using w eq by auto
    with ok show "centers_ok (put_center c' s)"
      using center_table.get_put [of c' s] c by (auto simp: centers_ok_def same split: if_splits)
  qed
next
  fix s s' :: db
  assume "t_rounds s' = t_rounds s" "t_centers s' = t_centers s"
  then show "centers_ok s \<longrightarrow> centers_ok s'" by (simp add: centers_ok_def get_center_def get_round_def shows_own_round_def)
qed blast

interpretation flags: write_closed "\<lambda>s s'. flags_ok s \<longrightarrow> flags_ok s'"
proof
  fix s r r'
  assume r: "get_round s (r_assignment_round_id r) = Some r" and ok: "round_flags_ok r \<Longrightarrow> round_flags_ok r'"
  show "flags_ok s \<longrightarrow> flags_ok (put_round r' s)"
  proof
    assume f: "flags_ok s"
    then have "round_flags_ok r'" using r ok unfolding flags_ok_def by blast
    with f show "flags_ok (put_round r' s)" by (simp add: flags_ok_def round_table.get_put)
  qed
next
  fix s and r :: clue_assignment_round
  assume "round_flags_ok r"
  then show "flags_ok s \<longrightarrow> flags_ok (s\<lparr>t_rounds := add_row r (t_rounds s)\<rparr>)"
    by (auto simp: flags_ok_def get_round_add split: option.splits if_splits)
next
  fix s s' s'' :: db
  assume "flags_ok s \<longrightarrow> flags_ok s'" and "flags_ok s' \<longrightarrow> flags_ok s''"
  then show "flags_ok s \<longrightarrow> flags_ok s''" by blast
qed (simp_all add: flags_ok_def get_round_def put_center_def)

interpretation history: write_closed
  "\<lambda>s s'. distinct (map r_assignment_round_id (t_rounds s)) \<longrightarrow> history_grows s s'"
proof
  fix s r r'
  assume r: "get_round s (r_assignment_round_id r) = Some r" and core: "round_core r' = round_core r"
  show "distinct (map r_assignment_round_id (t_rounds s)) \<longrightarrow> history_grows s (put_round r' s)"
  proof
    assume d: "distinct (map r_assignment_round_id (t_rounds s))"
    have "map round_core (t_rounds (put_round r' s)) = map round_core (t_rounds s)"
      "map r_assignment_round_id (t_rounds (put_round r' s)) = map r_assignment_round_id (t_rounds s)"
      by (rule put_round_map [OF d r round_core_id [OF core] core],
          rule put_round_map [OF d r round_core_id [OF core] round_core_id [OF core]])
    with d show "history_grows s (put_round r' s)" using historical_core [of s "put_round r' s"] by (simp only: history_grows_def) simp
  qed
next
  fix s and r :: clue_assignment_round
  assume "get_round s (r_assignment_round_id r) = None"
  then have "r_assignment_round_id r \<notin> r_assignment_round_id ` set (t_rounds s)" by (auto simp: get_round_def find_row_None)
  moreover have "set (historical_self_owned_store_ids s k) \<subseteq> set (historical_self_owned_store_ids (s\<lparr>t_rounds := add_row r (t_rounds s)\<rparr>) k)" for k
    by (rule historical_core) auto
  ultimately show "distinct (map r_assignment_round_id (t_rounds s)) \<longrightarrow> history_grows s (s\<lparr>t_rounds := add_row r (t_rounds s)\<rparr>)"
    by (simp add: history_grows_def)
next
  fix s s' :: db
  assume "t_rounds s' = t_rounds s"
  then show "distinct (map r_assignment_round_id (t_rounds s)) \<longrightarrow> history_grows s s'"
    by (simp add: history_grows_def historical_self_owned_store_ids_def)
next
  fix s s' s'' :: db
  assume "distinct (map r_assignment_round_id (t_rounds s)) \<longrightarrow> history_grows s s'"
    and "distinct (map r_assignment_round_id (t_rounds s')) \<longrightarrow> history_grows s' s''"
  then show "distinct (map r_assignment_round_id (t_rounds s)) \<longrightarrow> history_grows s s''"
    unfolding history_grows_def by (meson subset_trans)
qed (simp_all add: history_grows_def historical_self_owned_store_ids_def put_center_def)

section \<open>Runs\<close>

text \<open>
  One operation on the clue tables, with any arguments and any outcome that commits. An operation that
  raises leaves the tables as they are.
\<close>

inductive clue_step :: "platform \<Rightarrow> db \<Rightarrow> db \<Rightarrow> bool" for P where
  allocate: "allocate_lead P te s lead_key mode cycle actor now start_after tr override = Inr (res, s') \<Longrightarrow> clue_step P s s'"
| allocate_batch: "allocate_leads P s lead_keys mode cycle actor now override = Inr (results, s') \<Longrightarrow> clue_step P s s'"
| follow_up: "apply_follow_up_action P s uid order_id i follow_result who note now = Inr (outcome, s') \<Longrightarrow> clue_step P s s'"
| due: "process_due_transitions P s now = (stats, s') \<Longrightarrow> clue_step P s s'"
| reverse: "soft_delete_follow_up_record P s uid who reason now = (outcome, s') \<Longrightarrow> clue_step P s s'"
| terminal: "get_lead s k = Some lead \<Longrightarrow> refresh_terminal_evidence_for_locked_lead P s lead now g = (fenced, s') \<Longrightarrow> clue_step P s s'"

inductive_cases clue_stepE: "clue_step P s s'"

lemma soft_delete_inv:
  assumes "soft_delete_follow_up_record P s uid actor reason now = (res, s')" and "engine_inv s"
  shows "engine_inv s'"
proof (cases "fs_status res = ''ok''")
  case False
  then have "s' = s" using assms(1)
    by (auto simp: soft_delete_follow_up_record_def refused_def Let_def split: if_splits option.splits prod.splits)
  then show ?thesis using assms(2) by simp
next
  case True
  obtain f f' r lead where "get_follow_up s uid = Some f" "f_deleted_at f = None"
    and l: "locked_round_state s (f_assignment_round_id f) = (Some r, lead)"
    and "f_follow_up_record_id f' = uid" "f_deleted_at f' = Some now"
    and s': "s' = (if (case lead of None \<Rightarrow> False | Some l \<Rightarrow> is_current_active_round l r)
               then recalculate_active_round_summary (put_follow_up f' s) r now
               else recalculate_detached_round_summary (put_follow_up f' s) r now)"
    by (rule soft_delete_ok [OF assms(1) True])
  let ?s1 = "put_follow_up f' s"
  let ?a = "(active_summary r (live_records ?s1 (r_assignment_round_id r)))\<lparr>r_updated_at := now\<rparr>"
  let ?d = "(detached_summary r (live_records ?s1 (r_assignment_round_id r)))\<lparr>r_updated_at := now\<rparr>"
  have "get_round s (f_assignment_round_id f) = Some r" using l by (auto simp: locked_round_state_def split: option.splits)
  then have r: "get_round ?s1 (r_assignment_round_id r) = Some r"
    using round_table.get_key [of s "f_assignment_round_id f" r] by (simp add: put_follow_up_def)
  have inv: "engine_inv ?s1" using assms(2) by (simp add: put_follow_up_def)
  have "round_write (r_assignment_round_id r) ?a ?s1 (recalculate_active_round_summary ?s1 r now)"
    by (rule round_writeI [OF inv r]) (simp_all add: recalculate_active_round_summary_def Let_def)
  moreover have "recalculate_detached_round_summary ?s1 r now = ?s1
     \<or> round_write (r_assignment_round_id r) ?d ?s1 (recalculate_detached_round_summary ?s1 r now)"
  proof (cases "r_round_status r \<in> set active_round_statuses")
    case True
    have "round_write (r_assignment_round_id r) ?d ?s1 (recalculate_detached_round_summary ?s1 r now)"
      by (rule round_writeI [OF inv r]) (simp_all add: recalculate_detached_round_summary_def True Let_def)
    then show ?thesis ..
  qed (simp add: recalculate_detached_round_summary_def)
  ultimately show ?thesis using s' inv round_write_engine_inv by (metis (full_types))
qed

lemma batch_inv:
  assumes "allocate_leads P s lead_keys mode cycle actor now override = Inr (rs, s')" and "engine_inv s"
  shows "engine_inv s'"
proof -
  have "engine_inv s'" if "allocate_in_order (\<lambda>st k. allocate_lead P te st (Some k) mode cycle actor now None None override) iks s
      = Inr (out, s')" "engine_inv s" for te iks s out
    using that
  proof (induction iks arbitrary: s out)
    case (Cons ik iks)
    then obtain k r s1 out' where a: "allocate_lead P te s (Some k) mode cycle actor now None None override = Inr (r, s1)"
      and "allocate_in_order (\<lambda>st k. allocate_lead P te st (Some k) mode cycle actor now None None override) iks s1 = Inr (out', s')"
      by (cases ik) (auto simp: bind_result_Inr)
    with Cons.IH Cons.prems(2) allocate_lead_effect [OF a] show ?case by (auto simp: allocation_effect_def)
  qed simp
  with assms show ?thesis by (metis allocate_leads_cases)
qed

lemma process_due_inv: "process_due_transitions P s now = (stats, s') \<Longrightarrow> engine_inv s \<Longrightarrow> engine_inv s'"
  using due_transitions_effect by (fastforce simp: process_due_transitions_def Let_def)

lemma terminal_step_inv:
  "get_lead s k = Some lead \<Longrightarrow> refresh_terminal_evidence_for_locked_lead P s lead now g = (fenced, s') \<Longrightarrow> engine_inv s \<Longrightarrow> engine_inv s'"
  using terminal_refresh_effect [of P s lead now g fenced s'] lead_table.get_key [of s k lead] by auto

lemma action_inv:
  assumes "apply_follow_up_action P s uid order_id i follow_result actor note now = Inr (res, s')" and "engine_inv s"
  shows "engine_inv s'"
  using apply_action_cases [OF assms]
proof (elim disjE exE conjE)
  fix r lead
  assume "action_allowed P s order_id i actor r lead"
    and rec: "record_action P s lead r (new_follow_up P uid r order_id (py_strip (or_else follow_result [])) actor note now) now
       = Inr (res, s')"
  then have "get_round s (r_assignment_round_id r) = Some r" "get_lead s (l_lead_key lead) = Some lead"
    using locked_keys [of s i r lead] by (auto simp: action_allowed_def followed_up_def)
  from record_action_keeps [OF rec assms(2) this] show ?thesis by blast
qed (use assms(2) in \<open>auto simp: due_effect_def\<close>)

lemma clue_step_engine_inv: "clue_step P s s' \<Longrightarrow> engine_inv s \<Longrightarrow> engine_inv s'"
  by (erule clue_stepE)
    (auto simp: allocation_effect_def dest: allocate_lead_effect intro: batch_inv action_inv process_due_inv soft_delete_inv terminal_step_inv)

context write_closed begin

lemma R_step: "clue_step P s s' \<Longrightarrow> R s s'"
  by (erule clue_stepE)
    (blast intro: R_allocate_lead R_allocate_leads R_apply_follow_up_action R_process_due_transitions R_soft_delete R_refresh)+

lemma R_run: "(clue_step P)\<^sup>*\<^sup>* s s' \<Longrightarrow> R s s'"
  by (induction rule: rtranclp_induct) (blast intro: R_refl R_trans R_step)+

end

lemma run_engine_inv: "(clue_step P)\<^sup>*\<^sup>* s s' \<Longrightarrow> engine_inv s \<Longrightarrow> engine_inv s'"
  by (induction rule: rtranclp_induct) (blast intro: clue_step_engine_inv)+

text \<open>
  The consistency of the clue tables: keys and round numbers unique and at most one active headquarters
  entry per lead; every order centre that shows a round shows a stored round of its own order; and every
  round's follow-up flags agree with its status and with its follow-up time.
\<close>

definition clue_inv :: "db \<Rightarrow> bool" where
  "clue_inv s \<longleftrightarrow> engine_inv s \<and> centers_ok s \<and> flags_ok s"

lemma clue_inv_run: "(clue_step P)\<^sup>*\<^sup>* s s' \<Longrightarrow> clue_inv s \<Longrightarrow> clue_inv s'"
  using run_engine_inv [of P s s'] centers.R_run [of P s s'] flags.R_run [of P s s'] by (simp add: clue_inv_def)

section \<open>An example\<close>

text \<open>The lead under follow-up, with the centre of its order.\<close>

definition example_center :: clue_center_order where
  "example_center = assigned_center example_assigned_lead example_round
     \<lparr>cd_store_id = Some ''S1'', cd_store_name = None, cd_city_code = None, cd_eligible = True, cd_exclusion_reasons = [],
      cd_distance_km = None, cd_score = None, cd_used_for_ranking = False, cd_rank = Some 1\<rparr> 10 10"

definition example_center_db :: db where
  "example_center_db = example_follow_up_db\<lparr>t_centers := [example_center]\<rparr>"

lemma example_center_inv: "clue_inv example_center_db"
proof -
  have "engine_inv example_center_db" using example_follow_up_inv by (simp add: example_center_db_def engine_inv_def pool_inv_def)
  moreover have "centers_ok example_center_db"
    by (auto simp: centers_ok_def shows_own_round_def example_center_db_def example_follow_up_db_def get_center_def get_round_def
        find_row_Cons example_center_def assigned_center_def split: if_splits)
  moreover have "flags_ok example_center_db"
    by (auto simp: flags_ok_def round_flags_ok_def example_center_db_def example_follow_up_db_def get_round_def
        find_row_Cons example_round_def active_round_statuses_def split: if_splits)
  ultimately show ?thesis by (simp add: clue_inv_def)
qed

lemma example_center_action:
  "case apply_follow_up_action example_platform example_center_db ''F1'' ''O1'' ''R1'' (Some ''appointment'') example_actor None 20 of
     Inl _ \<Rightarrow> False
   | Inr (res, s') \<Rightarrow> fs_status res = ''ok'' \<and> can_reveal_current_order_phone example_platform s' ''O1'' example_actor"
  by code_simp

lemma example_due_step: "clue_step example_platform example_allocation_db example_allocation_db"
proof -
  have "active_formal_rounds example_allocation_db = []"
    by (simp add: active_formal_rounds_def example_allocation_db_def example_old_round_def active_round_statuses_def)
  then have "snd (process_due_transitions example_platform example_allocation_db 50) = example_allocation_db"
    by (simp add: process_due_transitions_def Let_def)
  then show ?thesis using clue_step.due by (metis prod.collapse)
qed

section \<open>Properties\<close>

text \<open>
  C7. However allocations, batches, follow-ups, due transitions, reversals and terminal refreshes are
  interleaved, the tables stay consistent: keys and round numbers unique and at most one active
  headquarters entry per lead; every order centre that shows a round shows a stored round of its own order;
  and every round's follow-up flags agree with its status and with its follow-up time.
\<close>

theorem clue_tables_stay_consistent:
  assumes "(clue_step P)\<^sup>*\<^sup>* s s'" and "clue_inv s"
  shows "clue_inv s'"
  using assms by (rule clue_inv_run)

theorem clue_tables_stay_consistent_witness:
  "\<exists>res s'. apply_follow_up_action example_platform example_center_db ''F1'' ''O1'' ''R1'' (Some ''appointment'') example_actor None 20
     = Inr (res, s') \<and> fs_status res = ''ok'' \<and> clue_inv s'"
proof -
  obtain res s' where a: "apply_follow_up_action example_platform example_center_db ''F1'' ''O1'' ''R1'' (Some ''appointment'')
      example_actor None 20 = Inr (res, s')" "fs_status res = ''ok''"
    using example_center_action by (auto split: sum.splits)
  have "(clue_step example_platform)\<^sup>*\<^sup>* example_center_db s'" using clue_step.follow_up [OF a(1)] by blast
  from clue_tables_stay_consistent [OF this example_center_inv] a show ?thesis by blast
qed



text \<open>
  C20. In every state a run reaches, a customer's phone is shown only to someone who may act for the
  store that is following this very order up: the round belongs to the order and is its lead's current
  active round, and the viewer can operate it.
\<close>

theorem phone_is_revealed_only_to_the_current_store:
  assumes run: "(clue_step P)\<^sup>*\<^sup>* s s'" and inv: "clue_inv s" and reveal: "can_reveal_current_order_phone P s' order_id actor"
  shows "\<exists>r lead. followed_up s' (r_assignment_round_id r) r lead \<and> r_order_id r = order_id \<and> actor_can_operate_round P r actor"
proof -
  from reveal obtain c i r lead where c: "get_center s' order_id = Some c" "c_current_assignment_round_id c = Some i"
    and l: "locked_round_state s' i = (Some r, Some lead)" and ok: "is_current_active_round lead r" "actor_can_operate_round P r actor"
    by (auto simp: can_reveal_current_order_phone_def truthy_def split: option.splits if_splits prod.splits)
  have "shows_own_round s' c" using clue_inv_run [OF run inv] c unfolding clue_inv_def centers_ok_def by force
  then have "r_order_id r = order_id"
    using c l center_table.get_key [OF c(1)] by (auto simp: shows_own_round_def locked_round_state_def split: option.splits)
  with l ok locked_keys [OF l] show ?thesis by (auto simp: followed_up_def)
qed

theorem phone_is_revealed_only_to_the_current_store_witness:
  "\<exists>res s' r lead. apply_follow_up_action example_platform example_center_db ''F1'' ''O1'' ''R1'' (Some ''appointment'')
       example_actor None 20 = Inr (res, s')
     \<and> followed_up s' (r_assignment_round_id r) r lead \<and> r_order_id r = ''O1'' \<and> actor_can_operate_round example_platform r example_actor"
proof -
  obtain res s' where a: "apply_follow_up_action example_platform example_center_db ''F1'' ''O1'' ''R1'' (Some ''appointment'')
      example_actor None 20 = Inr (res, s')" "can_reveal_current_order_phone example_platform s' ''O1'' example_actor"
    using example_center_action by (auto split: sum.splits)
  have "(clue_step example_platform)\<^sup>*\<^sup>* example_center_db s'" using clue_step.follow_up [OF a(1)] by blast
  from phone_is_revealed_only_to_the_current_store [OF this example_center_inv a(2)] a(1) show ?thesis by blast
qed

end
