(* ===== verification/Receipts.thy ===== *)
theory Receipts
  imports ClueModel
begin

text \<open>
  The receipt amount a settlement fee is based on (\<open>apps/worker/receipt_amounts.py\<close>): reading an
  amount in cents from a saved payload, the sub-order lines of an order, how many coupons share an
  item, and the receipt of one coupon. A receipt that cannot be proven is \<open>None\<close>.
\<close>

section \<open>Amounts\<close>

fun whole_cents :: "pynum \<Rightarrow> int option" where
  "whole_cents (Fin q) = (if is_integral q then Some \<lfloor>q\<rfloor> else None)"
| "whole_cents _ = None"

definition parse_receipt_amount_cent :: "pyval \<Rightarrow> int option" where
  "parse_receipt_amount_cent v =
     Option.bind
       (case v of
          PInt i \<Rightarrow> Some i
        | PDec x \<Rightarrow> whole_cents x
        | PFloat x \<Rightarrow> whole_cents x
        | PStr s \<Rightarrow> (let t = py_strip s in if t = [] then None else Option.bind (parse_decimal t) whole_cents)
        | _ \<Rightarrow> None)
       (\<lambda>n. if n < 0 then None else Some n)"

section \<open>Sub-order lines\<close>

record sub_order_receipts =
  sr_unique :: "(string \<times> int) list"
  sr_unusable :: "string list"
  sr_entries_present :: bool
  sr_complete_total :: "int option"
  sr_corrupt :: bool

definition no_sub_orders :: sub_order_receipts where
  "no_sub_orders = \<lparr>sr_unique = [], sr_unusable = [], sr_entries_present = False, sr_complete_total = None, sr_corrupt = False\<rparr>"

definition corrupt_sub_orders :: "bool \<Rightarrow> sub_order_receipts" where
  "corrupt_sub_orders present = no_sub_orders\<lparr>sr_entries_present := present, sr_corrupt := True\<rparr>"

text \<open>\<open>observed.setdefault(item_id, []).append(parsed)\<close>, on a dictionary in insertion order.\<close>

type_synonym observations = "(string \<times> int option list) list"

fun observe :: "string \<Rightarrow> int option \<Rightarrow> observations \<Rightarrow> observations" where
  "observe i v [] = [(i, [v])]"
| "observe i v ((k, vs) # obs) = (if k = i then (k, vs @ [v]) # obs else (k, vs) # observe i v obs)"

text \<open>The identifier of a line, \<open>None\<close> where its two identifiers contradict each other.\<close>

definition line_item_id :: "platform \<Rightarrow> pydict \<Rightarrow> string option option" where
  "line_item_id P d =
     (let item = dget d ''order_item_id''; sub = dget d ''sub_order_id'';
          stripped = (\<lambda>v. py_strip (py_str (py_repr P) v));
          raw = (if item = PNone then sub else item)
      in if item \<noteq> PNone \<and> sub \<noteq> PNone \<and> stripped item \<noteq> stripped sub then None
         else Some (if raw = PNone \<or> stripped raw = [] then None else Some (stripped raw)))"

fun scan_lines :: "platform \<Rightarrow> pyval list \<Rightarrow> observations \<Rightarrow> int \<Rightarrow> bool \<Rightarrow> (observations \<times> int \<times> bool) option" where
  "scan_lines P [] observed amount whole = Some (observed, amount, whole)"
| "scan_lines P (entry # entries) observed amount whole =
     (case entry of
        PDict d \<Rightarrow>
          (let parsed = parse_receipt_amount_cent (dget d ''receipt_amount'');
               whole' = (whole \<and> parsed \<noteq> None);
               amount' = (case parsed of None \<Rightarrow> amount | Some n \<Rightarrow> amount + n)
           in case line_item_id P d of
                None \<Rightarrow> None
              | Some None \<Rightarrow> scan_lines P entries observed amount' whole'
              | Some (Some i) \<Rightarrow> scan_lines P entries (observe i parsed observed) amount' whole')
      | _ \<Rightarrow> scan_lines P entries observed amount False)"

fun proven_once :: "int option list \<Rightarrow> int option" where
  "proven_once [v] = v"
| "proven_once _ = None"

definition sub_orders_of_payload :: "platform \<Rightarrow> pyval \<Rightarrow> sub_order_receipts" where
  "sub_orders_of_payload P payload =
     (if \<not> is_dict payload \<or> \<not> dhas (the_dict payload) ''sub_order_amount_infos'' then no_sub_orders
      else case dget (the_dict payload) ''sub_order_amount_infos'' of
             PList [] \<Rightarrow> no_sub_orders
           | PList entries \<Rightarrow>
               (case scan_lines P entries [] 0 True of
                  None \<Rightarrow> corrupt_sub_orders True
                | Some (observed, amount, whole) \<Rightarrow>
                    (let unusable = map fst (filter (\<lambda>(i, vs). proven_once vs = None) observed)
                     in \<lparr>sr_unique = List.map_filter (\<lambda>(i, vs). map_option (Pair i) (proven_once vs)) observed,
                         sr_unusable = unusable, sr_entries_present = True,
                         sr_complete_total = (if whole \<and> unusable = [] then Some amount else None), sr_corrupt = False\<rparr>))
           | _ \<Rightarrow> corrupt_sub_orders False)"

section \<open>Coupon attribution\<close>

record order_attribution =
  oa_coupon_count :: int
  oa_item_share_counts :: "(string \<times> int) list"

definition item_share_count_of :: "order_attribution \<Rightarrow> string \<Rightarrow> int" where
  "item_share_count_of a i = (case map_of (oa_item_share_counts a) i of None \<Rightarrow> 0 | Some n \<Rightarrow> n)"

text \<open>\<open>SELECT key, count(*) ... GROUP BY key\<close>.\<close>

definition group_count :: "('a \<Rightarrow> 'k) \<Rightarrow> 'a list \<Rightarrow> ('k \<times> int) list" where
  "group_count key rows = map (\<lambda>k. (k, int (length (filter (\<lambda>r. key r = k) rows)))) (remdups (map key rows))"

definition load_order_attributions :: "db \<Rightarrow> int list \<Rightarrow> (int \<times> order_attribution) list" where
  "load_order_attributions s order_ids =
     (let ids = sort (remdups order_ids);
          coupons = filter (\<lambda>c. cp_raw_order_id c \<in> set ids) (t_coupons s);
          counts = group_count cp_raw_order_id coupons;
          shares = group_count (\<lambda>c. (cp_raw_order_id c, the (cp_order_item_id c)))
            (filter (\<lambda>c. cp_order_item_id c \<noteq> None) coupons)
      in map (\<lambda>i. (i, \<lparr>oa_coupon_count = (case map_of counts i of None \<Rightarrow> 0 | Some n \<Rightarrow> n),
                       oa_item_share_counts = List.map_filter (\<lambda>((j, item), n). if j = i then Some (item, n) else None) shares\<rparr>)) ids)"

definition order_coupon_count :: "db \<Rightarrow> raw_douyin_order \<Rightarrow> int" where
  "order_coupon_count s ord = int (length (filter (\<lambda>c. cp_raw_order_id c = o_id ord) (t_coupons s)))"

definition coupon_item_share_count :: "db \<Rightarrow> raw_douyin_order \<Rightarrow> string \<Rightarrow> int" where
  "coupon_item_share_count s ord i =
     int (length (filter (\<lambda>c. cp_raw_order_id c = o_id ord \<and> cp_order_item_id c = Some i) (t_coupons s)))"

definition item_share_count :: "db \<Rightarrow> raw_douyin_order \<Rightarrow> string \<Rightarrow> order_attribution option \<Rightarrow> int" where
  "item_share_count s ord i attribution =
     (case attribution of Some a \<Rightarrow> item_share_count_of a i | None \<Rightarrow> coupon_item_share_count s ord i)"

section \<open>The receipt of a coupon\<close>

definition interface_count_blocks_order_basis :: "pydict \<Rightarrow> bool" where
  "interface_count_blocks_order_basis d =
     (dhas d ''count'' \<and> (case parse_receipt_amount_cent (dget d ''count'') of None \<Rightarrow> False | Some n \<Rightarrow> 1 < n))"

definition resolve_coupon_receipt_cent ::
  "platform \<Rightarrow> db \<Rightarrow> raw_douyin_order \<Rightarrow> raw_douyin_order_coupon \<Rightarrow> order_attribution option \<Rightarrow> int option" where
  "resolve_coupon_receipt_cent P s ord coupon attribution =
     (let coupon_payload = the_dict (cp_raw_payload coupon) in
      if dhas coupon_payload ''receipt_amount'' then parse_receipt_amount_cent (dget coupon_payload ''receipt_amount'')
      else
        let order_payload = the_dict (o_raw_payload ord);
            sub_orders = sub_orders_of_payload P (PDict order_payload)
        in if sr_corrupt sub_orders then None
           else if (case attribution of Some a \<Rightarrow> oa_coupon_count a | None \<Rightarrow> order_coupon_count s ord) \<noteq> 1
           then (case cp_order_item_id coupon of
                   None \<Rightarrow> None
                 | Some i \<Rightarrow>
                     if i = [] \<or> i \<in> set (sr_unusable sub_orders) then None
                     else case map_of (sr_unique sub_orders) i of
                            None \<Rightarrow> None
                          | Some n \<Rightarrow> if item_share_count s ord i attribution \<noteq> 1 then None else Some n)
           else if interface_count_blocks_order_basis order_payload then None
           else if sr_entries_present sub_orders then sr_complete_total sub_orders
           else if dhas order_payload ''receipt_amount'' then parse_receipt_amount_cent (dget order_payload ''receipt_amount'')
           else None)"

section \<open>What a receipt means\<close>

text \<open>
  The specification, without dictionaries built along the way: what one line says, the lines that name
  an item, and the receipt as a case distinction over them.
\<close>

definition line_amount :: "pyval \<Rightarrow> int option" where
  "line_amount e = (case e of PDict d \<Rightarrow> parse_receipt_amount_cent (dget d ''receipt_amount'') | _ \<Rightarrow> None)"

definition line_cents :: "pyval \<Rightarrow> int" where
  "line_cents e = (case line_amount e of None \<Rightarrow> 0 | Some n \<Rightarrow> n)"

definition line_contradicts :: "platform \<Rightarrow> pyval \<Rightarrow> bool" where
  "line_contradicts P e = (case e of PDict d \<Rightarrow> line_item_id P d = None | _ \<Rightarrow> False)"

definition line_names :: "platform \<Rightarrow> string \<Rightarrow> pyval \<Rightarrow> bool" where
  "line_names P i e = (case e of PDict d \<Rightarrow> line_item_id P d = Some (Some i) | _ \<Rightarrow> False)"

definition lines_for :: "platform \<Rightarrow> pyval list \<Rightarrow> string \<Rightarrow> int option list" where
  "lines_for P es i = map line_amount (filter (line_names P i) es)"

definition named_items :: "platform \<Rightarrow> pyval list \<Rightarrow> string list" where
  "named_items P es =
     List.map_filter (\<lambda>e. case e of PDict d \<Rightarrow> Option.bind (line_item_id P d) (\<lambda>i. i) | _ \<Rightarrow> None) es"

definition order_lines :: "raw_douyin_order \<Rightarrow> pyval list option" where
  "order_lines ord =
     (let d = the_dict (o_raw_payload ord)
      in if \<not> dhas d ''sub_order_amount_infos'' then Some []
         else case dget d ''sub_order_amount_infos'' of PList es \<Rightarrow> Some es | _ \<Rightarrow> None)"

definition proven_receipt :: "platform \<Rightarrow> db \<Rightarrow> raw_douyin_order \<Rightarrow> raw_douyin_order_coupon \<Rightarrow> int option" where
  "proven_receipt P s ord c =
     (let own = the_dict (cp_raw_payload c); d = the_dict (o_raw_payload ord) in
      if dhas own ''receipt_amount'' then parse_receipt_amount_cent (dget own ''receipt_amount'')
      else case order_lines ord of
             None \<Rightarrow> None
           | Some es \<Rightarrow>
               if list_ex (line_contradicts P) es then None
               else if order_coupon_count s ord \<noteq> 1
               then (case cp_order_item_id c of
                       None \<Rightarrow> None
                     | Some i \<Rightarrow> if i \<noteq> [] \<and> coupon_item_share_count s ord i = 1 then proven_once (lines_for P es i) else None)
               else if interface_count_blocks_order_basis d then None
               else if es \<noteq> []
               then (if list_all (\<lambda>e. line_amount e \<noteq> None) es \<and> distinct (named_items P es)
                     then Some (sum_list (map line_cents es)) else None)
               else if dhas d ''receipt_amount'' then parse_receipt_amount_cent (dget d ''receipt_amount'') else None)"

section \<open>Scanning the lines\<close>

lemma parse_receipt_nonneg: "parse_receipt_amount_cent v = Some n \<Longrightarrow> 0 \<le> n"
  by (auto simp: parse_receipt_amount_cent_def Option.bind_eq_Some_conv split: if_splits)

lemma line_cents_nonneg [simp]: "0 \<le> line_cents e"
  by (auto simp: line_cents_def line_amount_def dest: parse_receipt_nonneg split: option.splits pyval.splits)

lemma keys_observe: "map fst (observe i v obs) = (if i \<in> fst ` set obs then map fst obs else map fst obs @ [i])"
  by (induction obs rule: observe.induct) auto

lemma map_of_observe: "map_of (observe i v obs) j =
  (if j = i then Some ((case map_of obs i of None \<Rightarrow> [] | Some vs \<Rightarrow> vs) @ [v]) else map_of obs j)"
  by (induction obs rule: observe.induct) auto

text \<open>What the scan has observed: the amounts of the lines of each item, in order.\<close>

definition extends :: "platform \<Rightarrow> pyval list \<Rightarrow> observations \<Rightarrow> observations \<Rightarrow> bool" where
  "extends P es obs obs' \<longleftrightarrow> distinct (map fst obs') \<and>
     (\<forall>i. map_of obs' i = (if lines_for P es i = [] then map_of obs i
        else Some ((case map_of obs i of None \<Rightarrow> [] | Some vs \<Rightarrow> vs) @ lines_for P es i)))"

lemma other_line:
  assumes "\<not> is_dict e"
  shows "line_amount e = None" "line_cents e = 0" "\<not> line_contradicts P e" "\<not> line_names P i e"
    "scan_lines P (e # es) obs a w = scan_lines P es obs a False"
  using assms by (cases e; simp add: line_amount_def line_cents_def line_contradicts_def line_names_def)+

lemma extends_other: "\<not> is_dict e \<Longrightarrow> extends P (e # es) obs obs' = extends P es obs obs'"
  by (simp add: extends_def lines_for_def other_line)

lemma scan_lines_spec:
  assumes "distinct (map fst obs)"
  shows "if list_ex (line_contradicts P) es then scan_lines P es obs a w = None
         else \<exists>obs'. scan_lines P es obs a w
           = Some (obs', a + sum_list (map line_cents es), w \<and> list_all (\<lambda>e. line_amount e \<noteq> None) es) \<and> extends P es obs obs'"
  using assms
proof (induction es arbitrary: obs a w)
  case Nil
  then show ?case by (simp add: extends_def lines_for_def)
next
  case (Cons e es)
  show ?case
  proof (cases "is_dict e")
    case False
    then show ?thesis
      using Cons.IH [OF Cons.prems, of a False] extends_other [OF False] by (auto simp: other_line simp del: scan_lines.simps)
  next
    case True
    then obtain d where PDict: "e = PDict d" by (cases e) auto
    let ?v = "parse_receipt_amount_cent (dget d ''receipt_amount'')"
    have am: "line_amount e = ?v" by (simp add: PDict line_amount_def)
    show ?thesis
    proof (cases "line_item_id P d")
      case None
      then show ?thesis by (simp add: PDict line_contradicts_def Let_def)
    next
      case (Some oi)
      then have nc: "\<not> line_contradicts P e" by (simp add: PDict line_contradicts_def)
      define obs1 where "obs1 = (case oi of None \<Rightarrow> obs | Some i \<Rightarrow> observe i ?v obs)"
      have d: "distinct (map fst obs1)"
        using Cons.prems by (auto simp: obs1_def keys_observe split: option.splits)
      have ext: "extends P (e # es) obs obs'" if "extends P es obs1 obs'" for obs'
        using that Some
        by (auto simp: extends_def lines_for_def line_names_def PDict am [unfolded PDict] obs1_def map_of_observe split: option.splits)
      have step: "scan_lines P (e # es) obs a w = scan_lines P es obs1 (a + line_cents e) (w \<and> ?v \<noteq> None)"
        by (auto simp: PDict Some obs1_def Let_def line_cents_def am [unfolded PDict] split: option.splits)
      show ?thesis
        using Cons.IH [OF d, of "a + line_cents e" "w \<and> ?v \<noteq> None"] ext nc am
        by (auto simp: step add.assoc simp del: scan_lines.simps)
    qed
  qed
qed

lemma map_of_map_filter:
  "distinct (map fst xs) \<Longrightarrow> map_of (List.map_filter (\<lambda>(i, vs). map_option (Pair i) (f vs)) xs) i = Option.bind (map_of xs i) f"
proof (induction xs)
  case (Cons x xs)
  obtain k vs where x: "x = (k, vs)" by fastforce
  from Cons.prems x have "map_of xs k = None" by (simp add: map_of_eq_None_iff)
  with Cons x show ?case by (auto simp: List.map_filter_simps split: option.splits)
qed (simp add: List.map_filter_simps)

lemma map_of_filtered_keys:
  "distinct (map fst xs) \<Longrightarrow> i \<in> set (map fst (filter (\<lambda>(i, vs). Q vs) xs)) \<longleftrightarrow> (\<exists>vs. map_of xs i = Some vs \<and> Q vs)"
  by (force simp: map_of_eq_Some_iff)

lemma distinct_iff_count: "distinct xs \<longleftrightarrow> (\<forall>i. count_list xs i \<le> 1)"
proof (induction xs)
  case (Cons x xs)
  have "count_list xs x = 0 \<longleftrightarrow> x \<notin> set xs" by (simp add: count_list_0_iff)
  with Cons show ?case by (auto simp: le_Suc_eq)
qed simp

lemma lines_for_count: "length (lines_for P es i) = count_list (named_items P es) i"
  by (induction es)
    (auto simp: lines_for_def named_items_def line_names_def List.map_filter_simps Option.bind_eq_Some_conv split: pyval.splits option.splits)

lemma proven_once_length: "list_all (\<lambda>v. v \<noteq> None) vs \<Longrightarrow> proven_once vs \<noteq> None \<longleftrightarrow> length vs = 1"
  by (cases vs rule: proven_once.cases) auto

lemma sub_orders_spec:
  assumes "order_lines ord = Some es" and "es \<noteq> []" and "\<not> list_ex (line_contradicts P) es"
  defines "so \<equiv> sub_orders_of_payload P (PDict (the_dict (o_raw_payload ord)))"
  shows "\<not> sr_corrupt so" and "sr_entries_present so"
    and "i \<in> set (sr_unusable so) \<longleftrightarrow> lines_for P es i \<noteq> [] \<and> proven_once (lines_for P es i) = None"
    and "map_of (sr_unique so) i = proven_once (lines_for P es i)"
    and "sr_complete_total so = (if list_all (\<lambda>e. line_amount e \<noteq> None) es \<and> distinct (named_items P es)
           then Some (sum_list (map line_cents es)) else None)"
proof -
  let ?whole = "list_all (\<lambda>e. line_amount e \<noteq> None) es"
  obtain obs where scan: "scan_lines P es [] 0 True = Some (obs, sum_list (map line_cents es), ?whole)"
    and ext: "extends P es [] obs" using scan_lines_spec [of "[]" P es 0 True] assms(3) by auto
  have d: "distinct (map fst obs)" and m: "map_of obs j = (if lines_for P es j = [] then None else Some (lines_for P es j))" for j
    using ext by (auto simp: extends_def)
  define un where "un = map fst (filter (\<lambda>(i, vs). proven_once vs = None) obs)"
  have un: "j \<in> set un \<longleftrightarrow> lines_for P es j \<noteq> [] \<and> proven_once (lines_for P es j) = None" for j
    unfolding un_def map_of_filtered_keys [OF d] by (auto simp: m)
  have so: "so = \<lparr>sr_unique = List.map_filter (\<lambda>(i, vs). map_option (Pair i) (proven_once vs)) obs, sr_unusable = un,
      sr_entries_present = True, sr_complete_total = (if ?whole \<and> un = [] then Some (sum_list (map line_cents es)) else None),
      sr_corrupt = False\<rparr>"
  proof -
    let ?d = "the_dict (o_raw_payload ord)"
    have p: "dhas ?d ''sub_order_amount_infos''" "dget ?d ''sub_order_amount_infos'' = PList es"
      using assms(1,2) by (auto simp: order_lines_def Let_def split: if_splits pyval.splits)
    obtain e es' where es: "es = e # es'" using assms(2) by (cases es) auto
    show ?thesis unfolding so_def sub_orders_of_payload_def un_def
      using p scan by (simp add: es del: scan_lines.simps)
  qed
  show "\<not> sr_corrupt so" "sr_entries_present so" by (simp_all add: so)
  show "i \<in> set (sr_unusable so) \<longleftrightarrow> lines_for P es i \<noteq> [] \<and> proven_once (lines_for P es i) = None" by (simp add: so un)
  show "map_of (sr_unique so) i = proven_once (lines_for P es i)" by (simp add: so map_of_map_filter [OF d] m)
  have "un = [] \<longleftrightarrow> distinct (named_items P es)" if w: ?whole
  proof -
    have "proven_once (lines_for P es j) \<noteq> None \<longleftrightarrow> length (lines_for P es j) = 1" for j
      using w by (intro proven_once_length) (auto simp: lines_for_def list_all_iff)
    then have "un = [] \<longleftrightarrow> (\<forall>j. length (lines_for P es j) \<le> 1)"
      using un by (metis One_nat_def le_0_eq le_SucE length_0_conv list.set_intros(1) neq_Nil_conv nle_le empty_iff empty_set)
    then show ?thesis by (simp add: lines_for_count distinct_iff_count)
  qed
  then show "sr_complete_total so = (if ?whole \<and> distinct (named_items P es) then Some (sum_list (map line_cents es)) else None)"
    by (auto simp: so)
qed

lemma sub_orders_absent:
  assumes "order_lines ord = Some []"
  shows "sub_orders_of_payload P (PDict (the_dict (o_raw_payload ord))) = no_sub_orders"
  using assms by (auto simp: sub_orders_of_payload_def order_lines_def Let_def split: if_splits pyval.splits)

lemma sub_orders_damaged:
  assumes "order_lines ord = None \<or> (\<exists>es. order_lines ord = Some es \<and> list_ex (line_contradicts P) es)"
  shows "sr_corrupt (sub_orders_of_payload P (PDict (the_dict (o_raw_payload ord))))"
proof -
  let ?d = "the_dict (o_raw_payload ord)"
  from assms consider "dhas ?d ''sub_order_amount_infos''" "\<not> is_list (dget ?d ''sub_order_amount_infos'')"
    | es where "dhas ?d ''sub_order_amount_infos''" "dget ?d ''sub_order_amount_infos'' = PList es" "list_ex (line_contradicts P) es"
    by (auto simp: order_lines_def Let_def split: if_splits pyval.splits)
  then show ?thesis
  proof cases
    case 1
    then show ?thesis
      by (cases "dget ?d ''sub_order_amount_infos''") (simp_all add: sub_orders_of_payload_def corrupt_sub_orders_def)
  next
    case 2
    then have "scan_lines P es [] 0 True = None" using scan_lines_spec [of "[]" P es 0 True] by simp
    moreover obtain e es' where "es = e # es'" using 2(3) by (cases es) auto
    ultimately show ?thesis using 2 by (simp add: sub_orders_of_payload_def corrupt_sub_orders_def del: scan_lines.simps)
  qed
qed

lemma resolve_is_proven: "resolve_coupon_receipt_cent P s ord c None = proven_receipt P s ord c"
proof (cases "dhas (the_dict (cp_raw_payload c)) ''receipt_amount''")
  case True
  then show ?thesis by (simp add: resolve_coupon_receipt_cent_def proven_receipt_def Let_def)
next
  case own: False
  show ?thesis
  proof (cases "order_lines ord = None \<or> (\<exists>es. order_lines ord = Some es \<and> list_ex (line_contradicts P) es)")
    case True
    with own sub_orders_damaged [OF True] show ?thesis
      by (auto simp: resolve_coupon_receipt_cent_def proven_receipt_def Let_def)
  next
    case False
    then obtain es where es: "order_lines ord = Some es" and nc: "\<not> list_ex (line_contradicts P) es" by auto
    show ?thesis
    proof (cases "es = []")
      case True
      with es own show ?thesis
        by (simp add: resolve_coupon_receipt_cent_def proven_receipt_def Let_def sub_orders_absent no_sub_orders_def lines_for_def
            split: option.splits)
    next
      case False
      note so = sub_orders_spec [OF es False nc]
      show ?thesis
        using own es nc False
        by (auto simp: resolve_coupon_receipt_cent_def proven_receipt_def Let_def so item_share_count_def split: option.splits)
    qed
  qed
qed

section \<open>Attribution\<close>

lemma map_of_group_count:
  "map_of (group_count key rows) k =
     (if k \<in> key ` set rows then Some (int (length (filter (\<lambda>r. key r = k) rows))) else None)"
  by (simp add: group_count_def map_of_map_keys) (auto simp: map_of_map_restrict restrict_map_def)

lemma group_count_lookup:
  "(case map_of (group_count key rows) k of None \<Rightarrow> 0 | Some n \<Rightarrow> n) = int (length (filter (\<lambda>r. key r = k) rows))"
proof (cases "k \<in> key ` set rows")
  case False
  then have "filter (\<lambda>r. key r = k) rows = []" by (auto simp: filter_empty_conv)
  with False show ?thesis by (simp add: map_of_group_count)
qed (simp add: map_of_group_count)

lemma map_of_pair_restrict:
  "map_of (List.map_filter (\<lambda>((j, item), n). if j = i then Some (item, n) else None) xs) item = map_of xs (i, item)"
  by (induction xs) (auto simp: List.map_filter_simps)

lemma filter_filter_id:
  "o_id ord \<in> set ids \<Longrightarrow> filter (\<lambda>c. cp_raw_order_id c = o_id ord \<and> Q c) (filter (\<lambda>c. cp_raw_order_id c \<in> set ids) cs)
     = filter (\<lambda>c. cp_raw_order_id c = o_id ord \<and> Q c) cs"
  by (induction cs) auto

lemma loaded_attribution:
  assumes "o_id ord \<in> set ids"
  obtains a where "map_of (load_order_attributions s ids) (o_id ord) = Some a" and "oa_coupon_count a = order_coupon_count s ord"
    and "\<And>i. item_share_count_of a i = coupon_item_share_count s ord i"
proof -
  let ?cs = "filter (\<lambda>c. cp_raw_order_id c \<in> set ids) (t_coupons s)"
  let ?items = "filter (\<lambda>c. cp_order_item_id c \<noteq> None) ?cs"
  define a where "a = \<lparr>oa_coupon_count = (case map_of (group_count cp_raw_order_id ?cs) (o_id ord) of None \<Rightarrow> 0 | Some n \<Rightarrow> n),
    oa_item_share_counts = List.map_filter (\<lambda>((j, item), n). if j = o_id ord then Some (item, n) else None)
      (group_count (\<lambda>c. (cp_raw_order_id c, the (cp_order_item_id c))) ?items)\<rparr>"
  have "map_of (load_order_attributions s ids) (o_id ord) = Some a"
    using assms by (simp add: load_order_attributions_def Let_def a_def map_of_map_restrict)
  moreover have "oa_coupon_count a = order_coupon_count s ord"
    using filter_filter_id [OF assms, of "\<lambda>_. True" "t_coupons s"]
    by (simp add: a_def group_count_lookup order_coupon_count_def del: filter_filter)
  moreover have "item_share_count_of a i = coupon_item_share_count s ord i" for i
  proof -
    have "filter (\<lambda>c. (cp_raw_order_id c, the (cp_order_item_id c)) = (o_id ord, i)) ?items
        = filter (\<lambda>c. cp_raw_order_id c = o_id ord \<and> cp_order_item_id c = Some i) ?cs"
      by (simp only: filter_filter) (rule filter_cong, auto)
    also have "\<dots> = filter (\<lambda>c. cp_raw_order_id c = o_id ord \<and> cp_order_item_id c = Some i) (t_coupons s)"
      by (rule filter_filter_id [OF assms])
    finally show ?thesis
      by (simp add: item_share_count_of_def a_def map_of_pair_restrict group_count_lookup coupon_item_share_count_def del: filter_filter)
  qed
  ultimately show thesis using that by blast
qed

section \<open>No cent is paid twice\<close>

lemma sum_list_by_name:
  assumes "finite A"
  shows "(\<Sum>i\<in>A. sum_list (map (f :: pyval \<Rightarrow> int) (filter (line_names P i) es))) = sum_list (map f (filter (\<lambda>e. \<exists>i\<in>A. line_names P i e) es))"
proof (induction es)
  case (Cons e es)
  have one: "line_names P i e \<Longrightarrow> line_names P j e \<Longrightarrow> i = j" for i j by (auto simp: line_names_def split: pyval.splits)
  have "(\<Sum>i\<in>A. sum_list (map f (filter (line_names P i) (e # es))))
      = (\<Sum>i\<in>A. (if line_names P i e then f e else 0)) + (\<Sum>i\<in>A. sum_list (map f (filter (line_names P i) es)))"
    by (simp add: sum.distrib [symmetric] if_distrib cong: if_cong) (rule sum.cong, auto)
  moreover have "(\<Sum>i\<in>A. (if line_names P i e then f e else 0)) = (if \<exists>i\<in>A. line_names P i e then f e else 0)"
  proof (cases "\<exists>i\<in>A. line_names P i e")
    case True
    then obtain i where i: "i \<in> A" "line_names P i e" by blast
    then have "(\<Sum>j\<in>A. (if line_names P j e then f e else 0)) = (\<Sum>j\<in>A. (if j = i then f e else 0))"
      using one by (intro sum.cong) auto
    with i assms show ?thesis by auto
  qed auto
  ultimately show ?case using Cons by simp
qed simp

lemma sum_filter_le: "sum_list (map line_cents (filter Q es)) \<le> sum_list (map line_cents es)"
  by (induction es) (auto intro: order_trans)

lemma proven_once_cents:
  assumes "proven_once (lines_for P es i) = Some n"
  shows "n = sum_list (map line_cents (filter (line_names P i) es))"
proof -
  from assms obtain v where "map line_amount (filter (line_names P i) es) = [v]" "v = Some n"
    by (cases "lines_for P es i" rule: proven_once.cases) (auto simp: lines_for_def)
  then show ?thesis by (auto simp: line_cents_def)
qed

definition order_coupons :: "db \<Rightarrow> raw_douyin_order \<Rightarrow> raw_douyin_order_coupon list" where
  "order_coupons s ord = filter (\<lambda>c. cp_raw_order_id c = o_id ord) (t_coupons s)"

definition has_own_receipt :: "raw_douyin_order_coupon \<Rightarrow> bool" where
  "has_own_receipt c \<longleftrightarrow> dhas (the_dict (cp_raw_payload c)) ''receipt_amount''"

definition receipt_cents :: "platform \<Rightarrow> db \<Rightarrow> raw_douyin_order \<Rightarrow> raw_douyin_order_coupon \<Rightarrow> int" where
  "receipt_cents P s ord c = (case resolve_coupon_receipt_cent P s ord c None of None \<Rightarrow> 0 | Some n \<Rightarrow> n)"

lemma distinct_by_count:
  assumes "\<And>c. c \<in> set cs \<Longrightarrow> Q c \<Longrightarrow> length (filter (\<lambda>x. f x = f c) cs) = 1"
  shows "distinct (map f (filter Q cs))"
  unfolding distinct_iff_count
proof
  fix y
  have cnt: "count_list (map f (filter Q cs)) y = length (filter (\<lambda>x. f x = y) (filter Q cs))"
    by (induction cs) auto
  show "count_list (map f (filter Q cs)) y \<le> 1"
  proof (cases "y \<in> f ` set (filter Q cs)")
    case True
    then obtain c where c: "c \<in> set cs" "Q c" "y = f c" by auto
    have "length (filter (\<lambda>x. f x = y) (filter Q cs)) \<le> length (filter (\<lambda>x. f x = y) cs)"
      by (induction cs) auto
    with cnt assms [OF c(1,2)] c(3) show ?thesis by simp
  next
    case False
    then have "y \<notin> set (map f (filter Q cs))" by simp
    then show ?thesis by (metis count_list_0_iff le0)
  qed
qed

lemma shared_order_receipt:
  assumes "order_coupon_count s ord \<noteq> 1" and "order_lines ord = Some es" and "\<not> has_own_receipt c"
    and "resolve_coupon_receipt_cent P s ord c None = Some n"
  obtains i where "cp_order_item_id c = Some i" and "coupon_item_share_count s ord i = 1"
    and "n = sum_list (map line_cents (filter (line_names P i) es))"
  using assms unfolding resolve_is_proven
  by (auto simp: proven_receipt_def has_own_receipt_def Let_def split: if_splits option.splits dest!: proven_once_cents)

lemma sum_list_paid:
  "sum_list (map (receipt_cents P s ord) (filter Q cs))
     = sum_list (map (receipt_cents P s ord) (filter (\<lambda>c. Q c \<and> resolve_coupon_receipt_cent P s ord c None \<noteq> None) cs))"
  by (induction cs) (auto simp: receipt_cents_def)

lemma shared_order_total:
  assumes m: "order_coupon_count s ord \<noteq> 1" and es: "order_lines ord = Some es"
  shows "sum_list (map (receipt_cents P s ord) (filter (\<lambda>c. \<not> has_own_receipt c) (order_coupons s ord))) \<le> sum_list (map line_cents es)"
proof -
  let ?cs = "order_coupons s ord" and ?r = "\<lambda>c. resolve_coupon_receipt_cent P s ord c None"
  let ?paid = "\<lambda>c. \<not> has_own_receipt c \<and> ?r c \<noteq> None"
  let ?named = "\<lambda>y. sum_list (map line_cents (filter (line_names P (the y)) es))"
  have paid: "\<exists>i. cp_order_item_id c = Some i \<and> coupon_item_share_count s ord i = 1 \<and> receipt_cents P s ord c = ?named (Some i)"
    if "?paid c" for c using that by (auto simp: receipt_cents_def elim!: shared_order_receipt [OF m es])
  have d: "distinct (map cp_order_item_id (filter ?paid ?cs))"
  proof (rule distinct_by_count)
    fix c assume "?paid c"
    with paid obtain i where "cp_order_item_id c = Some i" "coupon_item_share_count s ord i = 1" by blast
    then show "length (filter (\<lambda>x. cp_order_item_id x = cp_order_item_id c) ?cs) = 1"
      by (simp add: coupon_item_share_count_def order_coupons_def conj_commute)
  qed
  let ?A = "set (map cp_order_item_id (filter ?paid ?cs))"
  have "sum_list (map (receipt_cents P s ord) (filter (\<lambda>c. \<not> has_own_receipt c) ?cs))
      = sum_list (map (receipt_cents P s ord) (filter ?paid ?cs))"
    by (rule sum_list_paid)
  also have "\<dots> = sum_list (map ?named (map cp_order_item_id (filter ?paid ?cs)))"
    unfolding map_map comp_def using paid by (intro arg_cong [of _ _ sum_list] map_cong refl) fastforce
  also have "\<dots> = (\<Sum>y\<in>?A. ?named y)" by (rule sum_list_distinct_conv_sum_set [OF d])
  also have "\<dots> = (\<Sum>i\<in>the ` ?A. sum_list (map line_cents (filter (line_names P i) es)))"
  proof -
    have "y \<noteq> None" if "y \<in> ?A" for y using that paid by fastforce
    then have "inj_on the ?A" by (intro inj_onI option.expand) blast+
    then show ?thesis by (simp only: sum.reindex comp_def)
  qed
  also have "\<dots> \<le> sum_list (map line_cents es)" by (simp only: sum_list_by_name finite_imageI finite_set sum_filter_le)
  finally show ?thesis .
qed

lemma single_coupon_total:
  assumes "order_coupon_count s ord = 1" and "order_lines ord = Some es" and "es \<noteq> []"
  shows "sum_list (map (receipt_cents P s ord) (filter (\<lambda>c. \<not> has_own_receipt c) (order_coupons s ord))) \<le> sum_list (map line_cents es)"
proof -
  from assms(1) obtain c where c: "order_coupons s ord = [c]"
    by (auto simp: order_coupon_count_def order_coupons_def length_Suc_conv)
  have "0 \<le> sum_list (map line_cents es)" by (induction es) simp_all
  then show ?thesis using assms c
    by (auto simp: receipt_cents_def resolve_is_proven proven_receipt_def has_own_receipt_def Let_def split: option.splits if_splits)
qed

section \<open>An example\<close>

text \<open>An order of two coupons with a line for each item.\<close>

definition example_line :: "string \<Rightarrow> int \<Rightarrow> pyval" where
  "example_line i n = PDict [(''order_item_id'', PStr i), (''receipt_amount'', PInt n)]"

definition example_raw_order :: raw_douyin_order where
  "example_raw_order = \<lparr>o_id = 7, o_order_id = ''O1'', o_order_status = None, o_order_status_normalized = None,
     o_raw_payload = PDict [(''sub_order_amount_infos'', PList [example_line ''I1'' 9900, example_line ''I2'' 1200])],
     o_source_observed_at = None, o_updated_at = None\<rparr>"

definition example_coupon :: "string \<Rightarrow> string \<Rightarrow> raw_douyin_order_coupon" where
  "example_coupon i item = \<lparr>cp_coupon_id = i, cp_order_id = ''O1'', cp_raw_order_id = 7, cp_order_item_id = Some item,
     cp_coupon_status = None, cp_coupon_status_raw = None, cp_coupon_status_normalized = None, cp_coupon_updated_at = None,
     cp_coupon_refund_time = None, cp_latest_refund_at = None, cp_raw_payload = PDict [], cp_source_observed_at = None\<rparr>"

definition example_receipt_db :: db where
  "example_receipt_db = empty_db\<lparr>t_orders := [example_raw_order], t_coupons := [example_coupon ''C1'' ''I1'', example_coupon ''C2'' ''I2'']\<rparr>"

section \<open>Properties\<close>



text \<open>
  C30. The receipt of a coupon is the proven one. The resolution over the scanned dictionaries is the case
  distinction of the specification: a coupon's own amount when it states one; for an order of several coupons
  the amount of the only line naming the coupon's item, when no other coupon has that item; for an order of one
  coupon the sum of all lines when every line is proven and no item is named twice, or the order's
  amount when there are no lines; and no receipt when the evidence is damaged or contradicts itself.
\<close>

theorem receipt_resolution_is_the_proven_receipt:
  "resolve_coupon_receipt_cent P s ord c None = proven_receipt P s ord c"
  by (rule resolve_is_proven)

text \<open>
  C31. Resolving receipts in a batch is resolving them one by one: with the attribution loaded by the two grouped
  queries for any batch that includes the order, every coupon has the receipt it has with its own queries.
\<close>

theorem batched_receipts_equal_single_receipts:
  assumes "o_id ord \<in> set ids"
  shows "resolve_coupon_receipt_cent P s ord c (map_of (load_order_attributions s ids) (o_id ord))
       = resolve_coupon_receipt_cent P s ord c None"
proof -
  obtain a where "map_of (load_order_attributions s ids) (o_id ord) = Some a" "oa_coupon_count a = order_coupon_count s ord"
    "\<And>i. item_share_count_of a i = coupon_item_share_count s ord i" using loaded_attribution [OF assms] by blast
  then have "map_of (load_order_attributions s ids) (o_id ord) = Some a" "oa_coupon_count a = order_coupon_count s ord"
    "\<And>i. item_share_count s ord i (Some a) = item_share_count s ord i None" by (simp_all add: item_share_count_def)
  then show ?thesis by (simp add: resolve_coupon_receipt_cent_def Let_def cong: option.case_cong if_cong)
qed

theorem batched_receipts_equal_single_receipts_witness:
  "resolve_coupon_receipt_cent example_platform example_receipt_db example_raw_order (example_coupon ''C2'' ''I2'')
     (map_of (load_order_attributions example_receipt_db [3, 7]) 7) = Some 1200"
proof -
  have "resolve_coupon_receipt_cent example_platform example_receipt_db example_raw_order (example_coupon ''C2'' ''I2'') None = Some 1200"
    "o_id example_raw_order = 7" by code_simp+
  with batched_receipts_equal_single_receipts [of example_raw_order "[3, 7]" example_platform example_receipt_db "example_coupon ''C2'' ''I2''"]
  show ?thesis by simp
qed

end
