(* ===== verification/RateLimits.thy ===== *)
theory RateLimits
  imports PyValues "HOL-Library.AList"
begin

text \<open>
  Request limits of the platform endpoints (\<open>src/dy_data/douyin_rate_limits.py\<close>): endpoint limits, the
  production profile, overrides of it, and the governor that paces the requests of one process. \<open>urlsplit\<close> (host and path of a
  URL, \<open>None\<close> where it raises), \<open>repr\<close> and \<open>json.loads\<close> are arguments, and so are the environment
  variables and the clock.
\<close>

section \<open>Configured numbers\<close>

text \<open>\<open>except (TypeError, ValueError) as exc: raise QuotaConfigurationError(...)\<close>.\<close>

fun or_configuration_error :: "string \<Rightarrow> 'a result \<Rightarrow> 'a result" where
  "or_configuration_error m (Inl (TypeErr _)) = Inl (QuotaConfigurationError m)"
| "or_configuration_error m (Inl (ValueError _)) = Inl (QuotaConfigurationError m)"
| "or_configuration_error m r = r"

definition positive_or_zero_float :: "pyval \<Rightarrow> string \<Rightarrow> rat result" where
  "positive_or_zero_float v label =
     bind_result (or_configuration_error (label @ '' must be a number'') (py_float v)) (\<lambda>x.
       case x of
         Fin q \<Rightarrow> (if q < 0 then Inl (QuotaConfigurationError (label @ '' must be a finite non-negative number'')) else Inr q)
       | _ \<Rightarrow> Inl (QuotaConfigurationError (label @ '' must be a finite non-negative number'')))"

section \<open>Endpoint keys\<close>

type_synonym url_split = "string \<Rightarrow> (string option \<times> string) option"

definition is_safe_char :: "char \<Rightarrow> bool" where
  "is_safe_char c \<longleftrightarrow> CHR ''A'' \<le> c \<and> c \<le> CHR ''Z'' \<or> CHR ''a'' \<le> c \<and> c \<le> CHR ''z'' \<or> is_digit c \<or> c \<in> set ''._:/-''"

text \<open>\<open>re.sub(r"[^A-Za-z0-9._:/-]+", "_", value)\<close>.\<close>

fun replace_unsafe :: "bool \<Rightarrow> string \<Rightarrow> string" where
  "replace_unsafe inside [] = []"
| "replace_unsafe inside (c # cs) =
     (if is_safe_char c then c # replace_unsafe False cs
      else if inside then replace_unsafe True cs else CHR ''_'' # replace_unsafe True cs)"

definition before_query :: "string \<Rightarrow> string" where
  "before_query s = takeWhile (\<lambda>c. c \<noteq> CHR ''#'') (takeWhile (\<lambda>c. c \<noteq> CHR ''?'') s)"

definition sanitize_endpoint :: "url_split \<Rightarrow> string \<Rightarrow> string" where
  "sanitize_endpoint url endpoint =
     (let s = py_strip endpoint;
          s' = (case url s of
                  Some (host, path) \<Rightarrow>
                    (if py_contains ''://'' s \<or> py_startswith s ''//''
                     then (case host of None \<Rightarrow> [] | Some h \<Rightarrow> h) @ (if path = [] then ''/'' else path)
                     else before_query s)
                | None \<Rightarrow> before_query s);
          t = take 240 (replace_unsafe False s')
      in if t = [] then ''unknown'' else t)"

text \<open>\<open>"/" + "/".join(segment for segment in path.split("/") if segment)\<close>.\<close>

fun path_segments :: "string \<Rightarrow> string \<Rightarrow> string list" where
  "path_segments cur [] = [cur]"
| "path_segments cur (c # cs) = (if c = CHR ''/'' then cur # path_segments [] cs else path_segments (cur @ [c]) cs)"

definition normalized_path :: "url_split \<Rightarrow> string \<Rightarrow> string" where
  "normalized_path url u =
     (let path = (case url u of Some (_, p) \<Rightarrow> if p = [] then ''/'' else p | None \<Rightarrow> before_query u)
      in ''/'' @ py_join ''/'' (filter (\<lambda>x. x \<noteq> []) (path_segments [] path)))"

definition known_endpoint_paths :: "(string \<times> string) list" where
  "known_endpoint_paths =
     [(''/oauth/client_token'', ''oauth_client_token''),
      (''/goodlife/v1/trade/order/query'', ''orders''),
      (''/goodlife/v1/fulfilment/certificate/verify_record/query'', ''verify_records''),
      (''/goodlife/v1/fulfilment/certificate/query'', ''certificates''),
      (''/goodlife/v1/akte/after_sale/order/query'', ''refunds''),
      (''/goodlife/v1/shop/poi/query'', ''shop_pois''),
      (''/goodlife/v2/craftsman_openapi/merchat/craftsman/bind_info/all'', ''craftsman_bind_info''),
      (''/goodlife/v1/open_api/crm/clue/query'', ''clues''),
      (''/goodlife/v1/goods/product/online/query'', ''product_list''),
      (''/goodlife/v1/goods/product/online/get'', ''product_detail''),
      (''/goodlife/v1/goods/sku/get'', ''product_skus''),
      (''/goodlife/v1/open/common_biz/crypto/decrypt/batch'', ''cipher_decrypt''),
      (''/goodlife/v1/open/common_biz/crypto/decrypt_mask/batch'', ''cipher_decrypt_mask'')]"

definition stable_endpoint_key :: "url_split \<Rightarrow> string \<Rightarrow> string" where
  "stable_endpoint_key url u =
     (let path = normalized_path url u
      in case map_of known_endpoint_paths path of
           Some key \<Rightarrow> key
         | None \<Rightarrow>
             (let host = (case url u of Some (Some h, _) \<Rightarrow> py_lower h | _ \<Rightarrow> [])
              in sanitize_endpoint url (''unknown:'' @ host @ path)))"

section \<open>Limits and profiles\<close>

record endpoint_limit =
  el_requests_per_window :: rat
  el_window_seconds :: rat
  el_soft_quota :: "rat option"
  el_daily_quota :: "int option"

definition effective_quota :: "endpoint_limit \<Rightarrow> rat" where
  "effective_quota l = (case el_soft_quota l of Some q \<Rightarrow> q | None \<Rightarrow> el_requests_per_window l)"

definition interval_seconds :: "endpoint_limit \<Rightarrow> rat" where
  "interval_seconds l =
     (if el_daily_quota l \<noteq> None \<and> 86400 \<le> el_window_seconds l then 0 else el_window_seconds l / effective_quota l)"

definition endpoint_limit_of :: "rat \<Rightarrow> rat \<Rightarrow> rat option \<Rightarrow> int option \<Rightarrow> endpoint_limit result" where
  "endpoint_limit_of requests window soft daily =
     (let l = \<lparr>el_requests_per_window = requests, el_window_seconds = window, el_soft_quota = soft, el_daily_quota = daily\<rparr>
      in if requests \<le> 0 then Inl (QuotaConfigurationError ''requests_per_window must be positive'')
         else if window \<le> 0 then Inl (QuotaConfigurationError ''window_seconds must be positive'')
         else if (case soft of None \<Rightarrow> False | Some q \<Rightarrow> q \<le> 0 \<or> requests < q)
         then Inl (QuotaConfigurationError ''soft_quota must be between 0 and the platform quota'')
         else if (case daily of None \<Rightarrow> False | Some n \<Rightarrow> n \<le> 0 \<or> effective_quota l < of_int n)
         then Inl (QuotaConfigurationError ''daily_quota must be between 0 and the effective quota'')
         else Inr l)"

record endpoint_profile =
  pf_app_id :: string
  pf_endpoints :: "(string \<times> endpoint_limit) list"
  pf_default_interval_seconds :: rat

definition douyin_endpoint_profile :: "url_split \<Rightarrow> string \<Rightarrow> (string \<times> endpoint_limit) list \<Rightarrow> rat \<Rightarrow> endpoint_profile result" where
  "douyin_endpoint_profile url app_id endpoints default_interval =
     (if default_interval < 0 then Inl (QuotaConfigurationError ''default request interval cannot be negative'')
      else Inr \<lparr>pf_app_id = app_id, pf_endpoints = fold (\<lambda>(k, l). AList.update (sanitize_endpoint url k) l) endpoints [],
                pf_default_interval_seconds = default_interval\<rparr>)"

definition limit_for :: "url_split \<Rightarrow> endpoint_profile \<Rightarrow> string \<Rightarrow> endpoint_limit option" where
  "limit_for url p key = map_of (pf_endpoints p) (sanitize_endpoint url key)"

definition plain_limit :: "rat \<Rightarrow> rat \<Rightarrow> endpoint_limit" where
  "plain_limit requests window = \<lparr>el_requests_per_window = requests, el_window_seconds = window, el_soft_quota = None, el_daily_quota = None\<rparr>"

definition production_endpoint_limits :: "(string \<times> endpoint_limit) list" where
  "production_endpoint_limits =
     [(''orders'', plain_limit 20 1), (''verify_records'', plain_limit 100 1), (''certificates'', plain_limit 35 1),
      (''refunds'', (plain_limit 100 86400)\<lparr>el_soft_quota := Some 90, el_daily_quota := Some 90\<rparr>),
      (''shop_pois'', plain_limit 400 1), (''clues'', (plain_limit 100 60)\<lparr>el_soft_quota := Some 90\<rparr>),
      (''product_list'', plain_limit 20 1), (''product_detail'', plain_limit 20 1), (''product_skus'', plain_limit 20 1)]"

definition production_app_id :: string where
  "production_app_id = ''aws9nunf0av2egfw''"

definition default_request_sleep_seconds :: rat where
  "default_request_sleep_seconds = 1/2"

section \<open>Overrides\<close>

definition resolve_default_interval :: "pyval option \<Rightarrow> string option \<Rightarrow> rat result" where
  "resolve_default_interval given_value env =
     (case given_value of
        Some v \<Rightarrow> positive_or_zero_float v ''default request interval''
      | None \<Rightarrow>
          (case env of
             None \<Rightarrow> Inr default_request_sleep_seconds
           | Some t \<Rightarrow> if t = [] then Inr default_request_sleep_seconds
                       else positive_or_zero_float (PStr t) ''DOUYIN_REQUEST_SLEEP_SECONDS''))"

definition parse_limits_json :: "(string \<Rightarrow> pyval option) \<Rightarrow> pyval \<Rightarrow> string option \<Rightarrow> pydict result" where
  "parse_limits_json json_loads v env =
     (let raw = (if v = PNone then of_text env else v) in
      if raw = PNone \<or> raw = PStr [] then Inr []
      else bind_result
             (case raw of
                PStr t \<Rightarrow> (case json_loads t of
                            None \<Rightarrow> Inl (QuotaConfigurationError ''DOUYIN_API_LIMITS_JSON must be valid JSON'')
                          | Some x \<Rightarrow> Inr x)
              | _ \<Rightarrow> Inr raw)
             (\<lambda>x. case x of
                PDict d \<Rightarrow> (case dget_default d ''endpoints'' (PDict d) of
                             PDict e \<Rightarrow> Inr e
                           | _ \<Rightarrow> Inl (QuotaConfigurationError ''quota endpoints configuration must be an object''))
              | _ \<Rightarrow> Inl (QuotaConfigurationError ''DOUYIN_API_LIMITS_JSON must be a JSON object'')))"

definition override_number :: "pydict \<Rightarrow> string list \<Rightarrow> rat option \<Rightarrow> rat option result" where
  "override_number d keys preset =
     (let selected = (case find (dhas d) keys of
                        Some k \<Rightarrow> dget d k
                      | None \<Rightarrow> (case preset of None \<Rightarrow> PNone | Some q \<Rightarrow> PFloat (Fin q)))
      in if selected = PNone then Inr None
         else bind_result (or_configuration_error (hd keys @ '' must be a number'') (py_float selected)) (\<lambda>x.
                case x of
                  Fin q \<Rightarrow> (if q \<le> 0 then Inl (QuotaConfigurationError (hd keys @ '' must be a positive finite number'')) else Inr (Some q))
                | _ \<Rightarrow> Inl (QuotaConfigurationError (hd keys @ '' must be a positive finite number''))))"

definition optional_positive_int :: "(pyval \<Rightarrow> string) \<Rightarrow> pyval \<Rightarrow> string \<Rightarrow> int option result" where
  "optional_positive_int repr v label =
     (if v = PNone then Inr None
      else bind_result (or_configuration_error (label @ '' must be a positive integer'') (py_int v)) (\<lambda>n.
             if n \<le> 0 \<or> py_strip (py_str repr v) \<notin> {py_str_int n, py_str_int n @ ''.0''}
             then Inl (QuotaConfigurationError (label @ '' must be a positive integer'')) else Inr (Some n)))"

definition check_not_raised :: "string \<Rightarrow> endpoint_limit \<Rightarrow> endpoint_limit \<Rightarrow> unit result" where
  "check_not_raised key old new =
     (if el_requests_per_window old < el_requests_per_window new
      then Inl (QuotaConfigurationError (''quota override for '' @ key @ '' cannot raise requests_per_window''))
      else if el_window_seconds new < el_window_seconds old
      then Inl (QuotaConfigurationError (''quota override for '' @ key @ '' cannot shorten window_seconds''))
      else if effective_quota old < effective_quota new
      then Inl (QuotaConfigurationError (''quota override for '' @ key @ '' cannot raise effective quota''))
      else if (case el_daily_quota old of
                 None \<Rightarrow> False
               | Some q \<Rightarrow> (case el_daily_quota new of None \<Rightarrow> True | Some q' \<Rightarrow> q < q'))
      then Inl (QuotaConfigurationError (''quota override for '' @ key @ '' cannot raise or remove daily_quota''))
      else Inr ())"

definition merge_limit_override ::
  "url_split \<Rightarrow> (pyval \<Rightarrow> string) \<Rightarrow> (string \<times> endpoint_limit) list \<Rightarrow> string \<Rightarrow> pyval \<Rightarrow> (string \<times> endpoint_limit) list result" where
  "merge_limit_override url repr merged raw_key raw_value =
     (let key = sanitize_endpoint url raw_key in
      case raw_value of
        PDict d \<Rightarrow>
          (case map_of merged key of
             None \<Rightarrow> Inl (QuotaConfigurationError
               (''cannot configure unverified endpoint '' @ key @ ''; add it to the reviewed app profile first''))
           | Some old \<Rightarrow>
               bind_result (override_number d [''requests_per_window'', ''quota'', ''max_requests''] (Some (el_requests_per_window old))) (\<lambda>requests.
               bind_result (override_number d [''window_seconds'', ''window''] (Some (el_window_seconds old))) (\<lambda>window.
               case (requests, window) of
                 (Some r, Some w) \<Rightarrow>
                   bind_result (override_number d [''soft_quota'', ''effective_quota''] (el_soft_quota old)) (\<lambda>soft.
                   bind_result (optional_positive_int repr (dget_default d ''daily_quota'' (of_int_opt (el_daily_quota old)))
                     (''daily_quota for '' @ key)) (\<lambda>daily.
                   bind_result (endpoint_limit_of r w soft daily) (\<lambda>new.
                   bind_result (check_not_raised key old new) (\<lambda>_. Inr (AList.update key new merged)))))
               | _ \<Rightarrow> Inl (QuotaConfigurationError
                   (''quota configuration for '' @ key @ '' requires requests_per_window and window_seconds'')))))
      | _ \<Rightarrow> Inl (QuotaConfigurationError (''quota configuration for '' @ key @ '' must be an object'')))"

fun merge_limit_overrides ::
  "url_split \<Rightarrow> (pyval \<Rightarrow> string) \<Rightarrow> (string \<times> endpoint_limit) list \<Rightarrow> pydict \<Rightarrow> (string \<times> endpoint_limit) list result" where
  "merge_limit_overrides url repr merged [] = Inr merged"
| "merge_limit_overrides url repr merged ((k, v) # overrides) =
     bind_result (merge_limit_override url repr merged k v) (\<lambda>m. merge_limit_overrides url repr m overrides)"

definition endpoint_profile_for_app ::
  "url_split \<Rightarrow> (pyval \<Rightarrow> string) \<Rightarrow> (string \<Rightarrow> pyval option) \<Rightarrow> string option \<Rightarrow> string option
     \<Rightarrow> string option \<Rightarrow> pyval option \<Rightarrow> pyval \<Rightarrow> endpoint_profile result" where
  "endpoint_profile_for_app url repr json_loads env_interval env_limits app_id default_interval limits_json =
     (let app = py_strip (or_else app_id []) in
      bind_result (resolve_default_interval default_interval env_interval) (\<lambda>interval.
      bind_result (parse_limits_json json_loads limits_json env_limits) (\<lambda>overrides.
      bind_result (merge_limit_overrides url repr (if app = production_app_id then production_endpoint_limits else []) overrides)
        (\<lambda>merged. douyin_endpoint_profile url app merged interval))))"

section \<open>Pacing\<close>

record request_pacing =
  rp_profile :: endpoint_profile
  rp_next_allowed_at :: "(string \<times> rat) list"

definition request_interval :: "url_split \<Rightarrow> endpoint_profile \<Rightarrow> string \<Rightarrow> rat" where
  "request_interval url p endpoint =
     (case limit_for url p endpoint of
        None \<Rightarrow> pf_default_interval_seconds p
      | Some l \<Rightarrow> max (pf_default_interval_seconds p) (interval_seconds l))"

text \<open>\<open>MonotonicRequestGovernor.acquire\<close> at the clock reading \<open>now\<close>: how long it sleeps, and its new state.\<close>

definition acquire_pacing :: "url_split \<Rightarrow> request_pacing \<Rightarrow> string \<Rightarrow> rat \<Rightarrow> rat \<times> request_pacing" where
  "acquire_pacing url g key now =
     (let endpoint = sanitize_endpoint url key; interval = request_interval url (rp_profile g) endpoint
      in if interval \<le> 0 then (0, g)
         else let allowed = (case map_of (rp_next_allowed_at g) endpoint of None \<Rightarrow> now | Some t \<Rightarrow> t)
              in (max 0 (allowed - now), g\<lparr>rp_next_allowed_at := AList.update endpoint (max now allowed + interval) (rp_next_allowed_at g)\<rparr>))"

section \<open>Well-formed limits\<close>

definition limit_ok :: "endpoint_limit \<Rightarrow> bool" where
  "limit_ok l \<longleftrightarrow> 0 < el_requests_per_window l \<and> 0 < el_window_seconds l \<and> 0 < effective_quota l
     \<and> effective_quota l \<le> el_requests_per_window l
     \<and> (case el_daily_quota l of None \<Rightarrow> True | Some n \<Rightarrow> 0 < n \<and> of_int n \<le> effective_quota l)"

definition tightens :: "endpoint_limit \<Rightarrow> endpoint_limit \<Rightarrow> bool" where
  "tightens old new \<longleftrightarrow> el_requests_per_window new \<le> el_requests_per_window old \<and> el_window_seconds old \<le> el_window_seconds new
     \<and> effective_quota new \<le> effective_quota old
     \<and> (case el_daily_quota old of None \<Rightarrow> True
        | Some q \<Rightarrow> (case el_daily_quota new of None \<Rightarrow> False | Some q' \<Rightarrow> q' \<le> q))"

definition limits_tighten :: "(string \<times> endpoint_limit) list \<Rightarrow> (string \<times> endpoint_limit) list \<Rightarrow> bool" where
  "limits_tighten base m \<longleftrightarrow> map fst m = map fst base
     \<and> (\<forall>k l. map_of m k = Some l \<longrightarrow> limit_ok l \<and> (\<exists>b. map_of base k = Some b \<and> tightens b l))"

lemma endpoint_limit_of_ok: "endpoint_limit_of r w soft daily = Inr l \<Longrightarrow> limit_ok l"
  by (auto simp: endpoint_limit_of_def limit_ok_def effective_quota_def Let_def split: if_splits option.splits)

lemma tightens_refl: "tightens l l"
  by (auto simp: tightens_def split: option.splits)

lemma tightens_trans: "tightens a b \<Longrightarrow> tightens b c \<Longrightarrow> tightens a c"
  by (auto simp: tightens_def split: option.splits)

lemma check_not_raised_tightens: "check_not_raised key old new = Inr u \<Longrightarrow> tightens old new"
  by (auto simp: check_not_raised_def tightens_def not_less split: if_splits option.splits)

lemma limits_tighten_refl: "\<forall>k l. map_of m k = Some l \<longrightarrow> limit_ok l \<Longrightarrow> limits_tighten m m"
  by (auto simp: limits_tighten_def intro: tightens_refl)

lemma limits_tighten_trans: "limits_tighten a b \<Longrightarrow> limits_tighten b c \<Longrightarrow> limits_tighten a c"
  unfolding limits_tighten_def by (metis tightens_trans)

lemma merge_override_Inr:
  assumes "merge_limit_override url repr m k v = Inr m'"
  obtains old new where "map_of m (sanitize_endpoint url k) = Some old" and "limit_ok new" and "tightens old new"
    and "m' = AList.update (sanitize_endpoint url k) new m"
proof -
  let ?k = "sanitize_endpoint url k"
  from assms obtain d old where v: "v = PDict d" and old: "map_of m ?k = Some old"
    by (auto simp: merge_limit_override_def Let_def split: pyval.splits option.splits)
  with assms obtain rq wn where c: "(case (rq, wn) of (Some r, Some w) \<Rightarrow>
        bind_result (override_number d [''soft_quota'', ''effective_quota''] (el_soft_quota old)) (\<lambda>soft.
        bind_result (optional_positive_int repr (dget_default d ''daily_quota'' (of_int_opt (el_daily_quota old)))
          (''daily_quota for '' @ ?k)) (\<lambda>daily.
        bind_result (endpoint_limit_of r w soft daily) (\<lambda>new.
        bind_result (check_not_raised ?k old new) (\<lambda>_. Inr (AList.update ?k new m)))))
      | _ \<Rightarrow> Inl (QuotaConfigurationError (''quota configuration for '' @ ?k @ '' requires requests_per_window and window_seconds''))) = Inr m'"
    by (auto simp: merge_limit_override_def Let_def bind_result_Inr)
  then obtain r w where "rq = Some r" "wn = Some w" by (cases rq; cases wn) auto
  with c obtain soft daily new where "endpoint_limit_of r w soft daily = Inr new" "check_not_raised ?k old new = Inr ()"
    "m' = AList.update ?k new m" by (auto simp: bind_result_Inr)
  then show thesis using that [OF old] endpoint_limit_of_ok check_not_raised_tightens by blast
qed

lemma merge_override_tightens:
  assumes "merge_limit_override url repr m k v = Inr m'" and "\<forall>k l. map_of m k = Some l \<longrightarrow> limit_ok l"
  shows "limits_tighten m m'"
proof -
  let ?k = "sanitize_endpoint url k"
  obtain old new where old: "map_of m ?k = Some old" "limit_ok new" "tightens old new" and m': "m' = AList.update ?k new m"
    by (rule merge_override_Inr [OF assms(1)])
  have "map fst m' = map fst m" using old(1) by (simp add: m' update_keys) (metis domI dom_map_of_conv_image_fst)
  moreover have "limit_ok l \<and> (\<exists>b. map_of m j = Some b \<and> tightens b l)" if "map_of m' j = Some l" for j l
    using that old assms(2) by (cases "j = ?k") (auto simp: m' update_conv' intro: tightens_refl)
  ultimately show ?thesis by (simp add: limits_tighten_def)
qed

lemma merge_overrides_tighten:
  "merge_limit_overrides url repr m overrides = Inr m' \<Longrightarrow> \<forall>k l. map_of m k = Some l \<longrightarrow> limit_ok l \<Longrightarrow> limits_tighten m m'"
proof (induction overrides arbitrary: m)
  case Nil
  then show ?case by (simp add: limits_tighten_refl)
next
  case (Cons kv overrides)
  then obtain m1 where m1: "merge_limit_override url repr m (fst kv) (snd kv) = Inr m1"
    and rest: "merge_limit_overrides url repr m1 overrides = Inr m'" by (cases kv) (auto simp: bind_result_Inr)
  have t: "limits_tighten m m1" by (rule merge_override_tightens [OF m1 Cons.prems(2)])
  with Cons.IH [OF rest] have "limits_tighten m1 m'" by (auto simp: limits_tighten_def)
  with t show ?case by (rule limits_tighten_trans)
qed

lemma production_limits_ok: "map_of production_endpoint_limits k = Some l \<Longrightarrow> limit_ok l"
  by (auto simp: production_endpoint_limits_def plain_limit_def limit_ok_def effective_quota_def split: if_splits)

definition plain_key :: "string \<Rightarrow> bool" where
  "plain_key k \<longleftrightarrow> py_strip k = k \<and> \<not> py_contains ''://'' k \<and> \<not> py_startswith k ''//''
     \<and> before_query k = k \<and> take 240 (replace_unsafe False k) = k \<and> k \<noteq> []"

lemma plain_key_fixed: "plain_key k \<Longrightarrow> sanitize_endpoint url k = k"
  by (auto simp: sanitize_endpoint_def plain_key_def Let_def split: option.split)

lemma production_keys_plain: "list_all plain_key (map fst production_endpoint_limits)"
  by code_simp

lemma production_key_fixed: "k \<in> fst ` set production_endpoint_limits \<Longrightarrow> sanitize_endpoint url k = k"
  using production_keys_plain by (intro plain_key_fixed) (auto simp only: list_all_iff set_map)

lemma fold_update_lookup:
  "map_of (fold (\<lambda>(k, l). AList.update (f k) l) xs acc) k = Some l \<Longrightarrow> (\<exists>k'. (k', l) \<in> set xs \<and> f k' = k) \<or> map_of acc k = Some l"
proof (induction xs arbitrary: acc)
  case (Cons x xs)
  obtain j m where x: "x = (j, m)" by fastforce
  from Cons.IH [of "AList.update (f j) m acc"] Cons.prems x show ?case by (auto simp: update_conv' split: if_splits)
qed simp

lemma production_keys_distinct: "distinct (map fst production_endpoint_limits)"
  by code_simp

lemma profile_limits:
  assumes "endpoint_profile_for_app url repr json env1 env2 app interval limits = Inr p" and "map_of (pf_endpoints p) k = Some l"
  shows "limit_ok l \<and> (\<exists>b. map_of production_endpoint_limits k = Some b \<and> tightens b l)"
proof -
  define base where "base = (if py_strip (or_else app []) = production_app_id then production_endpoint_limits else [])"
  have base: "map_of base j = Some b \<Longrightarrow> map_of production_endpoint_limits j = Some b" "distinct (map fst base)" for j b
    using production_keys_distinct by (simp_all add: base_def split: if_splits)
  from assms(1) obtain overrides m d where m: "merge_limit_overrides url repr base overrides = Inr m"
    and p: "douyin_endpoint_profile url (py_strip (or_else app [])) m d = Inr p"
    by (auto simp: endpoint_profile_for_app_def Let_def bind_result_Inr base_def)
  have t: "limits_tighten base m" using production_limits_ok base(1) by (intro merge_overrides_tighten [OF m]) blast
  with base(2) have d: "distinct (map fst m)" by (simp add: limits_tighten_def)
  from p have "pf_endpoints p = fold (\<lambda>(k, l). AList.update (sanitize_endpoint url k) l) m []"
    by (auto simp: douyin_endpoint_profile_def split: if_splits)
  with assms(2) fold_update_lookup [of "sanitize_endpoint url" m "[]" k l]
  obtain k' where k': "(k', l) \<in> set m" "sanitize_endpoint url k' = k" by auto
  with d have "map_of m k' = Some l" by (simp add: map_of_eq_Some_iff)
  with t obtain b where b: "limit_ok l" "map_of base k' = Some b" "tightens b l" unfolding limits_tighten_def by blast
  from map_of_SomeD [OF base(1) [OF b(2)]] have "k = k'" using production_key_fixed k'(2) by (metis fst_conv image_eqI)
  with b base(1) show ?thesis by blast
qed

section \<open>Spacing\<close>

text \<open>A run of the governor: each request with the endpoint it is for and the time it is sent.\<close>

fun pace :: "url_split \<Rightarrow> request_pacing \<Rightarrow> (string \<times> rat) list \<Rightarrow> (string \<times> rat) list" where
  "pace url g [] = []"
| "pace url g ((key, now) # requests) =
     (let (wait, g') = acquire_pacing url g key now in (sanitize_endpoint url key, now + wait) # pace url g' requests)"

definition sent_at :: "string \<Rightarrow> (string \<times> rat) list \<Rightarrow> rat list" where
  "sent_at e sends = map snd (filter (\<lambda>(k, t). k = e) sends)"

lemma length_pace [simp]: "length (pace url g requests) = length requests"
  by (induction requests arbitrary: g) (auto split: prod.splits)

lemma acquire_pacing_time:
  assumes "acquire_pacing url g key now = (w, g')" and "0 < request_interval url (rp_profile g) (sanitize_endpoint url key)"
  shows "now + w = max now (case map_of (rp_next_allowed_at g) (sanitize_endpoint url key) of None \<Rightarrow> now | Some t \<Rightarrow> t)
    \<and> map_of (rp_next_allowed_at g') = (map_of (rp_next_allowed_at g))
        (sanitize_endpoint url key \<mapsto> now + w + request_interval url (rp_profile g) (sanitize_endpoint url key))"
  using assms by (auto simp: acquire_pacing_def Let_def update_conv' max_def split: if_splits)

lemma acquire_pacing_other:
  assumes "acquire_pacing url g key now = (w, g')"
  shows "rp_profile g' = rp_profile g"
    and "e \<noteq> sanitize_endpoint url key \<Longrightarrow> map_of (rp_next_allowed_at g') e = map_of (rp_next_allowed_at g) e"
  using assms by (auto simp: acquire_pacing_def Let_def update_conv' split: if_splits)

lemma pace_spaced:
  assumes "0 < request_interval url (rp_profile g) e"
  shows "sorted_wrt (\<lambda>x y. x + request_interval url (rp_profile g) e \<le> y) (sent_at e (pace url g requests))
    \<and> (\<forall>t u. map_of (rp_next_allowed_at g) e = Some t \<longrightarrow> u \<in> set (sent_at e (pace url g requests)) \<longrightarrow> t \<le> u)"
  using assms
proof (induction requests arbitrary: g)
  case Nil
  then show ?case by (simp add: sent_at_def)
next
  case (Cons r requests)
  obtain key now where r: "r = (key, now)" by fastforce
  obtain w g' where a: "acquire_pacing url g key now = (w, g')" by fastforce
  note o = acquire_pacing_other [OF a]
  note IH = Cons.IH [of g'] 
  show ?case
  proof (cases "e = sanitize_endpoint url key")
    case True
    let ?I = "request_interval url (rp_profile g) e" and ?rest = "sent_at e (pace url g' requests)"
    have t: "now + w = max now (case map_of (rp_next_allowed_at g) e of None \<Rightarrow> now | Some t \<Rightarrow> t)"
      "map_of (rp_next_allowed_at g') e = Some (now + w + ?I)"
      using acquire_pacing_time [OF a] Cons.prems True by simp_all
    have rest: "sorted_wrt (\<lambda>x y. x + ?I \<le> y) ?rest" "\<forall>u \<in> set ?rest. now + w + ?I \<le> u"
      using IH t(2) Cons.prems by (simp_all add: o(1))
    have sends: "sent_at e (pace url g (r # requests)) = (now + w) # ?rest" using True by (simp add: r a sent_at_def)
    have le: "t \<le> now + w" if "map_of (rp_next_allowed_at g) e = Some t" for t using t(1) that by simp
    have "t \<le> u" if "map_of (rp_next_allowed_at g) e = Some t" "u \<in> set ((now + w) # ?rest)" for t u
      using le [OF that(1)] that(2) rest(2) Cons.prems by fastforce
    with rest show ?thesis unfolding sends by simp
  next
    case False
    with o IH Cons.prems show ?thesis by (simp add: r a sent_at_def)
  qed
qed

lemma spaced_span:
  assumes "sorted_wrt (\<lambda>x y. x + d \<le> y) xs" and "xs \<noteq> []" and "0 \<le> (d :: rat)"
  shows "hd xs + of_nat (length xs - 1) * d \<le> last xs"
  using assms
proof (induction xs)
  case (Cons x xs)
  show ?case
  proof (cases xs)
    case (Cons y ys)
    with Cons.IH Cons.prems have "y + of_nat (length ys) * d \<le> last xs" "x + d \<le> y" by auto
    then show ?thesis using Cons by (simp add: algebra_simps)
  qed simp
qed simp

lemma spaced_in_window:
  fixes d w a :: rat
  assumes "sorted_wrt (\<lambda>x y. x + d \<le> y) xs" and "\<forall>x \<in> set xs. a \<le> x \<and> x < a + w" and "0 < q" and "w / q \<le> d" and "0 < w"
  shows "of_nat (length xs) \<le> (of_int \<lceil>q\<rceil> :: rat)"
proof (cases "xs = []")
  case True
  then show ?thesis using assms(3) by simp
next
  case False
  have d: "0 < d" using assms(3-5) by (meson divide_pos_pos less_le_trans)
  have "hd xs + of_nat (length xs - 1) * d \<le> last xs" by (rule spaced_span) (use assms(1) False d in auto)
  moreover have "a \<le> hd xs" "last xs < a + w" using assms(2) False by simp_all
  ultimately have "of_nat (length xs - 1) * d < w" by linarith
  also have "w \<le> q * d" using assms(3,4) by (simp add: field_simps)
  finally have "of_nat (length xs - 1) < q" using d by simp
  then have "of_nat (length xs) < (of_int \<lceil>q\<rceil> :: rat) + 1" using False by (cases xs) (simp, linarith)
  then have "int (length xs) < \<lceil>q\<rceil> + 1" by linarith
  then show ?thesis by (metis of_int_le_iff of_int_of_nat_eq zle_add1_eq_le)
qed

section \<open>Properties\<close>

text \<open>
  C34. The governor keeps every paced limit. For an endpoint with a well-formed limit that is paced, and any
  sequence of requests through one governor, to this endpoint and others, at any clock readings, the number of
  requests sent in any time window of the limit's length is at most the limit's effective quota, so at most the quota of the platform.
\<close>

theorem paced_requests_stay_within_quota:
  assumes "limit_for url (rp_profile g) e = Some l" and "limit_ok l" and "el_daily_quota l = None \<or> el_window_seconds l < 86400"
  shows "int (length (filter (\<lambda>t. a \<le> t \<and> t < a + el_window_seconds l) (sent_at e (pace url g requests)))) \<le> \<lceil>effective_quota l\<rceil>
     \<and> effective_quota l \<le> el_requests_per_window l"
proof -
  let ?d = "request_interval url (rp_profile g) e" and ?xs = "sent_at e (pace url g requests)"
  have ok: "0 < el_window_seconds l" "0 < effective_quota l" using assms(2) by (simp_all add: limit_ok_def)
  have "interval_seconds l = el_window_seconds l / effective_quota l" using assms(3) by (auto simp: interval_seconds_def)
  then have d: "el_window_seconds l / effective_quota l \<le> ?d" using assms(1) by (simp add: request_interval_def)
  moreover have "0 < el_window_seconds l / effective_quota l" using ok by simp
  ultimately have "sorted_wrt (\<lambda>x y. x + ?d \<le> y) ?xs" by (intro conjunct1 [OF pace_spaced]) linarith
  then have "sorted_wrt (\<lambda>x y. x + ?d \<le> y) (filter (\<lambda>t. a \<le> t \<and> t < a + el_window_seconds l) ?xs)" by (rule sorted_wrt_filter)
  from spaced_in_window [OF this, of a "el_window_seconds l" "effective_quota l"] ok d
  have "of_nat (length (filter (\<lambda>t. a \<le> t \<and> t < a + el_window_seconds l) ?xs)) \<le> (of_int \<lceil>effective_quota l\<rceil> :: rat)" by simp
  then have "int (length (filter (\<lambda>t. a \<le> t \<and> t < a + el_window_seconds l) ?xs)) \<le> \<lceil>effective_quota l\<rceil>"
    by (metis of_int_le_iff of_int_of_nat_eq)
  then show ?thesis using assms(2) by (simp add: limit_ok_def)
qed

theorem paced_requests_stay_within_quota_witness:
  "let g = \<lparr>rp_profile = \<lparr>pf_app_id = [], pf_endpoints = production_endpoint_limits, pf_default_interval_seconds = 0\<rparr>, rp_next_allowed_at = []\<rparr>;
       sends = pace (\<lambda>_. None) g (replicate 25 (''orders'', 7))
   in length sends = 25 \<and> int (length (filter (\<lambda>t. 7 \<le> t \<and> t < 8) (sent_at ''orders'' sends))) \<le> 20"
proof -
  let ?g = "\<lparr>rp_profile = \<lparr>pf_app_id = [], pf_endpoints = production_endpoint_limits, pf_default_interval_seconds = 0\<rparr>, rp_next_allowed_at = []\<rparr>"
  have l: "limit_for (\<lambda>_. None) (rp_profile ?g) ''orders'' = Some (plain_limit 20 1)"
    "length (pace (\<lambda>_. None) ?g (replicate 25 (''orders'', 7))) = 25" by code_simp simp
  have ok: "limit_ok (plain_limit 20 1)" "el_daily_quota (plain_limit 20 1) = None" "el_window_seconds (plain_limit 20 1) = 1"
    "effective_quota (plain_limit 20 1) = 20" by (simp_all add: limit_ok_def plain_limit_def effective_quota_def)
  from paced_requests_stay_within_quota [OF l(1) ok(1), of 7 "replicate 25 (''orders'', 7)"] ok(2-4) l(2)
  show ?thesis by (simp add: Let_def)
qed

text \<open>
  C35. A profile is well formed and never looser than the reviewed one. Whatever overrides the environment
  supplies, when a profile is built at all, each of its limits is a valid limit of a reviewed
  endpoint, allows no more requests, no shorter window and no larger effective quota than the
  reviewed limit, and keeps its daily quota or lowers it; every other app id gets no limits.
\<close>

theorem profiles_only_tighten_reviewed_limits:
  assumes "endpoint_profile_for_app url repr json_loads env_interval env_limits app_id default_interval limits_json = Inr p"
    and "limit_for url p key = Some l"
  shows "limit_ok l \<and> (\<exists>b. map_of production_endpoint_limits (sanitize_endpoint url key) = Some b \<and> tightens b l)"
  using profile_limits assms by (simp add: limit_for_def)

theorem profiles_only_tighten_reviewed_limits_witness:
  "\<exists>p l. endpoint_profile_for_app (\<lambda>_. None) (\<lambda>_. []) (\<lambda>_. None) None None (Some production_app_id) None
      (PDict [(''orders'', PDict [(''requests_per_window'', PFloat (Fin 10))])]) = Inr p
    \<and> limit_for (\<lambda>_. None) p ''orders'' = Some l \<and> el_requests_per_window l = 10 \<and> limit_ok l"
proof -
  have "case endpoint_profile_for_app (\<lambda>_. None) (\<lambda>_. []) (\<lambda>_. None) None None (Some production_app_id) None
      (PDict [(''orders'', PDict [(''requests_per_window'', PFloat (Fin 10))])]) of
     Inl _ \<Rightarrow> False | Inr p \<Rightarrow> map_option el_requests_per_window (limit_for (\<lambda>_. None) p ''orders'') = Some 10" by code_simp
  then obtain p l where p: "endpoint_profile_for_app (\<lambda>_. None) (\<lambda>_. []) (\<lambda>_. None) None None (Some production_app_id) None
      (PDict [(''orders'', PDict [(''requests_per_window'', PFloat (Fin 10))])]) = Inr p"
    "limit_for (\<lambda>_. None) p ''orders'' = Some l" "el_requests_per_window l = 10" by (auto split: sum.splits)
  from profiles_only_tighten_reviewed_limits [OF p(1,2)] p show ?thesis by blast
qed

end
