(* ===== verification/RequestQuota.thy ===== *)
theory RequestQuota
  imports RateLimits ClueModel
begin

text \<open>
  Daily request quotas: the durable ledger (\<open>apps/worker/douyin_api_quota.py\<close>), the governor that reserves
  from it before it paces (\<open>RequestGovernor\<close> of \<open>src/dy_data/douyin_rate_limits.py\<close>), the in-memory
  store, and the governor that protects the budget of the priority scheduler
  (\<open>apps/worker/priority_budget.py\<close>). A date is the number of its day; Shanghai time is eight hours
  ahead of UTC, as it has been since 1992.
\<close>

section \<open>Shanghai days\<close>

definition shanghai_date :: "instant \<Rightarrow> int" where
  "shanghai_date t = (t + hours 8) div days 1"

definition shanghai_hour :: "instant \<Rightarrow> int" where
  "shanghai_hour t = (t + hours 8) mod days 1 div hours 1"

definition shanghai_midnight :: "int \<Rightarrow> instant" where
  "shanghai_midnight d = days d - hours 8"

definition ceil_seconds :: "int \<Rightarrow> int" where
  "ceil_seconds us = - ((- us) div 1000000)"

definition seconds_until_next_shanghai_day :: "instant \<Rightarrow> int" where
  "seconds_until_next_shanghai_day now = max 1 (ceil_seconds (shanghai_midnight (shanghai_date now + 1) - now))"

section \<open>The ledger\<close>

type_synonym quota_identity = "string \<times> string \<times> string \<times> string \<times> int"

record quota_usage =
  qu_environment :: string
  qu_app_id :: string
  qu_account_id :: string
  qu_endpoint_key :: string
  qu_business_date :: int
  qu_request_count :: int
  qu_effective_limit :: int
  qu_reset_at :: instant
  qu_created_at :: instant
  qu_updated_at :: instant

type_synonym ledger = "quota_usage list"

definition usage_identity :: "quota_usage \<Rightarrow> quota_identity" where
  "usage_identity u = (qu_environment u, qu_app_id u, qu_account_id u, qu_endpoint_key u, qu_business_date u)"

record quota_reservation =
  qr_endpoint_key :: string
  qr_business_date :: int
  qr_request_count :: int
  qr_effective_limit :: int
  qr_reset_at :: instant
  qr_remaining :: int
  qr_reserved :: bool
  qr_retry_after_seconds :: "int option"

definition safe_endpoint_key :: "string \<Rightarrow> string" where
  "safe_endpoint_key v =
     (let t = take 128 (replace_unsafe False (before_query (py_strip v))) in if t = [] then ''unknown'' else t)"

definition quota_text :: "string option \<Rightarrow> string \<Rightarrow> string result" where
  "quota_text v field =
     (case v of
        None \<Rightarrow> Inl (ValueError (field @ '' is required''))
      | Some t \<Rightarrow> (if py_strip t = [] then Inl (ValueError (field @ '' is required'')) else Inr (py_strip t)))"

definition effective_limit_of :: "int option \<Rightarrow> int option \<Rightarrow> int result" where
  "effective_limit_of given_limit limit =
     (if given_limit \<noteq> None \<and> limit \<noteq> None \<and> given_limit \<noteq> limit
      then Inl (ValueError ''effective_limit and limit must match when both are provided'')
      else case (case given_limit of None \<Rightarrow> limit | Some n \<Rightarrow> Some n) of
             None \<Rightarrow> Inl (ValueError ''effective_limit is required'')
           | Some n \<Rightarrow> (if n \<le> 0 then Inl (ValueError ''effective_limit must be a positive integer'') else Inr n))"

definition retry_after_seconds :: "instant \<Rightarrow> instant \<Rightarrow> int" where
  "retry_after_seconds reset_at observed_at = max 1 (ceil_seconds (reset_at - observed_at))"

definition reservation_inputs ::
  "string option \<Rightarrow> string option \<Rightarrow> string option \<Rightarrow> string option \<Rightarrow> int option \<Rightarrow> int option \<Rightarrow> int option \<Rightarrow> instant
     \<Rightarrow> (quota_identity \<times> quota_usage) result" where
  "reservation_inputs environment app_id account_id endpoint_key given_limit limit business_date now =
     bind_result (quota_text environment ''environment'') (\<lambda>env.
     bind_result (quota_text app_id ''app_id'') (\<lambda>app.
     bind_result (quota_text account_id ''account_id'') (\<lambda>account.
     bind_result (quota_text endpoint_key ''endpoint_key'') (\<lambda>endpoint.
     bind_result (effective_limit_of given_limit limit) (\<lambda>n.
       let date = (case business_date of None \<Rightarrow> shanghai_date now | Some d \<Rightarrow> d)
       in Inr ((env, app, account, safe_endpoint_key endpoint, date),
               \<lparr>qu_environment = env, qu_app_id = app, qu_account_id = account, qu_endpoint_key = safe_endpoint_key endpoint,
                qu_business_date = date, qu_request_count = 1, qu_effective_limit = n,
                qu_reset_at = shanghai_midnight (date + 1), qu_created_at = now, qu_updated_at = now\<rparr>))))))"

definition reservation_from_row :: "quota_usage \<Rightarrow> bool \<Rightarrow> instant \<Rightarrow> quota_reservation" where
  "reservation_from_row u reserved observed_at =
     \<lparr>qr_endpoint_key = qu_endpoint_key u, qr_business_date = qu_business_date u, qr_request_count = qu_request_count u,
      qr_effective_limit = qu_effective_limit u, qr_reset_at = qu_reset_at u,
      qr_remaining = max (qu_effective_limit u - qu_request_count u) 0, qr_reserved = reserved,
      qr_retry_after_seconds = (if reserved then None else Some (retry_after_seconds (qu_reset_at u) observed_at))\<rparr>"

text \<open>\<open>INSERT ... ON CONFLICT (identity) DO UPDATE ... WHERE request_count < excluded.effective_limit RETURNING\<close>.\<close>

definition reserve_in_session :: "ledger \<Rightarrow> quota_identity \<Rightarrow> quota_usage \<Rightarrow> instant \<Rightarrow> quota_reservation \<times> ledger" where
  "reserve_in_session rows identity values observed_at =
     (case find_row usage_identity identity rows of
        None \<Rightarrow> (reservation_from_row values True observed_at, add_row values rows)
      | Some u \<Rightarrow>
          (if qu_request_count u < qu_effective_limit values
           then let u' = u\<lparr>qu_request_count := qu_request_count u + 1, qu_effective_limit := qu_effective_limit values,
                           qu_reset_at := qu_reset_at values, qu_updated_at := qu_updated_at values\<rparr>
                in (reservation_from_row u' True observed_at, upd_row usage_identity u' rows)
           else (reservation_from_row u False observed_at, rows)))"

definition try_reserve_daily_quota ::
  "ledger \<Rightarrow> string option \<Rightarrow> string option \<Rightarrow> string option \<Rightarrow> string option \<Rightarrow> int option \<Rightarrow> int option \<Rightarrow> int option \<Rightarrow> instant
     \<Rightarrow> (quota_reservation \<times> ledger) result" where
  "try_reserve_daily_quota rows environment app_id account_id endpoint_key given_limit limit business_date now =
     bind_result (reservation_inputs environment app_id account_id endpoint_key given_limit limit business_date now)
       (\<lambda>(identity, values). Inr (reserve_in_session rows identity values now))"

definition reserve_daily_quota ::
  "ledger \<Rightarrow> string option \<Rightarrow> string option \<Rightarrow> string option \<Rightarrow> string option \<Rightarrow> int option \<Rightarrow> int option \<Rightarrow> int option \<Rightarrow> instant
     \<Rightarrow> (quota_reservation \<times> ledger) result" where
  "reserve_daily_quota rows environment app_id account_id endpoint_key given_limit limit business_date now =
     bind_result (try_reserve_daily_quota rows environment app_id account_id endpoint_key given_limit limit business_date now)
       (\<lambda>(r, rows'). if qr_reserved r then Inr (r, rows')
          else Inl (DouyinQuotaExceeded (safe_endpoint_key (qr_endpoint_key r)) (case qr_retry_after_seconds r of None \<Rightarrow> 0 | Some n \<Rightarrow> n)))"

section \<open>The in-memory store\<close>

type_synonym memory_store = "(quota_identity \<times> int) list"

definition memory_count :: "memory_store \<Rightarrow> quota_identity \<Rightarrow> int" where
  "memory_count m k = (case map_of m k of None \<Rightarrow> 0 | Some n \<Rightarrow> n)"

definition memory_reserve :: "memory_store \<Rightarrow> quota_identity \<Rightarrow> int \<Rightarrow> bool \<times> memory_store" where
  "memory_reserve m k quota =
     (if quota \<le> memory_count m k then (False, m) else (True, AList.update k (memory_count m k + 1) m))"

section \<open>The governor of a client\<close>

record request_governor =
  rg_pacing :: request_pacing
  rg_app_id :: string
  rg_account_id :: string
  rg_environment :: string
  rg_has_quota_store :: bool

definition build_request_governor ::
  "url_split \<Rightarrow> (pyval \<Rightarrow> string) \<Rightarrow> (string \<Rightarrow> pyval option) \<Rightarrow> string option \<Rightarrow> string option \<Rightarrow> string option
     \<Rightarrow> string \<Rightarrow> string \<Rightarrow> string option \<Rightarrow> bool \<Rightarrow> pyval option \<Rightarrow> pyval \<Rightarrow> request_governor result" where
  "build_request_governor url repr json_loads env_interval env_limits env_name app_id account_id environment store default_interval limits_json =
     bind_result (endpoint_profile_for_app url repr json_loads env_interval env_limits (Some app_id) default_interval limits_json) (\<lambda>p.
       let env = py_strip (or_else (Some (or_else environment (case env_name of None \<Rightarrow> ''default'' | Some e \<Rightarrow> e))) ''default'')
       in Inr \<lparr>rg_pacing = \<lparr>rp_profile = p, rp_next_allowed_at = []\<rparr>, rg_app_id = py_strip app_id,
               rg_account_id = py_strip account_id, rg_environment = (if env = [] then ''default'' else env), rg_has_quota_store = store\<rparr>)"

text \<open>\<open>_reserve_quota\<close> on the ledger: every error but an exhausted quota becomes a store error.\<close>

definition reserve_quota :: "request_governor \<Rightarrow> ledger \<Rightarrow> string \<Rightarrow> int \<Rightarrow> int \<Rightarrow> instant \<Rightarrow> (bool \<times> ledger) result" where
  "reserve_quota g rows endpoint date quota now =
     (case try_reserve_daily_quota rows (Some (rg_environment g)) (Some (rg_app_id g)) (Some (rg_account_id g)) (Some endpoint)
             (Some quota) None (Some date) now of
        Inl e \<Rightarrow> Inl (QuotaStoreError ''durable Douyin quota reservation failed'')
      | Inr (r, rows') \<Rightarrow> Inr (qr_reserved r, rows'))"

definition daily_limit :: "url_split \<Rightarrow> request_governor \<Rightarrow> string \<Rightarrow> int option" where
  "daily_limit url g endpoint =
     (if rg_has_quota_store g then Option.bind (limit_for url (rp_profile (rg_pacing g)) endpoint) el_daily_quota else None)"

definition acquire_request ::
  "url_split \<Rightarrow> request_governor \<Rightarrow> ledger \<Rightarrow> string \<Rightarrow> rat \<Rightarrow> instant \<Rightarrow> (rat \<times> request_governor \<times> ledger) result" where
  "acquire_request url g rows key clock wall =
     (let endpoint = sanitize_endpoint url key;
          paced = (\<lambda>rows'. let (wait, pacing) = acquire_pacing url (rg_pacing g) endpoint clock in (wait, g\<lparr>rg_pacing := pacing\<rparr>, rows'))
      in case daily_limit url g endpoint of
           None \<Rightarrow> Inr (paced rows)
         | Some quota \<Rightarrow>
             bind_result (reserve_quota g rows endpoint (shanghai_date wall) quota wall) (\<lambda>(allowed, rows').
               if allowed then Inr (paced rows')
               else Inl (DouyinQuotaExceeded (sanitize_endpoint url endpoint) (seconds_until_next_shanghai_day wall))))"

section \<open>Priority budgets\<close>

definition next_daily_delay :: "instant \<Rightarrow> int" where
  "next_daily_delay now =
     (let due = shanghai_midnight (shanghai_date now) + hours 2; due' = (if due \<le> now then due + days 1 else due)
      in max 60 (ceil_seconds (due' - now)))"

definition history_reserve :: "string option \<Rightarrow> int result" where
  "history_reserve env =
     (case int_text (case env of None \<Rightarrow> ''10'' | Some t \<Rightarrow> t) of
        None \<Rightarrow> Inl (ValueError ''WORKER_HISTORY_DAILY_RESERVE must be an integer'')
      | Some n \<Rightarrow> (if n < 1 \<or> 90 < n then Inl (ValueError ''WORKER_HISTORY_DAILY_RESERVE must be between 1 and 90'') else Inr n))"

record priority_governor =
  pg_purpose :: string
  pg_started_day :: int
  pg_blocked_endpoints :: "string list"
  pg_governor :: request_governor

definition history_limit :: "int \<Rightarrow> string \<Rightarrow> endpoint_limit \<Rightarrow> (endpoint_limit \<times> string list) result" where
  "history_limit reserve key l =
     (case el_daily_quota l of
        None \<Rightarrow> Inr (l, [])
      | Some quota \<Rightarrow>
          (if quota - reserve \<le> 0 then Inr (l, [key])
           else bind_result (endpoint_limit_of (el_requests_per_window l) (el_window_seconds l) (el_soft_quota l) (Some (quota - reserve)))
                  (\<lambda>l'. Inr (l', []))))"

fun history_limits :: "int \<Rightarrow> (string \<times> endpoint_limit) list \<Rightarrow> ((string \<times> endpoint_limit) list \<times> string list) result" where
  "history_limits reserve [] = Inr ([], [])"
| "history_limits reserve ((key, l) # limits) =
     bind_result (history_limit reserve key l) (\<lambda>(l', b).
     bind_result (history_limits reserve limits) (\<lambda>(ls, bs). Inr ((key, l') # ls, b @ bs)))"

definition priority_request_governor ::
  "url_split \<Rightarrow> request_governor \<Rightarrow> string \<Rightarrow> int \<Rightarrow> instant \<Rightarrow> priority_governor result" where
  "priority_request_governor url g purpose reserve now =
     (let p = rp_profile (rg_pacing g);
          protected = (\<lambda>blocked g'. \<lparr>pg_purpose = purpose, pg_started_day = shanghai_date now, pg_blocked_endpoints = blocked, pg_governor = g'\<rparr>)
      in if purpose = ''history''
         then bind_result (history_limits reserve (pf_endpoints p)) (\<lambda>(limits, blocked).
              bind_result (douyin_endpoint_profile url (pf_app_id p) limits (pf_default_interval_seconds p)) (\<lambda>p'.
                Inr (protected blocked (g\<lparr>rg_pacing := (rg_pacing g)\<lparr>rp_profile := p'\<rparr>\<rparr>))))
         else Inr (protected [] g))"

definition acquire_priority ::
  "url_split \<Rightarrow> priority_governor \<Rightarrow> ledger \<Rightarrow> string \<Rightarrow> rat \<Rightarrow> instant \<Rightarrow> instant \<Rightarrow> (rat \<times> priority_governor \<times> ledger) result" where
  "acquire_priority url pg rows key clock wall now =
     (if shanghai_date now \<noteq> pg_started_day pg \<or> (pg_purpose pg = ''history'' \<and> shanghai_hour now < 2) \<or> key \<in> set (pg_blocked_endpoints pg)
      then Inl (PriorityBudgetPauseError (max 60 (next_daily_delay now)))
      else case acquire_request url (pg_governor pg) rows key clock wall of
             Inl (DouyinQuotaExceeded e n) \<Rightarrow> Inl (PriorityBudgetPauseError (max 60 (next_daily_delay now)))
           | Inl err \<Rightarrow> Inl err
           | Inr (wait, g', rows') \<Rightarrow> Inr (wait, pg\<lparr>pg_governor := g'\<rparr>, rows'))"

definition priority_generation_config :: "string option \<Rightarrow> bool" where
  "priority_generation_config config_version =
     (case config_version of
        None \<Rightarrow> False
      | Some v \<Rightarrow> v = ''priority-daily-v1'' \<or> py_startswith v ''priority-daily-v1-recovery'')"

datatype client_governor = NoGovernor | Plain request_governor | Protected priority_governor

text \<open>\<open>protect_priority_requests\<close>: the governor a client has afterwards.\<close>

definition protect_priority_requests ::
  "url_split \<Rightarrow> client_governor \<Rightarrow> string option \<Rightarrow> string option \<Rightarrow> string option \<Rightarrow> instant \<Rightarrow> client_governor result" where
  "protect_priority_requests url client config_version priority_purpose env_reserve now =
     (case client of
        Plain g \<Rightarrow>
          (if \<not> priority_generation_config config_version then Inr client
           else let purpose = (case priority_purpose of None \<Rightarrow> ''daily_required'' | Some p \<Rightarrow> p)
                in if purpose \<notin> {''daily_required'', ''history'', ''reconcile''} then Inl (ValueError ''unknown priority budget purpose'')
                   else bind_result (history_reserve env_reserve) (\<lambda>reserve.
                        bind_result (priority_request_governor url g purpose reserve now) (\<lambda>pg. Inr (Protected pg))))
      | _ \<Rightarrow> Inr client)"

section \<open>What a quota store promises\<close>

text \<open>
  A store counts the reservations of each identity and grants one exactly while the count is below the
  limit asked for. \<open>'x\<close> is what a store records beside the count.
\<close>

locale quota_store =
  fixes used :: "'s \<Rightarrow> 'k \<Rightarrow> int" and reserve :: "'x \<Rightarrow> 's \<Rightarrow> 'k \<Rightarrow> int \<Rightarrow> bool \<times> 's"
  assumes reserve_allowed: "0 < n \<Longrightarrow> fst (reserve x s k n) = (used s k < n)"
    and reserve_used: "0 < n \<Longrightarrow> used (snd (reserve x s k n)) j = (if j = k \<and> used s k < n then used s k + 1 else used s j)"
begin

fun reserve_all :: "'s \<Rightarrow> ('x \<times> 'k \<times> int) list \<Rightarrow> bool list \<times> 's" where
  "reserve_all s [] = ([], s)"
| "reserve_all s ((x, k, n) # rs) = (let (b, s') = reserve x s k n; (bs, s'') = reserve_all s' rs in (b # bs, s''))"

definition granted :: "'s \<Rightarrow> ('x \<times> 'k \<times> int) list \<Rightarrow> 'k \<Rightarrow> int" where
  "granted s rs k = int (length (filter (\<lambda>((x, j, n), b). j = k \<and> b) (zip rs (fst (reserve_all s rs)))))"

lemma granted_Cons:
  "0 < n \<Longrightarrow> granted s ((x, j, n) # rs) k = (if j = k \<and> used s k < n then 1 else 0) + granted (snd (reserve x s j n)) rs k"
  using reserve_allowed [of n x s j] by (auto simp: granted_def split: prod.splits)

lemma reserve_all_used:
  assumes "\<forall>(x, j, n) \<in> set rs. 0 < n"
  shows "used (snd (reserve_all s rs)) k = used s k + granted s rs k"
  using assms
proof (induction rs arbitrary: s)
  case Nil
  then show ?case by (simp add: granted_def)
next
  case (Cons r rs)
  obtain x j n where r: "r = (x, j, n)" by (metis prod_cases3)
  with Cons have "used (snd (reserve_all (snd (reserve x s j n)) rs)) k
      = used (snd (reserve x s j n)) k + granted (snd (reserve x s j n)) rs k" by simp
  with r Cons.prems reserve_used [of n x s j k] show ?case by (auto simp: granted_Cons split: prod.splits)
qed

lemma used_bounded:
  assumes "\<forall>(x, j, n) \<in> set rs. 0 < n \<and> (j = k \<longrightarrow> n \<le> limit)"
  shows "used (snd (reserve_all s rs)) k \<le> max (used s k) limit"
  using assms
proof (induction rs arbitrary: s)
  case (Cons r rs)
  obtain x j n where r: "r = (x, j, n)" by (metis prod_cases3)
  with Cons have "used (snd (reserve_all (snd (reserve x s j n)) rs)) k \<le> max (used (snd (reserve x s j n)) k) limit" by simp
  moreover have "used (snd (reserve x s j n)) k \<le> max (used s k) limit"
    using r Cons.prems by (auto simp: reserve_used)
  ultimately show ?case by (auto simp: r split: prod.splits)
qed simp

end

text \<open>The in-memory store and the ledger keep the promise.\<close>

interpretation memory: quota_store memory_count "\<lambda>_ :: unit. memory_reserve"
  by unfold_locales (auto simp: memory_reserve_def memory_count_def update_conv')

definition ledger_used :: "ledger \<Rightarrow> quota_identity \<Rightarrow> int" where
  "ledger_used rows k = (case find_row usage_identity k rows of None \<Rightarrow> 0 | Some u \<Rightarrow> qu_request_count u)"

definition usage_row :: "instant \<Rightarrow> quota_identity \<Rightarrow> int \<Rightarrow> quota_usage" where
  "usage_row now k n = (case k of (env, app, account, endpoint, date) \<Rightarrow>
     \<lparr>qu_environment = env, qu_app_id = app, qu_account_id = account, qu_endpoint_key = endpoint, qu_business_date = date,
      qu_request_count = 1, qu_effective_limit = n, qu_reset_at = shanghai_midnight (date + 1), qu_created_at = now, qu_updated_at = now\<rparr>)"

definition ledger_reserve :: "instant \<Rightarrow> ledger \<Rightarrow> quota_identity \<Rightarrow> int \<Rightarrow> bool \<times> ledger" where
  "ledger_reserve now rows k n = (let (r, rows') = reserve_in_session rows k (usage_row now k n) now in (qr_reserved r, rows'))"

lemma usage_row_simps [simp]: "usage_identity (usage_row now k n) = k" "qu_request_count (usage_row now k n) = 1"
  "qu_effective_limit (usage_row now k n) = n"
  by (auto simp: usage_row_def usage_identity_def split: prod.splits)

lemma ledger_reserve_used:
  "ledger_used (snd (ledger_reserve x rows k n)) j = (if j = k \<and> (0 < n \<longrightarrow> ledger_used rows k < n) \<and> (ledger_used rows k < n \<or> find_row usage_identity k rows = None)
     then ledger_used rows k + 1 else ledger_used rows j)"
proof (cases "find_row usage_identity k rows")
  case None
  then show ?thesis
    by (auto simp: ledger_reserve_def reserve_in_session_def ledger_used_def reservation_from_row_def find_row_add split: option.splits)
next
  case (Some u)
  then have "usage_identity u = k" by (rule find_row_key)
  with Some show ?thesis
    by (auto simp: ledger_reserve_def reserve_in_session_def ledger_used_def find_row_upd usage_identity_def Let_def)
qed

interpretation ledger: quota_store ledger_used ledger_reserve
proof
  fix n x rows k
  assume "0 < (n :: int)"
  then show "fst (ledger_reserve x rows k n) = (ledger_used rows k < n)"
    by (auto simp: ledger_reserve_def reserve_in_session_def ledger_used_def reservation_from_row_def Let_def split: option.splits)
next
  fix n x rows k j
  assume "0 < (n :: int)"
  then show "ledger_used (snd (ledger_reserve x rows k n)) j = (if j = k \<and> ledger_used rows k < n then ledger_used rows k + 1 else ledger_used rows j)"
    unfolding ledger_reserve_used by (auto simp: ledger_used_def)
qed

section \<open>Requests and reservations\<close>

text \<open>The reservation a request asks for: none where the endpoint has no daily quota or its inputs are refused.\<close>

definition request_identity :: "url_split \<Rightarrow> request_governor \<Rightarrow> string \<Rightarrow> instant \<Rightarrow> quota_identity" where
  "request_identity url g key wall =
     (py_strip (rg_environment g), py_strip (rg_app_id g), py_strip (rg_account_id g),
      safe_endpoint_key (py_strip (sanitize_endpoint url key)), shanghai_date wall)"

definition reservation_of :: "url_split \<Rightarrow> request_governor \<Rightarrow> string \<Rightarrow> instant \<Rightarrow> (instant \<times> quota_identity \<times> int) option" where
  "reservation_of url g key wall =
     (case daily_limit url g (sanitize_endpoint url key) of
        None \<Rightarrow> None
      | Some q \<Rightarrow>
          if py_strip (rg_environment g) = [] \<or> py_strip (rg_app_id g) = [] \<or> py_strip (rg_account_id g) = []
             \<or> py_strip (sanitize_endpoint url key) = [] \<or> q \<le> 0 then None
          else Some (wall, request_identity url g key wall, q))"

lemma reservation_inputs_values:
  "reservation_inputs (Some env) (Some app) (Some account) (Some e) (Some q) None (Some date) wall =
     (if py_strip env = [] then Inl (ValueError ''environment is required'')
      else if py_strip app = [] then Inl (ValueError ''app_id is required'')
      else if py_strip account = [] then Inl (ValueError ''account_id is required'')
      else if py_strip e = [] then Inl (ValueError ''endpoint_key is required'')
      else if q \<le> 0 then Inl (ValueError ''effective_limit must be a positive integer'')
      else let k = (py_strip env, py_strip app, py_strip account, safe_endpoint_key (py_strip e), date) in Inr (k, usage_row wall k q))"
  by (simp add: reservation_inputs_def quota_text_def effective_limit_of_def usage_row_def Let_def)

lemma reserve_denied: "\<not> fst (ledger_reserve x rows k n) \<Longrightarrow> snd (ledger_reserve x rows k n) = rows"
  by (auto simp: ledger_reserve_def reserve_in_session_def reservation_from_row_def Let_def split: option.splits if_splits)

lemma acquire_request_ledger:
  "case reservation_of url g key wall of
     None \<Rightarrow> (case acquire_request url g rows key clock wall of
                Inl e \<Rightarrow> daily_limit url g (sanitize_endpoint url key) \<noteq> None
              | Inr (w, g', rows') \<Rightarrow> daily_limit url g (sanitize_endpoint url key) = None \<and> rows' = rows)
   | Some (x, k, q) \<Rightarrow> 0 < q \<and> k = request_identity url g key wall \<and> daily_limit url g (sanitize_endpoint url key) = Some q \<and>
       (case acquire_request url g rows key clock wall of
          Inl e \<Rightarrow> \<not> fst (ledger_reserve x rows k q)
        | Inr (w, g', rows') \<Rightarrow> fst (ledger_reserve x rows k q) \<and> rows' = snd (ledger_reserve x rows k q))"
proof (cases "daily_limit url g (sanitize_endpoint url key)")
  case None
  then show ?thesis by (simp add: reservation_of_def acquire_request_def Let_def split: prod.splits)
next
  case (Some q)
  then show ?thesis
    by (auto simp: reservation_of_def acquire_request_def reserve_quota_def try_reserve_daily_quota_def reservation_inputs_values
        request_identity_def ledger_reserve_def Let_def split: prod.splits)
qed

text \<open>A run of requests by any governors on one ledger: which were sent, and the ledger after.\<close>

type_synonym request = "request_governor \<times> string \<times> rat \<times> instant"

fun run_requests :: "url_split \<Rightarrow> ledger \<Rightarrow> request list \<Rightarrow> bool list \<times> ledger" where
  "run_requests url rows [] = ([], rows)"
| "run_requests url rows ((g, key, clock, wall) # rs) =
     (case acquire_request url g rows key clock wall of
        Inl e \<Rightarrow> (let (bs, rows') = run_requests url rows rs in (False # bs, rows'))
      | Inr (w, g', rows1) \<Rightarrow> (let (bs, rows') = run_requests url rows1 rs in (True # bs, rows')))"

definition sent_for :: "url_split \<Rightarrow> ledger \<Rightarrow> request list \<Rightarrow> quota_identity \<Rightarrow> int" where
  "sent_for url rows rs k =
     int (length (filter (\<lambda>((g, key, clock, wall), b). request_identity url g key wall = k
        \<and> daily_limit url g (sanitize_endpoint url key) \<noteq> None \<and> b) (zip rs (fst (run_requests url rows rs)))))"

definition reservations :: "url_split \<Rightarrow> request list \<Rightarrow> (instant \<times> quota_identity \<times> int) list" where
  "reservations url rs = List.map_filter (\<lambda>(g, key, clock, wall). reservation_of url g key wall) rs"

lemma run_requests_reserves:
  "snd (run_requests url rows rs) = snd (ledger.reserve_all rows (reservations url rs))
    \<and> sent_for url rows rs k = ledger.granted rows (reservations url rs) k"
proof (induction rs arbitrary: rows)
  case Nil
  then show ?case by (simp add: reservations_def List.map_filter_simps sent_for_def ledger.granted_def)
next
  case (Cons r rs)
  obtain g key clock wall where r: "r = (g, key, clock, wall)" by (metis prod_cases4)
  note a = acquire_request_ledger [where url = url and g = g and key = key and wall = wall and rows = rows and clock = clock]
  have IH: "snd (run_requests url rows1 rs) = snd (ledger.reserve_all rows1 (reservations url rs))"
    "sent_for url rows1 rs k = ledger.granted rows1 (reservations url rs) k" for rows1
    using Cons.IH by auto
  show ?case
  proof (cases "reservation_of url g key wall")
    case None
    then have res: "reservations url (r # rs) = reservations url rs" by (simp add: r reservations_def List.map_filter_simps)
    show ?thesis using a None IH [of rows]
      by (auto simp: r res [unfolded r] sent_for_def split: sum.splits prod.splits)
  next
    case (Some y)
    obtain x j q where y: "y = (x, j, q)" by (metis prod_cases3)
    then have res: "reservations url (r # rs) = (x, j, q) # reservations url rs" using Some by (simp add: r reservations_def List.map_filter_simps)
    have q: "0 < q" "j = request_identity url g key wall" "daily_limit url g (sanitize_endpoint url key) \<noteq> None" using a Some y by auto
    show ?thesis
    proof (cases "acquire_request url g rows key clock wall")
      case (Inl e)
      then have d: "\<not> fst (ledger_reserve x rows j q)" using a Some y by auto
      with reserve_denied [OF d] ledger.reserve_allowed [OF q(1), of x rows j] Inl IH [of rows] show ?thesis
        by (auto simp: r res [unfolded r] ledger.granted_Cons [OF q(1)] sent_for_def Let_def split: prod.splits)
    next
      case (Inr z)
      obtain w g' rows' where z: "z = (w, g', rows')" by (metis prod_cases3)
      then have d: "fst (ledger_reserve x rows j q)" "rows' = snd (ledger_reserve x rows j q)" using a Some y Inr by auto
      with ledger.reserve_allowed [OF q(1), of x rows j] Inr z IH [of rows'] q show ?thesis
        by (auto simp: r res [unfolded r] ledger.granted_Cons [OF q(1)] sent_for_def Let_def split: prod.splits)
    qed
  qed
qed

lemma sent_within_limit:
  assumes "\<forall>(g, key, clock, wall) \<in> set rs. \<forall>q. request_identity url g key wall = k \<longrightarrow> daily_limit url g (sanitize_endpoint url key) = Some q \<longrightarrow> q \<le> limit"
  shows "ledger_used rows k + sent_for url rows rs k \<le> max (ledger_used rows k) limit"
proof -
  have bound: "0 < n \<and> (j = k \<longrightarrow> n \<le> limit)" if "(x, j, n) \<in> set (reservations url rs)" for x j n
  proof -
    from that obtain g key clock wall where m: "(g, key, clock, wall) \<in> set rs" and r: "reservation_of url g key wall = Some (x, j, n)"
      by (auto simp: reservations_def List.map_filter_def)
    from r have "0 < n" "j = request_identity url g key wall" "daily_limit url g (sanitize_endpoint url key) = Some n"
      by (auto simp: reservation_of_def split: option.splits if_splits)
    with m assms show ?thesis by auto
  qed
  then have "\<forall>(x, j, n) \<in> set (reservations url rs). 0 < n" "\<forall>(x, j, n) \<in> set (reservations url rs). 0 < n \<and> (j = k \<longrightarrow> n \<le> limit)" by blast+
  from ledger.reserve_all_used [OF this(1), of rows k] ledger.used_bounded [OF this(2), of rows] run_requests_reserves [of url rows rs k]
  show ?thesis by simp
qed

section \<open>Governors of the production app\<close>

text \<open>
  The governors the workers have: built for the production app with the ledger attached, after any number of requests,
  and protected for a priority purpose.
\<close>

inductive production_governor :: "url_split \<Rightarrow> request_governor \<Rightarrow> bool" for url where
  built: "build_request_governor url repr json_loads env_interval env_limits env_name app_id account_id environment True default_interval limits_json = Inr g
    \<Longrightarrow> py_strip app_id = production_app_id \<Longrightarrow> production_governor url g"
| used: "production_governor url g \<Longrightarrow> acquire_request url g rows key clock wall = Inr (wait, g', rows') \<Longrightarrow> production_governor url g'"
| protected: "production_governor url g \<Longrightarrow> 1 \<le> reserve \<Longrightarrow> priority_request_governor url g purpose reserve now = Inr pg
    \<Longrightarrow> production_governor url (pg_governor pg)"

definition reviewed_limits :: "(string \<times> endpoint_limit) list \<Rightarrow> bool" where
  "reviewed_limits m \<longleftrightarrow> distinct (map fst m) \<and> fst ` set m = fst ` set production_endpoint_limits
     \<and> (\<forall>(k, l) \<in> set m. limit_ok l \<and> (\<exists>b. map_of production_endpoint_limits k = Some b \<and> tightens b l))"

lemma fold_update_keys:
  "distinct (map fst acc) \<Longrightarrow> distinct (map fst (fold (\<lambda>(k, l). AList.update (f k) l) xs acc))
     \<and> fst ` set (fold (\<lambda>(k, l). AList.update (f k) l) xs acc) = f ` fst ` set xs \<union> fst ` set acc"
proof (induction xs arbitrary: acc)
  case (Cons x xs)
  obtain k l where x: "x = (k, l)" by fastforce
  have "fst ` set (AList.update (f k) l acc) = insert (f k) (fst ` set acc)"
    using dom_map_of_conv_image_fst [of "AList.update (f k) l acc"] dom_map_of_conv_image_fst [of acc] by (simp add: update_conv')
  with Cons.IH [of "AList.update (f k) l acc"] Cons.prems x show ?case by (auto simp: distinct_update)
qed simp

lemma reviewed_profile:
  assumes "reviewed_limits m" and "douyin_endpoint_profile url app m d = Inr p"
  shows "reviewed_limits (pf_endpoints p) \<and> (\<forall>k. map_of (pf_endpoints p) k = map_of m k)"
proof -
  let ?f = "fold (\<lambda>(k, l). AList.update (sanitize_endpoint url k) l) m []"
  have p: "pf_endpoints p = ?f" using assms(2) by (auto simp: douyin_endpoint_profile_def split: if_splits)
  have all: "fst ` set m = fst ` set production_endpoint_limits" and d: "distinct (map fst m)"
    using assms(1) by (simp_all add: reviewed_limits_def)
  have fixed: "sanitize_endpoint url (fst x) = fst x" if "x \<in> set m" for x
    using production_key_fixed [of "fst x"] imageI [OF that, of fst] unfolding all by simp
  have "sanitize_endpoint url ` fst ` set m = fst ` set m" unfolding image_image by (rule image_cong) (simp_all add: fixed)
  then have keys: "distinct (map fst ?f)" "fst ` set ?f = fst ` set m"
    using fold_update_keys [of "[]" "sanitize_endpoint url" m] by simp_all
  have look: "map_of m k = Some l" if "map_of ?f k = Some l" for k l
    using fold_update_lookup [OF that] fixed d by fastforce
  have "map_of ?f k = map_of m k" for k
  proof (cases "map_of ?f k")
    case None
    with keys(2) show ?thesis by (metis map_of_eq_None_iff)
  next
    case (Some l)
    with look show ?thesis by simp
  qed
  moreover from this have "set ?f = set m" using map_of_inject_set [OF keys(1) d] by blast
  ultimately show ?thesis using assms(1) keys by (simp add: reviewed_limits_def p)
qed

lemma history_limit_Inr:
  assumes "history_limit reserve k l = Inr (l', b)" and "limit_ok l" and "1 \<le> reserve"
  shows "limit_ok l' \<and> tightens l l' \<and> (\<forall>q. el_daily_quota l = Some q \<longrightarrow>
     (if q - reserve \<le> 0 then k \<in> set b else el_daily_quota l' = Some (q - reserve)))"
proof (cases "\<exists>q. el_daily_quota l = Some q \<and> 0 < q - reserve")
  case True
  then obtain q where q: "el_daily_quota l = Some q" "0 < q - reserve" by blast
  with assms(1) have e: "endpoint_limit_of (el_requests_per_window l) (el_window_seconds l) (el_soft_quota l) (Some (q - reserve)) = Inr l'"
    by (auto simp: history_limit_def bind_result_Inr)
  then have "l' = l\<lparr>el_daily_quota := Some (q - reserve)\<rparr>" by (auto simp: endpoint_limit_of_def Let_def split: if_splits)
  with q endpoint_limit_of_ok [OF e] assms(3) show ?thesis
    by (auto simp: tightens_def effective_quota_def split: option.split)
next
  case False
  with assms show ?thesis by (auto simp: history_limit_def tightens_refl not_less split: option.splits if_splits)
qed

lemma history_limits_Inr:
  assumes "history_limits reserve m = Inr (ls, bs)" and "\<forall>(k, l) \<in> set m. limit_ok l" and "1 \<le> reserve"
  shows "map fst ls = map fst m \<and> (\<forall>(k, l') \<in> set ls. \<exists>l. (k, l) \<in> set m \<and> limit_ok l' \<and> tightens l l'
     \<and> (\<forall>q. el_daily_quota l = Some q \<longrightarrow> (if q - reserve \<le> 0 then k \<in> set bs else el_daily_quota l' = Some (q - reserve))))"
  using assms(1,2)
proof (induction m arbitrary: ls bs)
  case (Cons x m)
  obtain k l where x: "x = (k, l)" by fastforce
  with Cons.prems(1) obtain l' b ls' bs' where h: "history_limit reserve k l = Inr (l', b)" "history_limits reserve m = Inr (ls', bs')"
    "ls = (k, l') # ls'" "bs = b @ bs'" by (auto simp: bind_result_Inr)
  have IH: "map fst ls' = map fst m \<and> (\<forall>(k, l') \<in> set ls'. \<exists>l. (k, l) \<in> set m \<and> limit_ok l' \<and> tightens l l'
     \<and> (\<forall>q. el_daily_quota l = Some q \<longrightarrow> (if q - reserve \<le> 0 then k \<in> set bs' else el_daily_quota l' = Some (q - reserve))))"
    using Cons.IH [OF h(2)] Cons.prems(2) by auto
  have hl: "limit_ok l' \<and> tightens l l' \<and> (\<forall>q. el_daily_quota l = Some q \<longrightarrow>
     (if q - reserve \<le> 0 then k \<in> set b else el_daily_quota l' = Some (q - reserve)))"
    using history_limit_Inr [OF h(1) _ assms(3)] Cons.prems(2) x by auto
  show ?case unfolding h(3,4) x using IH hl by (fastforce split: if_splits)
qed simp

lemma acquire_request_governor:
  assumes "acquire_request url g rows key clock wall = Inr (w, g', rows')"
  shows "rp_profile (rg_pacing g') = rp_profile (rg_pacing g)" and "rg_has_quota_store g' = rg_has_quota_store g"
proof -
  obtain w' pacing where p: "acquire_pacing url (rg_pacing g) (sanitize_endpoint url key) clock = (w', pacing)" by fastforce
  have "g' = g\<lparr>rg_pacing := pacing\<rparr>"
    using assms by (auto simp: acquire_request_def bind_result_Inr Let_def p split: option.splits if_splits)
  with acquire_pacing_other(1) [OF p] show "rp_profile (rg_pacing g') = rp_profile (rg_pacing g)" "rg_has_quota_store g' = rg_has_quota_store g"
    by simp_all
qed

lemma reviewed_history:
  assumes "reviewed_limits m" and "history_limits reserve m = Inr (ls, bs)" and "1 \<le> reserve"
  shows "reviewed_limits ls"
proof -
  have "\<forall>(k, l) \<in> set m. limit_ok l" using assms(1) unfolding reviewed_limits_def by blast
  from history_limits_Inr [OF assms(2) this assms(3)]
  have h: "map fst ls = map fst m" "\<forall>(k, l') \<in> set ls. \<exists>l. (k, l) \<in> set m \<and> limit_ok l' \<and> tightens l l'" by blast+
  have "limit_ok l' \<and> (\<exists>b. map_of production_endpoint_limits k = Some b \<and> tightens b l')" if "(k, l') \<in> set ls" for k l'
  proof -
    from that h(2) obtain l where l: "(k, l) \<in> set m" "limit_ok l'" "tightens l l'" by blast
    with assms(1) obtain b where "map_of production_endpoint_limits k = Some b" "tightens b l" unfolding reviewed_limits_def by blast
    with l tightens_trans show ?thesis by blast
  qed
  moreover have "fst ` set ls = fst ` set m" using h(1) by (metis set_map)
  ultimately show ?thesis using assms(1) h(1) by (auto simp: reviewed_limits_def)
qed

lemma or_else_self: "or_else (Some t) [] = t"
  by (simp add: or_else_def truthy_def)

lemma production_governor_reviewed:
  "production_governor url g \<Longrightarrow> reviewed_limits (pf_endpoints (rp_profile (rg_pacing g))) \<and> rg_has_quota_store g"
proof (induction rule: production_governor.induct)
  case (built repr json_loads env_interval env_limits env_name app_id account_id environment default_interval limits_json g)
  then obtain p where p: "endpoint_profile_for_app url repr json_loads env_interval env_limits (Some app_id) default_interval limits_json = Inr p"
    and g: "rp_profile (rg_pacing g) = p" "rg_has_quota_store g"
    by (auto simp: build_request_governor_def bind_result_Inr Let_def)
  have "py_strip (or_else (Some app_id) []) = production_app_id" using built(2) by (simp add: or_else_self)
  with p obtain ovs m d where m: "merge_limit_overrides url repr production_endpoint_limits ovs = Inr m"
    and d: "douyin_endpoint_profile url production_app_id m d = Inr p"
    by (auto simp: endpoint_profile_for_app_def Let_def bind_result_Inr)
  have t: "limits_tighten production_endpoint_limits m" using production_limits_ok by (intro merge_overrides_tighten [OF m]) blast
  then have dm: "distinct (map fst m)" "fst ` set m = fst ` set production_endpoint_limits"
    using production_keys_distinct unfolding limits_tighten_def by (metis, metis set_map)
  with t have "reviewed_limits m" by (auto simp: reviewed_limits_def limits_tighten_def)
  with d g reviewed_profile show ?case by blast
next
  case (used g rows key clock wall wait g' rows')
  with acquire_request_governor show ?case by metis
next
  case (protected g reserve purpose now pg)
  show ?case
  proof (cases "purpose = ''history''")
    case True
    with protected obtain ls bs p' where "history_limits reserve (pf_endpoints (rp_profile (rg_pacing g))) = Inr (ls, bs)"
      and p': "douyin_endpoint_profile url (pf_app_id (rp_profile (rg_pacing g))) ls (pf_default_interval_seconds (rp_profile (rg_pacing g))) = Inr p'"
      and "pg_governor pg = g\<lparr>rg_pacing := (rg_pacing g)\<lparr>rp_profile := p'\<rparr>\<rparr>"
      by (auto simp: priority_request_governor_def Let_def bind_result_Inr)
    with reviewed_profile [OF reviewed_history p'] protected show ?thesis by auto
  qed (use protected in \<open>auto simp: priority_request_governor_def Let_def\<close>)
qed

lemma refunds_daily_limit:
  assumes "production_governor url g"
  shows "\<exists>q. daily_limit url g ''refunds'' = Some q \<and> q \<le> 90"
proof -
  let ?m = "pf_endpoints (rp_profile (rg_pacing g))"
  have b: "map_of production_endpoint_limits ''refunds'' = Some ((plain_limit 100 86400)\<lparr>el_soft_quota := Some 90, el_daily_quota := Some 90\<rparr>)"
    by code_simp
  have mem: "''refunds'' \<in> fst ` set production_endpoint_limits" by (rule image_eqI [OF _ map_of_SomeD [OF b]]) simp
  have s: "sanitize_endpoint url ''refunds'' = ''refunds''" by (rule production_key_fixed [OF mem])
  have r: "reviewed_limits ?m" "rg_has_quota_store g" using production_governor_reviewed [OF assms] by blast+
  have "''refunds'' \<in> fst ` set ?m" using r(1) mem by (simp only: reviewed_limits_def)
  then obtain l where l: "map_of ?m ''refunds'' = Some l" by (metis map_of_eq_None_iff not_None_eq)
  from bspec [OF conjunct2 [OF conjunct2 [OF r(1) [unfolded reviewed_limits_def]]] map_of_SomeD [OF l]] b
  have "tightens ((plain_limit 100 86400)\<lparr>el_soft_quota := Some 90, el_daily_quota := Some 90\<rparr>) l" by auto
  then obtain q where "el_daily_quota l = Some q" "q \<le> 90" by (auto simp: tightens_def split: option.splits)
  then show ?thesis using l r(2) by (simp add: daily_limit_def limit_for_def s)
qed

text \<open>Two endpoint keys share a ledger row only where they are the same key, as far as the row's key can tell.\<close>

lemma key_char_plain: "\<forall>c :: char. is_safe_char c \<or> c = CHR ''_'' \<longrightarrow> \<not> digit7 c \<and> \<not> is_pyspace [c] \<and> c \<noteq> CHR ''?'' \<and> c \<noteq> CHR ''#''"
  by code_simp

lemma replace_unsafe_chars: "c \<in> set (replace_unsafe b s) \<Longrightarrow> is_safe_char c \<or> c = CHR ''_''"
  by (induction b s rule: replace_unsafe.induct) (auto split: if_splits)

lemma replace_unsafe_no_underscore: "CHR ''_'' \<notin> set (replace_unsafe False s) \<Longrightarrow> replace_unsafe False s = s"
  by (induction s) (auto split: if_splits)

lemma sanitized_chars:
  assumes "c \<in> set (sanitize_endpoint url key)"
  shows "is_safe_char c \<or> c = CHR ''_''"
proof -
  have "\<exists>x. sanitize_endpoint url key = (if take 240 (replace_unsafe False x) = [] then ''unknown'' else take 240 (replace_unsafe False x))"
    unfolding sanitize_endpoint_def Let_def by (rule exI, rule refl)
  then obtain x where "sanitize_endpoint url key = ''unknown'' \<or> sanitize_endpoint url key = take 240 (replace_unsafe False x)" by metis
  moreover have "list_all is_safe_char ''unknown''" by code_simp
  ultimately show ?thesis using assms replace_unsafe_chars [of c False x] in_set_takeD [of c 240] unfolding list_all_iff by metis
qed

lemma length_filter_weaken: "\<forall>x \<in> set xs. P x \<longrightarrow> Q x \<Longrightarrow> length (filter P xs) \<le> length (filter Q xs)"
  by (induction xs) auto

lemma ledger_key_exact:
  assumes "safe_endpoint_key (py_strip (sanitize_endpoint url key)) = r" and "CHR ''_'' \<notin> set r" and "length r < 128" and "r \<noteq> ''unknown''"
  shows "sanitize_endpoint url key = r"
proof -
  let ?e = "sanitize_endpoint url key"
  have "plain_ascii ?e" "\<forall>c \<in> set ?e. c \<noteq> CHR ''?'' \<and> c \<noteq> CHR ''#''"
    using sanitized_chars [of _ url key] key_char_plain unfolding plain_ascii_def list_all_iff by blast+
  moreover from this have "takeWhile (\<lambda>c. c \<noteq> CHR ''?'') ?e = ?e" "takeWhile (\<lambda>c. c \<noteq> CHR ''#'') ?e = ?e"
    by (simp_all only: takeWhile_eq_all_conv) blast+
  ultimately have "py_strip ?e = ?e" "before_query ?e = ?e" by (simp_all only: py_strip_plain before_query_def)
  then have t: "take 128 (replace_unsafe False ?e) = r" using assms(1,4) by (auto simp: safe_endpoint_key_def Let_def split: if_splits)
  then have "replace_unsafe False ?e = r" using assms(3)
    by (cases "length (replace_unsafe False ?e) \<le> 128") auto
  with replace_unsafe_no_underscore assms(2) show ?thesis by metis
qed

text \<open>What protecting a governor for history requests changes: nothing but its profile.\<close>

lemma history_governor:
  assumes "priority_request_governor url g ''history'' reserve now = Inr pg" and "production_governor url g" and "1 \<le> reserve"
    and "daily_limit url g key = Some q" and "sanitize_endpoint url key = key" and "key \<notin> set (pg_blocked_endpoints pg)"
  shows "daily_limit url (pg_governor pg) key = Some (q - reserve)"
    and "request_identity url (pg_governor pg) key wall = request_identity url g key wall"
proof -
  let ?p = "rp_profile (rg_pacing g)"
  from assms(1) obtain ls bs p' where h: "history_limits reserve (pf_endpoints ?p) = Inr (ls, bs)"
    and p': "douyin_endpoint_profile url (pf_app_id ?p) ls (pf_default_interval_seconds ?p) = Inr p'"
    and pg: "pg_governor pg = g\<lparr>rg_pacing := (rg_pacing g)\<lparr>rp_profile := p'\<rparr>\<rparr>" "pg_blocked_endpoints pg = bs"
    by (auto simp: priority_request_governor_def Let_def bind_result_Inr)
  show "request_identity url (pg_governor pg) key wall = request_identity url g key wall" by (simp add: pg request_identity_def)
  have r: "reviewed_limits (pf_endpoints ?p)" "rg_has_quota_store g" using production_governor_reviewed [OF assms(2)] by blast+
  then have "\<forall>(k, l) \<in> set (pf_endpoints ?p). limit_ok l" unfolding reviewed_limits_def by blast
  note hl = conjunct1 [OF history_limits_Inr [OF h this assms(3)]] conjunct2 [OF history_limits_Inr [OF h this assms(3)]]
  from assms(4,5) obtain l where l: "map_of (pf_endpoints ?p) key = Some l" "el_daily_quota l = Some q"
    by (auto simp: daily_limit_def limit_for_def Option.bind_eq_Some_conv split: if_splits)
  have d: "distinct (map fst (pf_endpoints ?p))" using r(1) by (simp only: reviewed_limits_def)
  have "key \<in> set (map fst ls)" unfolding hl(1) set_map by (rule image_eqI [OF _ map_of_SomeD [OF l(1)]]) simp
  then obtain l' where l': "(key, l') \<in> set ls" by auto
  from bspec [OF hl(2) l'] obtain l0 where l0: "(key, l0) \<in> set (pf_endpoints ?p)"
    and e: "\<forall>q. el_daily_quota l0 = Some q \<longrightarrow> (if q - reserve \<le> 0 then key \<in> set bs else el_daily_quota l' = Some (q - reserve))"
    unfolding prod.case by blast
  have "l0 = l" using l(1) map_of_is_SomeI [OF d l0] by simp
  with e l(2) assms(6) pg(2) have "el_daily_quota l' = Some (q - reserve)" by (auto split: if_splits)
  moreover have "map_of ls key = Some l'" by (rule map_of_is_SomeI [OF _ l']) (simp only: hl(1) d)
  ultimately show "daily_limit url (pg_governor pg) key = Some (q - reserve)"
    using reviewed_profile [OF reviewed_history [OF r(1) h assms(3)] p'] r(2) assms(5) by (simp add: pg daily_limit_def limit_for_def)
qed

section \<open>An example\<close>

definition example_governor :: request_governor where
  "example_governor = \<lparr>rg_pacing = \<lparr>rp_profile = \<lparr>pf_app_id = production_app_id, pf_endpoints = production_endpoint_limits,
      pf_default_interval_seconds = 1/2\<rparr>, rp_next_allowed_at = []\<rparr>, rg_app_id = production_app_id, rg_account_id = ''A1'',
      rg_environment = ''default'', rg_has_quota_store = True\<rparr>"

lemma example_governor_built:
  "build_request_governor (\<lambda>_. None) (\<lambda>_. []) (\<lambda>_. None) None None None production_app_id ''A1'' None True None PNone = Inr example_governor"
  by code_simp

lemma example_governor_production: "production_governor (\<lambda>_. None) example_governor"
proof (rule production_governor.built [OF example_governor_built])
  show "py_strip production_app_id = production_app_id" by code_simp
qed

section \<open>Properties\<close>

text \<open>
  C32. No more than 90 refund requests a day. However many workers send requests, in any order, at any
  times, through governors of the production app with any overrides and any priority protection, on one ledger that starts empty,
  at most 90 refund requests are sent for an environment, account and Shanghai day.
\<close>

theorem refund_requests_stay_within_daily_quota:
  assumes "\<forall>(g, key, clock, wall) \<in> set rs. production_governor url g"
  shows "length (filter (\<lambda>((g, key, clock, wall), sent). sanitize_endpoint url key = ''refunds'' \<and> request_identity url g key wall = k \<and> sent)
           (zip rs (fst (run_requests url [] rs)))) \<le> 90"
    (is "length (filter ?refund ?log) \<le> 90")
proof (cases "filter ?refund ?log = []")
  case False
  then have k: "fst (snd (snd (snd k))) = ''refunds''"
  proof -
    have "safe_endpoint_key (py_strip ''refunds'') = ''refunds''" by code_simp
    with False show ?thesis by (auto simp: filter_empty_conv request_identity_def)
  qed
  have "q \<le> 90" if m: "(g, key, clock, wall) \<in> set rs" and i: "request_identity url g key wall = k"
    and q: "daily_limit url g (sanitize_endpoint url key) = Some q" for g key clock wall q
  proof -
    have "sanitize_endpoint url key = ''refunds''"
      by (rule ledger_key_exact) (use i k in \<open>auto simp: request_identity_def\<close>)
    with refunds_daily_limit [of url g] assms m q show ?thesis by auto
  qed
  then have "ledger_used [] k + sent_for url [] rs k \<le> max (ledger_used [] k) 90" by (intro sent_within_limit) blast
  then have "sent_for url [] rs k \<le> 90" by (simp add: ledger_used_def)
  moreover have "int (length (filter ?refund ?log)) \<le> sent_for url [] rs k"
  proof -
    have "daily_limit url g ''refunds'' \<noteq> None" if "((g, key, clock, wall), sent) \<in> set ?log" for g key clock wall sent
      using refunds_daily_limit [of url g] assms set_zip_leftD [OF that] by auto
    then show ?thesis unfolding sent_for_def
      by (intro of_nat_mono length_filter_weaken) auto
  qed
  ultimately show ?thesis by simp
qed simp

theorem refund_requests_stay_within_daily_quota_witness:
  "fst (run_requests (\<lambda>_. None) [] [(example_governor, ''refunds'', 0, 0)]) = [True]
   \<and> length (filter (\<lambda>((g, key, clock, wall), sent). sanitize_endpoint (\<lambda>_. None) key = ''refunds''
         \<and> request_identity (\<lambda>_. None) g key wall = request_identity (\<lambda>_. None) example_governor ''refunds'' 0 \<and> sent)
       (zip (replicate 100 (example_governor, ''refunds'', 0 :: rat, 0))
         (fst (run_requests (\<lambda>_. None) [] (replicate 100 (example_governor, ''refunds'', 0, 0)))))) \<le> 90"
proof -
  have one: "fst (run_requests (\<lambda>_. None) [] [(example_governor, ''refunds'', 0, 0)]) = [True]" by code_simp
  have all: "\<forall>(g, key, clock, wall) \<in> set (replicate n (example_governor, ''refunds'', 0 :: rat, 0 :: instant)). production_governor (\<lambda>_. None) g" for n
    using example_governor_production by auto
  note bound = refund_requests_stay_within_daily_quota [OF all [of 100], of "request_identity (\<lambda>_. None) example_governor ''refunds'' 0"]
  show ?thesis by (intro conjI one bound)
qed

text \<open>
  C33. History requests leave the reserve untouched. When a governor protected for the history purpose sends a request to
  an endpoint with a daily quota, the day's count of that endpoint, with every request of every worker on the ledger
  included, is still at most the quota less the reserve: at least the reserve is left for the required daily requests.
\<close>

theorem history_requests_leave_the_reserve:
  assumes "production_governor url g" and "1 \<le> reserve" and "priority_request_governor url g ''history'' reserve started = Inr pg"
    and "sanitize_endpoint url key = key" and "daily_limit url g key = Some quota"
    and "acquire_priority url pg rows key clock wall now = Inr (wait, pg', rows')"
  shows "ledger_used rows' (request_identity url g key wall) \<le> quota - reserve"
proof -
  from assms(6) obtain g' where b: "key \<notin> set (pg_blocked_endpoints pg)"
    and a: "acquire_request url (pg_governor pg) rows key clock wall = Inr (wait, g', rows')"
    by (auto simp: acquire_priority_def split: if_splits sum.splits pyerr.splits)
  note h = history_governor [OF assms(3,1,2,5,4) b]
  let ?k = "request_identity url g key wall" and ?n = "quota - reserve"
  have "\<exists>x. 0 < ?n \<and> fst (ledger_reserve x rows ?k ?n) \<and> rows' = snd (ledger_reserve x rows ?k ?n)"
    using acquire_request_ledger [where url = url and g = "pg_governor pg" and key = key and wall = wall and rows = rows and clock = clock]
      a h(1) h(2) [of wall] assms(4) by (auto split: option.splits)
  then obtain x where x: "0 < ?n" "fst (ledger_reserve x rows ?k ?n)" "rows' = snd (ledger_reserve x rows ?k ?n)" by blast
  then show ?thesis using ledger.reserve_allowed [OF x(1), of x rows ?k] ledger.reserve_used [OF x(1), of x rows ?k ?k] by simp
qed

theorem history_requests_leave_the_reserve_witness:
  "\<exists>pg wait pg' rows'. priority_request_governor (\<lambda>_. None) example_governor ''history'' 10 0 = Inr pg
     \<and> acquire_priority (\<lambda>_. None) pg [] ''refunds'' 0 0 0 = Inr (wait, pg', rows')
     \<and> ledger_used rows' (request_identity (\<lambda>_. None) example_governor ''refunds'' 0) \<le> 80"
proof -
  have "case priority_request_governor (\<lambda>_. None) example_governor ''history'' 10 0 of Inl _ \<Rightarrow> False
    | Inr pg \<Rightarrow> (case acquire_priority (\<lambda>_. None) pg [] ''refunds'' 0 0 0 of Inl _ \<Rightarrow> False | Inr _ \<Rightarrow> True)" by code_simp
  then obtain pg wait pg' rows' where p: "priority_request_governor (\<lambda>_. None) example_governor ''history'' 10 0 = Inr pg"
    "acquire_priority (\<lambda>_. None) pg [] ''refunds'' 0 0 0 = Inr (wait, pg', rows')" by (auto split: sum.splits)
  have k: "sanitize_endpoint (\<lambda>_. None) ''refunds'' = ''refunds''" "daily_limit (\<lambda>_. None) example_governor ''refunds'' = Some 90" by code_simp+
  from history_requests_leave_the_reserve [OF example_governor_production _ p(1) k p(2)] p show ?thesis by simp
qed

end
