(* ===== verification/RawClues.thy ===== *)
theory RawClues
  imports ClueModel
begin

text \<open>
  Raw clues as they come from the platform: reading fields of a payload
  (\<open>apps/worker/collectors/normalizers.py\<close>) and storing an observation of a clue
  (\<open>upsert_raw_clue\<close> of \<open>apps/worker/repositories.py\<close>), where an older observation must not replace a newer one.
  The record of the change that \<open>_capture_job_impact\<close> keeps for later jobs is not represented. \<open>dumps\<close> is \<open>json.dumps\<close>.
\<close>

section \<open>Fields of a payload\<close>

fun split_on :: "char \<Rightarrow> string \<Rightarrow> string \<Rightarrow> string list" where
  "split_on sep cur [] = [cur]"
| "split_on sep cur (c # cs) = (if c = sep then cur # split_on sep [] cs else split_on sep (cur @ [c]) cs)"

fun get_parts :: "pyval \<Rightarrow> string list \<Rightarrow> pyval" where
  "get_parts v [] = v"
| "get_parts v (p # ps) = (if is_dict v then get_parts (dget (the_dict v) p) ps else PNone)"

definition get_path :: "pydict \<Rightarrow> string \<Rightarrow> pyval" where
  "get_path d path = get_parts (PDict d) (split_on (CHR ''.'') [] path)"

fun first_value :: "pydict \<Rightarrow> string list \<Rightarrow> pyval" where
  "first_value d [] = PNone"
| "first_value d (p # ps) = (let v = get_path d p in if v \<noteq> PNone \<and> v \<noteq> PStr [] then v else first_value d ps)"

definition text_of :: "platform \<Rightarrow> pyval \<Rightarrow> string option" where
  "text_of P v =
     (if v = PNone \<or> v = PStr [] then None
      else let r = py_strip (py_str (py_repr P) v);
               r' = (if py_endswith r ''.0'' then take (length r - 2) r else r)
           in if r' = [] then None else Some r')"

text \<open>
  \<open>datetime.fromtimestamp(number, tz=utc)\<close>: microseconds, half to even, for the years 1 to 9999.
\<close>

fun from_timestamp :: "pynum \<Rightarrow> instant result" where
  "from_timestamp (Fin q) =
     (if \<bar>q\<bar> \<ge> 2 ^ 63 then Inl (OverflowErr ''timestamp out of range for platform time_t'')
      else let t = round_half_even (q * 1000000)
           in if t < - 62135596800000000 \<or> 253402300800000000 \<le> t then Inl (ValueError ''year is out of range'') else Inr t)"
| "from_timestamp (Inf neg) = Inl (OverflowErr ''cannot convert float infinity to integer'')"
| "from_timestamp NaN = Inl (ValueError ''cannot convert float NaN to integer'')"

fun seconds_of :: "pynum \<Rightarrow> pynum" where
  "seconds_of (Fin q) = Fin (if 10000000000 < q then q / 1000 else q)"
| "seconds_of x = x"

definition number_datetime :: "pyval \<Rightarrow> instant option result" where
  "number_datetime v =
     (if v \<in> {PInt 0, PBool False, PFloat (Fin 0)} then Inr None
      else bind_result (py_float v) (\<lambda>x. bind_result (from_timestamp (seconds_of x)) (\<lambda>t. Inr (Some t))))"

definition source_datetime :: "platform \<Rightarrow> pyval \<Rightarrow> instant option result" where
  "source_datetime P v =
     (case v of
        PNone \<Rightarrow> Inr None
      | PDec (Fin q) \<Rightarrow> if q = 0 then Inr None else Inr (iso_parse P (py_strip (py_str (py_repr P) v)))
      | PInt _ \<Rightarrow> number_datetime v
      | PBool _ \<Rightarrow> number_datetime v
      | PFloat _ \<Rightarrow> number_datetime v
      | _ \<Rightarrow>
          (let raw = py_strip (py_str (py_repr P) v)
           in if v = PStr [] \<or> v = PStr ''0'' then Inr None
              else if raw \<noteq> [] \<and> list_all is_digit raw
              then (case number_datetime (PInt (digits_val 0 raw)) of Inl (ValueError _) \<Rightarrow> Inr None | r \<Rightarrow> r)
              else Inr (iso_parse P raw)))"

definition data_of :: "pydict \<Rightarrow> pydict" where
  "data_of payload = (if is_dict (dget payload ''data'') then the_dict (dget payload ''data'') else payload)"

definition data_items :: "pydict \<Rightarrow> string list \<Rightarrow> pydict list" where
  "data_items payload keys =
     (case find (\<lambda>k. is_list (dget (data_of payload) k)) keys of
        None \<Rightarrow> []
      | Some k \<Rightarrow> map the_dict (filter is_dict (the_list (dget (data_of payload) k))))"

section \<open>Which observation is newer\<close>

definition same_observation :: "raw_douyin_clue \<Rightarrow> raw_douyin_clue \<Rightarrow> bool" where
  "same_observation row v =
     (if rc_source_observed_at row = None \<and> rc_source_observed_at v = None
      then truthy (rc_observation_key row) \<and> truthy (rc_observation_key v) \<and> rc_observation_key row = rc_observation_key v
      else rc_source_observed_at row = rc_source_observed_at v
        \<and> or_else (rc_observation_key row) [] = or_else (rc_observation_key v) [])"

definition legacy_observation_lower_bound :: "raw_douyin_clue \<Rightarrow> instant option" where
  "legacy_observation_lower_bound row =
     max_or_none (List.map_filter (\<lambda>t. t) [rc_updated_at row, rc_imported_at row, rc_modify_time row, rc_create_time_detail row])"

definition observation_is_newer :: "platform \<Rightarrow> (pyval \<Rightarrow> string) \<Rightarrow> raw_douyin_clue \<Rightarrow> raw_douyin_clue \<Rightarrow> bool" where
  "observation_is_newer P dumps row v =
     (let current_at = (case rc_source_observed_at row of Some t \<Rightarrow> Some t | None \<Rightarrow> legacy_observation_lower_bound row);
          current_key = rc_observation_key row; candidate_key = rc_observation_key v
      in case current_at of
           None \<Rightarrow> rc_source_observed_at v \<noteq> None
         | Some cur \<Rightarrow>
             (case rc_source_observed_at v of
                None \<Rightarrow> False
              | Some cand \<Rightarrow>
                  if cand < cur then False
                  else if cur < cand then True
                  else if py_startswith (or_else candidate_key []) ''source:''
                  then candidate_key = Some (''source:'' @ hex_digest P (dumps (py_or (rc_raw_payload row) (PDict [])))) \<and> current_key \<noteq> candidate_key
                  else case current_key of
                         None \<Rightarrow> candidate_key \<noteq> None
                       | Some k \<Rightarrow> (case candidate_key of None \<Rightarrow> False | Some c \<Rightarrow> k < c)))"

text \<open>\<open>_set_observed_values\<close>: a stale observation only leaves its trace in the audit columns.\<close>

definition set_observed_values :: "raw_douyin_clue \<Rightarrow> raw_douyin_clue \<Rightarrow> bool \<Rightarrow> raw_douyin_clue" where
  "set_observed_values row v apply_business =
     (if apply_business
      then v\<lparr>rc_clue_row_key := rc_clue_row_key row, rc_imported_at := rc_imported_at row, rc_payload_fingerprint := rc_payload_fingerprint row\<rparr>
      else row\<lparr>rc_source_run_id := rc_source_run_id v, rc_fetched_at := rc_fetched_at v, rc_source_window_start := rc_source_window_start v,
               rc_source_window_end := rc_source_window_end v, rc_updated_at := rc_updated_at v\<rparr>)"

definition normalize_clue_status :: "string option \<Rightarrow> string" where
  "normalize_clue_status v =
     (let n = map (\<lambda>c. if c = CHR ''-'' then CHR ''_'' else c) (py_lower (py_strip (or_else v [])))
      in if py_contains [CHR 0xE9, CHR 0x80, CHR 0x80, CHR 0xE6, CHR 0xAC, CHR 0xBE] n
           \<or> n \<in> {''refund'', ''refunded'', ''fully_refunded'', ''50''} then ''refunded''
         else if py_contains [CHR 0xE6, CHR 0xA0, CHR 0xB8, CHR 0xE9, CHR 0x94, CHR 0x80] n
           \<or> n \<in> {''verified'', ''verify'', ''success'', ''fulfilled'', ''used''} then ''verified''
         else if n \<in> {[CHR 0xE5, CHR 0xB1, CHR 0xA5, CHR 0xE7, CHR 0xBA, CHR 0xA6, CHR 0xE4, CHR 0xB8, CHR 0xAD],
             ''201'', ''active'', ''processing'', ''pending''} then ''active''
         else ''unknown'')"

text \<open>\<open>_canonical_values\<close> of a clue: what counts as a change of it.\<close>

definition canonical_values :: "platform \<Rightarrow> (pyval \<Rightarrow> string) \<Rightarrow> raw_douyin_clue \<Rightarrow> string option list \<times> instant option list \<times> string \<times> string" where
  "canonical_values P dumps row =
     ([Some (rc_clue_row_key row), rc_clue_id row, rc_product_id row, rc_product_name row, rc_order_id row, rc_follow_life_account_id row,
       rc_follow_life_account_name row, rc_follow_poi_id row, rc_intention_poi_id row, rc_auto_city_name row, rc_auto_province_name row],
      [rc_create_time_detail row, rc_modify_time row],
      hex_digest P (dumps (PDict [(''name'', of_text (rc_name row)), (''telephone'', of_text (rc_telephone row)),
        (''enc_telephone'', of_text (rc_enc_telephone row)), (''author_nickname'', of_text (rc_author_nickname row))])),
      normalize_clue_status (rc_order_status row))"

definition upsert_raw_clue :: "platform \<Rightarrow> (pyval \<Rightarrow> string) \<Rightarrow> db \<Rightarrow> raw_douyin_clue \<Rightarrow> string \<times> db" where
  "upsert_raw_clue P dumps s v =
     (case find_row rc_clue_row_key (rc_clue_row_key v) (t_raw_clues s) of
        None \<Rightarrow> (''inserted'', s\<lparr>t_raw_clues := add_row v (t_raw_clues s)\<rparr>)
      | Some row \<Rightarrow>
          (let newer = observation_is_newer P dumps row v;
               row' = set_observed_values row v newer;
               outcome = (if newer \<and> canonical_values P dumps row \<noteq> canonical_values P dumps row' then ''updated''
                          else if same_observation row v \<or> newer then ''unchanged'' else ''rejected'')
           in (outcome, s\<lparr>t_raw_clues := upd_row rc_clue_row_key row' (t_raw_clues s)\<rparr>)))"

section \<open>Late and repeated observations\<close>

definition get_raw_clue :: "db \<Rightarrow> string \<Rightarrow> raw_douyin_clue option" where
  "get_raw_clue s k = find_row rc_clue_row_key k (t_raw_clues s)"

text \<open>What an observation says about the clue, without the audit columns.\<close>

definition clue_facts :: "raw_douyin_clue \<Rightarrow> raw_douyin_clue" where
  "clue_facts v = v\<lparr>rc_source_run_id := None, rc_fetched_at := None, rc_source_window_start := None, rc_source_window_end := None,
     rc_updated_at := None, rc_imported_at := None, rc_payload_fingerprint := None\<rparr>"

text \<open>An observation that carries its source time and the key of its content.\<close>

definition versioned :: "raw_douyin_clue \<Rightarrow> bool" where
  "versioned v \<longleftrightarrow> rc_source_observed_at v \<noteq> None \<and> rc_observation_key v \<noteq> None \<and> \<not> py_startswith (the (rc_observation_key v)) ''source:''"

definition version_of :: "raw_douyin_clue \<Rightarrow> instant \<times> string" where
  "version_of v = (the (rc_source_observed_at v), the (rc_observation_key v))"

definition store_observations :: "platform \<Rightarrow> (pyval \<Rightarrow> string) \<Rightarrow> raw_douyin_clue list \<Rightarrow> db \<Rightarrow> db" where
  "store_observations P dumps vs s = fold (\<lambda>v s. snd (upsert_raw_clue P dumps s v)) vs s"

lemma newer_versioned:
  assumes "versioned row" and "versioned v"
  shows "observation_is_newer P dumps row v \<longleftrightarrow> version_of row < version_of v"
proof -
  obtain t k where row: "rc_source_observed_at row = Some t" "rc_observation_key row = Some k" using assms(1) by (auto simp: versioned_def)
  obtain t' k' where v: "rc_source_observed_at v = Some t'" "rc_observation_key v = Some k'" "\<not> py_startswith k' ''source:''"
    using assms(2) by (auto simp: versioned_def)
  have "or_else (Some k') [] = k'" by (simp add: or_else_def truthy_def)
  with row v show ?thesis by (auto simp: observation_is_newer_def version_of_def Let_def)
qed

lemma set_observed_facts:
  assumes "rc_clue_row_key v = rc_clue_row_key row"
  shows "clue_facts (set_observed_values row v newer) = (if newer then clue_facts v else clue_facts row)"
    and "versioned (set_observed_values row v newer) = (if newer then versioned v else versioned row)"
    and "version_of (set_observed_values row v newer) = (if newer then version_of v else version_of row)"
    and "rc_clue_row_key (set_observed_values row v newer) = rc_clue_row_key row"
  using assms by (simp_all add: set_observed_values_def clue_facts_def versioned_def version_of_def)

lemma upsert_get:
  "get_raw_clue (snd (upsert_raw_clue P dumps s v)) k =
     (if k \<noteq> rc_clue_row_key v then get_raw_clue s k
      else case get_raw_clue s k of None \<Rightarrow> Some v | Some row \<Rightarrow> Some (set_observed_values row v (observation_is_newer P dumps row v)))"
proof (cases "find_row rc_clue_row_key (rc_clue_row_key v) (t_raw_clues s)")
  case None
  then show ?thesis by (auto simp: upsert_raw_clue_def get_raw_clue_def find_row_add split: option.splits)
next
  case (Some row)
  then have "rc_clue_row_key row = rc_clue_row_key v" by (rule find_row_key)
  with Some show ?thesis by (auto simp: upsert_raw_clue_def get_raw_clue_def find_row_upd set_observed_facts(4) Let_def)
qed

text \<open>A stored clue is the newest of the observations of it.\<close>

definition newest_of :: "raw_douyin_clue list \<Rightarrow> raw_douyin_clue \<Rightarrow> bool" where
  "newest_of vs row \<longleftrightarrow> versioned row \<and> (\<exists>v \<in> set vs. clue_facts v = clue_facts row \<and> version_of v = version_of row)
     \<and> (\<forall>v \<in> set vs. version_of v \<le> version_of row)"

lemma newest_step:
  assumes "newest_of seen row" and "versioned v" and "rc_clue_row_key v = rc_clue_row_key row"
  shows "newest_of (seen @ [v]) (set_observed_values row v (version_of row < version_of v))"
proof (cases "version_of row < version_of v")
  case True
  have "version_of x \<le> version_of v" if "x \<in> set seen" for x
    using assms(1) that True unfolding newest_of_def by (meson less_imp_le order_trans)
  with assms(2) True show ?thesis by (simp add: newest_of_def set_observed_facts [OF assms(3)])
next
  case False
  then have "version_of v \<le> version_of row" by (simp add: not_less)
  with assms(1) False show ?thesis by (auto simp: newest_of_def set_observed_facts [OF assms(3)])
qed

lemma store_newest:
  assumes "\<forall>v \<in> set vs. versioned v"
    and "case get_raw_clue s k of None \<Rightarrow> seen = [] | Some row \<Rightarrow> newest_of seen row"
  shows "case get_raw_clue (store_observations P dumps vs s) k of
      None \<Rightarrow> seen @ filter (\<lambda>v. rc_clue_row_key v = k) vs = []
    | Some row \<Rightarrow> newest_of (seen @ filter (\<lambda>v. rc_clue_row_key v = k) vs) row"
  using assms
proof (induction vs arbitrary: s seen)
  case Nil
  then show ?case by (simp add: store_observations_def split: option.splits)
next
  case (Cons v vs)
  let ?s1 = "snd (upsert_raw_clue P dumps s v)" and ?seen1 = "seen @ filter (\<lambda>v. rc_clue_row_key v = k) [v]"
  have "case get_raw_clue ?s1 k of None \<Rightarrow> ?seen1 = [] | Some row \<Rightarrow> newest_of ?seen1 row"
  proof (cases "rc_clue_row_key v = k")
    case False
    then have "get_raw_clue ?s1 k = get_raw_clue s k" "?seen1 = seen" by (simp_all add: upsert_get)
    with Cons.prems(2) show ?thesis by (simp only:)
  next
    case True
    show ?thesis
    proof (cases "get_raw_clue s k")
      case None
      with Cons.prems(2) have "seen = []" by simp
      with None True Cons.prems(1) show ?thesis by (simp add: upsert_get newest_of_def)
    next
      case (Some row)
      have row: "newest_of seen row" "versioned row" "versioned v"
        using Cons.prems Some by (simp_all add: newest_of_def)
      have key: "rc_clue_row_key v = rc_clue_row_key row" 
        using find_row_key [OF Some [unfolded get_raw_clue_def]] True by simp
      have "get_raw_clue ?s1 k = Some (set_observed_values row v (version_of row < version_of v))"
        using Some True newer_versioned [OF row(2,3)] by (simp add: upsert_get)
      with newest_step [OF row(1,3) key] True show ?thesis by simp
    qed
  qed
  then have "case get_raw_clue (store_observations P dumps vs ?s1) k of
      None \<Rightarrow> ?seen1 @ filter (\<lambda>v. rc_clue_row_key v = k) vs = []
    | Some row \<Rightarrow> newest_of (?seen1 @ filter (\<lambda>v. rc_clue_row_key v = k) vs) row" using Cons.prems(1) by (intro Cons.IH) auto
  moreover have "?seen1 @ filter (\<lambda>v. rc_clue_row_key v = k) vs = seen @ filter (\<lambda>v. rc_clue_row_key v = k) (v # vs)" by simp
  moreover have "store_observations P dumps (v # vs) s = store_observations P dumps vs ?s1" by (simp add: store_observations_def)
  ultimately show ?case by (simp only:)
qed

lemma newest_unique:
  assumes "newest_of vs row" and "newest_of vs row'" and "\<forall>v \<in> set vs. \<forall>w \<in> set vs. version_of v = version_of w \<longrightarrow> clue_facts v = clue_facts w"
  shows "clue_facts row = clue_facts row'"
proof -
  from assms(1,2) obtain v w where vw: "v \<in> set vs" "w \<in> set vs" "clue_facts v = clue_facts row" "clue_facts w = clue_facts row'"
    "version_of v = version_of row" "version_of w = version_of row'" by (auto simp: newest_of_def)
  have "\<forall>x \<in> set vs. version_of x \<le> version_of row" "\<forall>x \<in> set vs. version_of x \<le> version_of row'"
    using assms(1,2) unfolding newest_of_def by blast+
  with vw have "version_of v \<le> version_of w" "version_of w \<le> version_of v" by metis+
  then have "version_of v = version_of w" by (rule order_antisym)
  with assms(3) vw have "clue_facts v = clue_facts w" by blast
  with vw show ?thesis by simp
qed

section \<open>An example\<close>

definition example_observation :: "instant \<Rightarrow> string \<Rightarrow> string \<Rightarrow> raw_douyin_clue" where
  "example_observation t key name =
     \<lparr>rc_clue_row_key = ''K1'', rc_clue_id = Some ''K1'', rc_source_window_start = Some 0, rc_source_window_end = Some 100, rc_fetched_at = Some 100,
      rc_create_time_detail = Some 5, rc_modify_time = Some t, rc_name = Some name, rc_telephone = None, rc_enc_telephone = None,
      rc_product_id = None, rc_product_name = None, rc_order_id = None, rc_order_status = None, rc_follow_life_account_id = None,
      rc_follow_life_account_name = None, rc_follow_poi_id = None, rc_intention_poi_id = None, rc_auto_city_name = None,
      rc_auto_province_name = None, rc_author_nickname = None, rc_raw_payload = PDict [], rc_source_file = None, rc_source_run_id = None,
      rc_payload_fingerprint = None, rc_source_observed_at = Some t, rc_observation_key = Some key, rc_imported_at = Some 100,
      rc_updated_at = Some 100\<rparr>"

section \<open>Properties\<close>

text \<open>
  C36. Observations of clues converge. However a set of observations, each with its source time and the key of its content,
  is delivered, repeated or out of order, the same facts are stored about each clue: those of the observation that is
  newest by source time, and by content key among equal times.
\<close>

theorem clue_observations_converge:
  assumes "mset vs = mset ws" and "\<forall>v \<in> set vs. versioned v" and "get_raw_clue s k = None"
    and "\<forall>v \<in> set vs. \<forall>w \<in> set vs. rc_clue_row_key v = rc_clue_row_key w \<and> version_of v = version_of w \<longrightarrow> clue_facts v = clue_facts w"
  shows "map_option clue_facts (get_raw_clue (store_observations P dumps vs s) k)
       = map_option clue_facts (get_raw_clue (store_observations P dumps ws s) k)
     \<and> (\<forall>row. get_raw_clue (store_observations P dumps vs s) k = Some row \<longrightarrow> newest_of (filter (\<lambda>v. rc_clue_row_key v = k) vs) row)"
proof -
  let ?f = "filter (\<lambda>v. rc_clue_row_key v = k)"
  have set: "set ws = set vs" using assms(1) by (metis set_mset_mset)
  have vs: "case get_raw_clue (store_observations P dumps vs s) k of None \<Rightarrow> ?f vs = [] | Some row \<Rightarrow> newest_of (?f vs) row"
    using store_newest [OF assms(2), where s = s and k = k and seen = "[]" and P = P and dumps = dumps] assms(3)
    by (simp cong: option.case_cong)
  have ws: "case get_raw_clue (store_observations P dumps ws s) k of None \<Rightarrow> ?f ws = [] | Some row \<Rightarrow> newest_of (?f ws) row"
    using store_newest [where vs = ws and s = s and k = k and seen = "[]" and P = P and dumps = dumps] assms(2,3) set
    by (simp cong: option.case_cong)
  have eq: "newest_of (?f ws) = newest_of (?f vs)" "?f ws = [] \<longleftrightarrow> ?f vs = []"
    using set by (auto simp: newest_of_def fun_eq_iff filter_empty_conv)
  have coherent: "\<forall>v \<in> set (?f vs). \<forall>w \<in> set (?f vs). version_of v = version_of w \<longrightarrow> clue_facts v = clue_facts w" using assms(4) by simp
  have "map_option clue_facts (get_raw_clue (store_observations P dumps vs s) k)
      = map_option clue_facts (get_raw_clue (store_observations P dumps ws s) k)"
  proof (cases "get_raw_clue (store_observations P dumps vs s) k")
    case None
    with vs ws eq show ?thesis by (auto simp: newest_of_def split: option.splits)
  next
    case (Some row)
    with vs have row: "newest_of (?f vs) row" by simp
    then have "?f ws \<noteq> []" unfolding eq(2) newest_of_def by (metis empty_iff empty_set)
    with ws obtain row' where row': "get_raw_clue (store_observations P dumps ws s) k = Some row'" "newest_of (?f vs) row'"
      by (auto simp: eq(1) split: option.splits)
    with newest_unique [OF row row'(2) coherent] Some show ?thesis by simp
  qed
  with vs show ?thesis by (auto split: option.splits)
qed

theorem clue_observations_converge_witness:
  "let a = example_observation 10 ''k1'' ''Ann''; b = example_observation 20 ''k2'' ''Anna''
   in map_option rc_name (get_raw_clue (store_observations example_platform (\<lambda>_. []) [b, a] empty_db) ''K1'') = Some (Some ''Anna'')
    \<and> map_option clue_facts (get_raw_clue (store_observations example_platform (\<lambda>_. []) [a, b] empty_db) ''K1'')
    = map_option clue_facts (get_raw_clue (store_observations example_platform (\<lambda>_. []) [b, a] empty_db) ''K1'')"
proof -
  let ?a = "example_observation 10 ''k1'' ''Ann''" and ?b = "example_observation 20 ''k2'' ''Anna''"
  have "map_option rc_name (get_raw_clue (store_observations example_platform (\<lambda>_. []) [?b, ?a] empty_db) ''K1'') = Some (Some ''Anna'')"
    by code_simp
  moreover have "versioned ?a" "versioned ?b" "version_of ?a \<noteq> version_of ?b"
    by (simp_all add: versioned_def version_of_def example_observation_def py_startswith_def)
  ultimately show ?thesis
    using clue_observations_converge [of "[?a, ?b]" "[?b, ?a]" empty_db "''K1''" example_platform "\<lambda>_. []"]
    by (auto simp: Let_def get_raw_clue_def empty_db_def)
qed

end
