(* ===== verification/ClueCollection.thy ===== *)
theory ClueCollection
  imports RawClues
begin

text \<open>
  Collecting clues from the platform (\<open>apps/worker/collectors/clues.py\<close>): paging through a window of time,
  deciding whether the answer is complete, splitting a window whose answer is not, and storing
  the rows. The client of the platform is an argument: a function of the request and of a state of its own, which may raise.
\<close>

section \<open>Statistics\<close>

record phase_stats =
  ps_fetched :: int
  ps_upserted :: int
  ps_skipped :: int
  ps_failed :: int
  ps_inserted :: int
  ps_updated :: int
  ps_unchanged :: int
  ps_rejected :: int

definition new_stats :: phase_stats where
  "new_stats = \<lparr>ps_fetched = 0, ps_upserted = 0, ps_skipped = 0, ps_failed = 0, ps_inserted = 0, ps_updated = 0, ps_unchanged = 0, ps_rejected = 0\<rparr>"

definition record_upsert :: "string \<Rightarrow> phase_stats \<Rightarrow> phase_stats result" where
  "record_upsert outcome st =
     (if outcome = ''inserted'' then Inr (st\<lparr>ps_inserted := ps_inserted st + 1, ps_upserted := ps_upserted st + 1\<rparr>)
      else if outcome = ''updated'' then Inr (st\<lparr>ps_updated := ps_updated st + 1, ps_upserted := ps_upserted st + 1\<rparr>)
      else if outcome = ''unchanged'' then Inr (st\<lparr>ps_unchanged := ps_unchanged st + 1\<rparr>)
      else if outcome = ''rejected'' then Inr (st\<lparr>ps_rejected := ps_rejected st + 1\<rparr>)
      else Inl (ValueError (''unknown upsert outcome: '' @ outcome)))"

section \<open>What a collection works with\<close>

record 'w collector =
  co_platform :: platform
  co_dumps :: "pyval \<Rightarrow> string"
  co_compact_dumps :: "pyval \<Rightarrow> string"
  co_client :: "instant \<Rightarrow> instant \<Rightarrow> int \<Rightarrow> int \<Rightarrow> 'w \<Rightarrow> pydict result \<times> 'w"
  co_now :: "'w \<Rightarrow> instant"
  co_source_run_id :: string

definition page_item_limit :: int where
  "page_item_limit = 10000"

section \<open>Reading an answer\<close>

definition extract_clues :: "pydict \<Rightarrow> pydict list" where
  "extract_clues payload = data_items payload [''clue_data'', ''clues'', ''list'', ''records'']"

fun total_of :: "int result \<Rightarrow> int option result" where
  "total_of (Inr n) = Inr (Some n)"
| "total_of (Inl (TypeErr _)) = Inr None"
| "total_of (Inl (ValueError _)) = Inr None"
| "total_of (Inl e) = Inl e"

definition extract_total :: "pydict \<Rightarrow> int option result" where
  "extract_total payload =
     (let data = data_of payload; given = (\<lambda>v. v \<noteq> PNone \<and> v \<noteq> PStr []) in
      case find (\<lambda>k. given (dget data k)) [''total'', ''total_count'', ''count''] of
        Some k \<Rightarrow> total_of (py_int (dget data k))
      | None \<Rightarrow>
          (if is_dict (dget data ''page'') \<and> given (dget (the_dict (dget data ''page'')) ''total'')
           then total_of (py_int (dget (the_dict (dget data ''page'')) ''total'')) else Inr None))"

section \<open>One window\<close>

record fetch_progress =
  fp_rows :: "pydict list"
  fp_complete :: bool
  fp_source_total :: "int option"
  fp_inconsistent_total :: bool
  fp_page :: int
  fp_items :: int

text \<open>The loop over the pages; the flag tells that it returned early, at the cap of the platform.\<close>

fun fetch_pages ::
  "'w collector \<Rightarrow> instant \<Rightarrow> instant \<Rightarrow> int \<Rightarrow> int list \<Rightarrow> fetch_progress \<Rightarrow> 'w \<Rightarrow> (fetch_progress \<times> bool) result \<times> 'w" where
  "fetch_pages C start stop page_size [] fp w = (Inr (fp, False), w)"
| "fetch_pages C start stop page_size (page # pages) fp w =
     (case co_client C start stop page page_size w of
        (Inl e, w') \<Rightarrow> (Inl e, w')
      | (Inr payload, w') \<Rightarrow>
          (case extract_total payload of
             Inl e \<Rightarrow> (Inl e, w')
           | Inr t \<Rightarrow>
               (let items = extract_clues payload; n = int (length items);
                    source_total = (case fp_source_total fp of None \<Rightarrow> t | Some u \<Rightarrow> Some u);
                    moved = (case (fp_source_total fp, t) of (Some u, Some v) \<Rightarrow> u \<noteq> v | _ \<Rightarrow> False);
                    fp' = \<lparr>fp_rows = fp_rows fp @ items, fp_complete = fp_complete fp, fp_source_total = source_total,
                           fp_inconsistent_total = (fp_inconsistent_total fp \<or> moved), fp_page = page, fp_items = n\<rparr>
                in if (case t of None \<Rightarrow> False | Some v \<Rightarrow> page_item_limit \<le> v) then (Inr (fp', True), w')
                   else if n < page_size
                   then (Inr (fp'\<lparr>fp_complete := (case source_total of None \<Rightarrow> True
                           | Some u \<Rightarrow> u < page_item_limit \<and> u \<le> int (length (fp_rows fp')))\<rparr>, False), w')
                   else fetch_pages C start stop page_size pages fp' w')))"

definition proven_complete :: "int \<Rightarrow> int \<Rightarrow> fetch_progress \<Rightarrow> bool" where
  "proven_complete page_limit page_size fp =
     (let rows = int (length (fp_rows fp));
          c = (if page_limit \<le> fp_page fp \<and> page_size \<le> fp_items fp
               then (case fp_source_total fp of None \<Rightarrow> False | Some u \<Rightarrow> u < page_item_limit \<and> u \<le> rows) else fp_complete fp)
      in c \<and> (case fp_source_total fp of None \<Rightarrow> True | Some u \<Rightarrow> \<not> (page_item_limit \<le> u \<or> rows \<noteq> u \<or> fp_inconsistent_total fp))
           \<and> rows < page_item_limit)"

definition page_limit_for :: "int \<Rightarrow> int" where
  "page_limit_for page_size = max 1 ((page_item_limit + page_size - 1) div page_size)"

definition fetch_clue_window ::
  "'w collector \<Rightarrow> instant \<Rightarrow> instant \<Rightarrow> int \<Rightarrow> 'w \<Rightarrow> (pydict list \<times> bool) result \<times> 'w" where
  "fetch_clue_window C start stop page_size w =
     (case fetch_pages C start stop page_size [1..page_limit_for page_size]
             \<lparr>fp_rows = [], fp_complete = False, fp_source_total = None, fp_inconsistent_total = False, fp_page = 0, fp_items = 0\<rparr> w of
        (Inl e, w') \<Rightarrow> (Inl e, w')
      | (Inr (fp, capped), w') \<Rightarrow> (Inr (fp_rows fp, capped \<or> \<not> proven_complete (page_limit_for page_size) page_size fp), w'))"

section \<open>Storing the rows\<close>

definition clue_row_key :: "'w collector \<Rightarrow> pydict \<Rightarrow> string" where
  "clue_row_key C row =
     (case text_of (co_platform C) (first_value row [''clue_id'']) of
        Some k \<Rightarrow> k
      | None \<Rightarrow> ''raw-clue-'' @ take 24 (hex_digest (co_platform C) (co_dumps C (PDict row))))"

definition clue_values :: "'w collector \<Rightarrow> instant \<Rightarrow> instant \<Rightarrow> instant \<Rightarrow> pydict \<Rightarrow> raw_douyin_clue result" where
  "clue_values C start stop fetched_at row =
     (let P = co_platform C; field = (\<lambda>ks. text_of P (first_value row ks)) in
      bind_result (source_datetime P (first_value row [''create_time_detail'', ''create_time''])) (\<lambda>created.
      bind_result (source_datetime P (first_value row [''modify_time'', ''update_time'', ''updated_at''])) (\<lambda>modified.
        Inr \<lparr>rc_clue_row_key = clue_row_key C row, rc_clue_id = field [''clue_id''], rc_source_window_start = Some start,
             rc_source_window_end = Some stop, rc_fetched_at = Some fetched_at, rc_create_time_detail = created, rc_modify_time = modified,
             rc_name = field [''name'', ''user_name'', ''customer_name''],
             rc_telephone = field [''telephone'', ''tel_addr'', ''phone'', ''mobile'', ''phone_number'', ''customer_phone'', ''contact_phone''],
             rc_enc_telephone = field [''enc_telephone'', ''encrypted_telephone''], rc_product_id = field [''product_id'', ''sku_id''],
             rc_product_name = field [''product_name'', ''sku_name''], rc_order_id = field [''order_id''], rc_order_status = field [''order_status''],
             rc_follow_life_account_id = field [''follow_life_account_id''], rc_follow_life_account_name = field [''follow_life_account_name''],
             rc_follow_poi_id = field [''follow_poi_id''], rc_intention_poi_id = field [''intention_poi_id''],
             rc_auto_city_name = field [''auto_city_name''], rc_auto_province_name = field [''auto_province_name''],
             rc_author_nickname = field [''author_nickname''], rc_raw_payload = PDict row, rc_source_file = None,
             rc_source_run_id = Some (co_source_run_id C), rc_payload_fingerprint = None,
             rc_source_observed_at = (case modified of None \<Rightarrow> created | Some t \<Rightarrow> Some t),
             rc_observation_key = Some (hex_digest P (co_compact_dumps C (PDict row))), rc_imported_at = Some fetched_at,
             rc_updated_at = Some fetched_at\<rparr>)))"

fun store_rows :: "'w collector \<Rightarrow> instant \<Rightarrow> instant \<Rightarrow> instant \<Rightarrow> pydict list \<Rightarrow> db \<times> phase_stats \<Rightarrow> (db \<times> phase_stats) result" where
  "store_rows C start stop fetched_at [] st = Inr st"
| "store_rows C start stop fetched_at (row # rows) (s, stats) =
     bind_result (clue_values C start stop fetched_at row) (\<lambda>v.
       let (outcome, s') = upsert_raw_clue (co_platform C) (co_compact_dumps C) s v
       in bind_result (record_upsert outcome (stats\<lparr>ps_fetched := ps_fetched stats + 1\<rparr>)) (\<lambda>stats'.
            store_rows C start stop fetched_at rows (s', stats')))"

section \<open>Splitting windows\<close>

definition duration_seconds :: "instant \<Rightarrow> instant \<Rightarrow> int" where
  "duration_seconds start stop = (if start \<le> stop then (stop - start) div 1000000 else - ((start - stop) div 1000000))"

definition split_clue_window :: "instant \<Rightarrow> instant \<Rightarrow> (instant \<times> instant \<times> instant \<times> instant) result" where
  "split_clue_window start stop =
     (let midpoint = start + duration_seconds start stop div 2 * 1000000
      in if midpoint \<le> start \<or> stop \<le> midpoint then Inl (ClueCollectionError ''cannot split incomplete clue window at integer-second boundary'')
         else Inr (start, midpoint, midpoint, stop))"

lemma duration_halves:
  assumes "1 < duration_seconds start stop"
  defines "m \<equiv> start + duration_seconds start stop div 2 * 1000000"
  shows "split_clue_window start stop = Inr (start, m, m, stop)"
    and "duration_seconds start m = duration_seconds start stop div 2"
    and "duration_seconds m stop = duration_seconds start stop - duration_seconds start stop div 2"
    and "start < m" and "m < stop"
proof -
  let ?d = "duration_seconds start stop"
  have d: "?d = (stop - start) div 1000000" and "start \<le> stop" using assms(1) by (auto simp: duration_seconds_def split: if_splits)
  have half: "1 \<le> ?d div 2" "?d div 2 < ?d" using assms(1) by auto
  show lower: "start < m" using half by (simp add: m_def)
  have "?d * 1000000 \<le> stop - start" by (simp add: d)
  with half show upper: "m < stop" by (simp add: m_def)
  show "split_clue_window start stop = Inr (start, m, m, stop)" using lower upper by (simp add: split_clue_window_def m_def Let_def)
  show "duration_seconds start m = ?d div 2" using lower by (simp add: duration_seconds_def m_def)
  have "stop - m = (stop - start) + (- (?d div 2)) * 1000000" by (simp add: m_def)
  then have "(stop - m) div 1000000 = ?d - ?d div 2" by (simp only: div_mult_self1 d)
  with upper show "duration_seconds m stop = ?d - ?d div 2" by (simp add: duration_seconds_def)
qed

text \<open>
  A window whose answer is not proven complete is halved until it is, down to one second. The counters and the rows of the
  session are dropped with an exception: the caller rolls its transaction back.
\<close>

function collect_clue_window ::
  "'w collector \<Rightarrow> int \<Rightarrow> instant \<Rightarrow> instant \<Rightarrow> db \<times> phase_stats \<Rightarrow> 'w \<Rightarrow> (db \<times> phase_stats) result \<times> 'w" where
  "collect_clue_window C page_size start stop st w =
     (case fetch_clue_window C start stop page_size w of
        (Inl e, w1) \<Rightarrow> (Inl e, w1)
      | (Inr (rows, incomplete), w1) \<Rightarrow>
          (if incomplete
           then if 1 < duration_seconds start stop
                then (case split_clue_window start stop of
                        Inl e \<Rightarrow> (Inl e, w1)
                      | Inr (left_start, left_stop, right_start, right_stop) \<Rightarrow>
                          (case collect_clue_window C page_size left_start left_stop st w1 of
                             (Inl e, w2) \<Rightarrow> (Inl e, w2)
                           | (Inr st', w2) \<Rightarrow> collect_clue_window C page_size right_start right_stop st' w2))
                else (Inl (ClueCollectionError ''incomplete clue window at minimum granularity of one second''), w1)
           else (store_rows C start stop (co_now C w1) rows st, w1)))"
  by pat_completeness auto

termination
proof (relation "measure (\<lambda>(C, page_size, start, stop, st, w). nat (duration_seconds start stop))", goal_cases)
  case 1
  show ?case by simp
next
  case (2 C page_size start stop st w p w1 q rows incomplete t left_start u left_stop right_start right_stop)
  then show ?case using duration_halves [of start stop] by (auto simp: Let_def)
next
  case (3 C page_size start stop st w p w1 q rows incomplete t left_start u left_stop v right_start right_stop)
  then show ?case using duration_halves [of start stop] by auto
qed

declare collect_clue_window.simps [simp del]

section \<open>A collection\<close>

text \<open>\<open>_split_window\<close> with the step of one day its caller gives.\<close>

function day_windows :: "instant \<Rightarrow> instant \<Rightarrow> (instant \<times> instant) list" where
  "day_windows start stop =
     (if start < stop then (start, min (start + days 1) stop) # day_windows (min (start + days 1) stop) stop else [])"
  by pat_completeness auto
termination
  by (relation "measure (\<lambda>(start, stop). nat (stop - start))") (auto simp: days_def min_def)

declare day_windows.simps [simp del]

fun collect_windows ::
  "'w collector \<Rightarrow> int \<Rightarrow> (instant \<times> instant) list \<Rightarrow> db \<times> phase_stats \<Rightarrow> 'w \<Rightarrow> (db \<times> phase_stats) result \<times> 'w" where
  "collect_windows C page_size [] st w = (Inr st, w)"
| "collect_windows C page_size ((start, stop) # windows) st w =
     (case collect_clue_window C page_size start stop st w of
        (Inl e, w') \<Rightarrow> (Inl e, w')
      | (Inr st', w') \<Rightarrow> collect_windows C page_size windows st' w')"

lemma collect_windows_two:
  "collect_windows C page_size [(a, b), (c, d)] st w =
     (case collect_clue_window C page_size a b st w of
        (Inl e, w') \<Rightarrow> (Inl e, w')
      | (Inr st', w') \<Rightarrow> collect_clue_window C page_size c d st' w')"
proof -
  have "collect_windows C page_size [(c, d)] st w = collect_clue_window C page_size c d st w" for st w
    by (simp split: prod.split sum.split)
  then show ?thesis by (simp only: collect_windows.simps(2) [where windows = "[(c, d)]"])
qed

definition max_page_size :: int where
  "max_page_size = 100"

definition safe_page_size :: "int \<Rightarrow> int" where
  "safe_page_size page_size = min (max (if page_size = 0 then max_page_size else page_size) 1) max_page_size"

definition collect_clues :: "'w collector \<Rightarrow> int \<Rightarrow> instant \<Rightarrow> instant \<Rightarrow> db \<Rightarrow> 'w \<Rightarrow> (db \<times> phase_stats) result \<times> 'w" where
  "collect_clues C page_size start stop s w = collect_windows C (safe_page_size page_size) (day_windows start stop) (s, new_stats) w"

section \<open>How many requests a collection makes\<close>

text \<open>A measure of the client's state that one request raises by at most one.\<close>

definition counts_requests :: "'w collector \<Rightarrow> ('w \<Rightarrow> nat) \<Rightarrow> bool" where
  "counts_requests C cnt \<longleftrightarrow> (\<forall>start stop page n w. cnt (snd (co_client C start stop page n w)) \<le> cnt w + 1)"

lemma fetch_pages_requests:
  assumes "counts_requests C cnt"
  shows "cnt (snd (fetch_pages C start stop page_size pages fp w)) \<le> cnt w + length pages"
proof (induction pages arbitrary: fp w)
  case Nil
  then show ?case by simp
next
  case (Cons page pages)
  obtain r w' where call: "co_client C start stop page page_size w = (r, w')" by (cases "co_client C start stop page page_size w")
  have step: "cnt w' \<le> cnt w + 1" using assms call unfolding counts_requests_def by (metis snd_conv)
  show ?case
  proof (cases r)
    case (Inl e)
    with call step show ?thesis by simp
  next
    case (Inr payload)
    have "cnt (snd (fetch_pages C start stop page_size pages fp' w')) \<le> cnt w + length (page # pages)" for fp'
      using Cons.IH [of fp' w'] step by simp
    with Inr call step show ?thesis by (cases "extract_total payload") (simp_all add: Let_def)
  qed
qed

lemma fetch_requests:
  assumes "counts_requests C cnt"
  shows "cnt (snd (fetch_clue_window C start stop page_size w)) \<le> cnt w + nat (page_limit_for page_size)"
proof -
  let ?fp = "\<lparr>fp_rows = [], fp_complete = False, fp_source_total = None, fp_inconsistent_total = False, fp_page = 0, fp_items = 0\<rparr>"
  have "cnt (snd (fetch_pages C start stop page_size [1..page_limit_for page_size] ?fp w)) \<le> cnt w + nat (page_limit_for page_size)"
    using fetch_pages_requests [OF assms, of start stop page_size "[1..page_limit_for page_size]" ?fp w] by simp
  then show ?thesis by (auto simp: fetch_clue_window_def split: prod.splits sum.splits)
qed

text \<open>The windows a window of so many seconds is split into, itself included.\<close>

definition window_count :: "int \<Rightarrow> nat" where
  "window_count d = nat (2 * max 1 d - 1)"

lemma window_count_halves: "1 < d \<Longrightarrow> 1 + window_count (d div 2) + window_count (d - d div 2) = window_count d"
  by (simp add: window_count_def max_def) linarith

lemma window_count_mono: "d \<le> e \<Longrightarrow> window_count d \<le> window_count e"
  by (simp add: window_count_def)

text \<open>A window is stored, refused, or collected as its two halves.\<close>

lemma collect_clue_window_cases:
  assumes "fetch_clue_window C start stop page_size w = (r, w1)"
  shows "collect_clue_window C page_size start stop st w =
    (case r of
       Inl e \<Rightarrow> (Inl e, w1)
     | Inr (rows, incomplete) \<Rightarrow>
         if \<not> incomplete then (store_rows C start stop (co_now C w1) rows st, w1)
         else if 1 < duration_seconds start stop
         then collect_windows C page_size [(start, start + duration_seconds start stop div 2 * 1000000),
                                      (start + duration_seconds start stop div 2 * 1000000, stop)] st w1
         else (Inl (ClueCollectionError ''incomplete clue window at minimum granularity of one second''), w1))"
  using assms duration_halves(1) [of start stop]
  by (subst collect_clue_window.simps) (auto split: sum.splits prod.splits)

lemma window_requests:
  assumes "counts_requests C cnt"
  shows "cnt (snd (collect_clue_window C page_size start stop st w))
    \<le> cnt w + nat (page_limit_for page_size) * window_count (duration_seconds start stop)"
proof (induction "nat (duration_seconds start stop)" arbitrary: start stop st w rule: less_induct)
  case less
  let ?d = "duration_seconds start stop" and ?n = "nat (page_limit_for page_size)"
  let ?m = "start + ?d div 2 * 1000000"
  obtain r w1 where fetch: "fetch_clue_window C start stop page_size w = (r, w1)" by (cases "fetch_clue_window C start stop page_size w")
  have once: "cnt w1 \<le> cnt w + ?n" using fetch_requests [OF assms, of start stop page_size w] fetch by simp
  have "1 \<le> window_count ?d" by (simp add: window_count_def)
  then have "?n \<le> ?n * window_count ?d" by simp
  with once have one: "cnt w1 \<le> cnt w + ?n * window_count ?d" by linarith
  have two: "cnt (snd (collect_windows C page_size [(start, ?m), (?m, stop)] st w1)) \<le> cnt w + ?n * window_count ?d" if split: "1 < ?d"
  proof -
    note halves = duration_halves [OF split]
    obtain r2 w2 where left: "collect_clue_window C page_size start ?m st w1 = (r2, w2)" by (cases "collect_clue_window C page_size start ?m st w1")
    have l: "cnt w2 \<le> cnt w1 + ?n * window_count (?d div 2)"
      using less [of start ?m st w1] split left by (simp add: halves)
    have r: "cnt (snd (collect_clue_window C page_size ?m stop st' w2)) \<le> cnt w2 + ?n * window_count (?d - ?d div 2)" for st'
      using less [of ?m stop st' w2] split by (simp add: halves)
    have "?n * window_count ?d = ?n + ?n * window_count (?d div 2) + ?n * window_count (?d - ?d div 2)"
      unfolding window_count_halves [OF split, symmetric] by (simp add: distrib_left)
    note sum = this
    have "cnt w2 \<le> cnt w + ?n * window_count ?d" using sum once l by linarith
    moreover have "cnt (snd (collect_clue_window C page_size ?m stop st' w2)) \<le> cnt w + ?n * window_count ?d" for st'
      using sum once l r [of st'] by linarith
    ultimately show ?thesis by (cases r2) (simp_all add: left collect_windows_two del: collect_windows.simps)
  qed
  show ?case
    unfolding collect_clue_window_cases [OF fetch] using one two by (auto split: sum.splits prod.splits)
qed

lemma day_windows_bound: "(a, b) \<in> set (day_windows start stop) \<Longrightarrow> start \<le> a \<and> a < b \<and> b \<le> stop \<and> b - a \<le> days 1"
proof (induction start stop rule: day_windows.induct)
  case (1 start stop)
  then show ?case by (subst (asm) (2) day_windows.simps) (auto simp: days_def min_def split: if_splits)
qed

text \<open>The days of a window, the last one possibly short.\<close>

definition day_count :: "instant \<Rightarrow> instant \<Rightarrow> nat" where
  "day_count start stop = nat ((stop - start + days 1 - 1) div days 1)"

lemma day_windows_count: "length (day_windows start stop) = day_count start stop"
proof (induction start stop rule: day_windows.induct)
  case (1 start stop)
  consider "stop \<le> start" | "start < stop" "stop \<le> start + days 1" | "start + days 1 < stop" by linarith
  then show ?case
  proof cases
    case 1
    then show ?thesis by (subst day_windows.simps) (simp add: day_count_def days_def)
  next
    case 2
    then show ?thesis by (subst day_windows.simps, subst day_windows.simps) (simp add: day_count_def days_def min_def)
  next
    case 3
    then have "stop - start + days 1 - 1 = (stop - (start + days 1) + days 1 - 1) + 1 * days 1" "days 1 \<noteq> 0" by (simp_all add: days_def)
    then have "(stop - start + days 1 - 1) div days 1 = (stop - (start + days 1) + days 1 - 1) div days 1 + 1" by (metis div_mult_self1 add.commute)
    moreover have "0 \<le> (stop - (start + days 1) + days 1 - 1) div days 1" using 3 by (simp add: days_def pos_imp_zdiv_nonneg_iff)
    moreover have "start < stop" "min (start + days 1) stop = start + days 1" using 3 by (simp_all add: days_def)
    ultimately show ?thesis using 1 by (subst day_windows.simps) (simp add: day_count_def)
  qed
qed

lemma collect_windows_requests:
  assumes "counts_requests C cnt" and "\<forall>(a, b) \<in> set windows. duration_seconds a b \<le> d"
  shows "cnt (snd (collect_windows C page_size windows st w)) \<le> cnt w + nat (page_limit_for page_size) * (window_count d * length windows)"
  using assms(2)
proof (induction windows arbitrary: st w)
  case Nil
  then show ?case by simp
next
  case (Cons ab windows)
  obtain a b r w' where ab: "ab = (a, b)" and call: "collect_clue_window C page_size a b st w = (r, w')"
    by (metis surj_pair)
  let ?n = "nat (page_limit_for page_size)"
  have "window_count (duration_seconds a b) \<le> window_count d" using Cons.prems ab by (intro window_count_mono) simp
  then have "?n * window_count (duration_seconds a b) \<le> ?n * window_count d" by simp
  moreover have "cnt w' \<le> cnt w + ?n * window_count (duration_seconds a b)" using window_requests [OF assms(1), of page_size a b st w] call by simp
  ultimately have w': "cnt w' \<le> cnt w + ?n * window_count d" by linarith
  have rest: "cnt (snd (collect_windows C page_size windows st' w')) \<le> cnt w' + ?n * (window_count d * length windows)" for st'
    using Cons.prems by (intro Cons.IH) simp
  have sum: "?n * (window_count d * length (ab # windows)) = ?n * window_count d + ?n * (window_count d * length windows)"
    by (simp add: algebra_simps)
  have "cnt (snd (collect_windows C page_size windows st' w')) \<le> cnt w + ?n * (window_count d * length (ab # windows))" for st'
    using rest [of st'] w' unfolding sum by linarith
  moreover have "cnt w' \<le> cnt w + ?n * (window_count d * length (ab # windows))" using w' unfolding sum by linarith
  ultimately show ?case unfolding ab by (cases r) (simp_all add: call)
qed

lemma day_duration: "(a, b) \<in> set (day_windows start stop) \<Longrightarrow> duration_seconds a b \<le> 86400"
  using day_windows_bound [of a b start stop] by (auto simp: duration_seconds_def days_def)

section \<open>What a collection stores\<close>

text \<open>A platform with a fixed stock of dated rows, which answers a request with a page of those in the window, and with their number or none.\<close>

definition rows_between :: "(instant \<times> pydict) list \<Rightarrow> instant \<Rightarrow> instant \<Rightarrow> pydict list" where
  "rows_between src start stop = map snd (filter (\<lambda>(t, row). start \<le> t \<and> t < stop) src)"

definition page_of :: "int \<Rightarrow> int \<Rightarrow> 'a list \<Rightarrow> 'a list" where
  "page_of page n xs = take (nat n) (drop (nat ((page - 1) * n)) xs)"

definition answers_page :: "(instant \<times> pydict) list \<Rightarrow> instant \<Rightarrow> instant \<Rightarrow> int \<Rightarrow> int \<Rightarrow> pydict result \<Rightarrow> bool" where
  "answers_page src start stop page n r =
     (case r of
        Inl _ \<Rightarrow> False
      | Inr payload \<Rightarrow> extract_clues payload = page_of page n (rows_between src start stop)
          \<and> extract_total payload \<in> {Inr None, Inr (Some (int (length (rows_between src start stop))))})"

definition serves :: "'w collector \<Rightarrow> (instant \<times> pydict) list \<Rightarrow> bool" where
  "serves C src \<longleftrightarrow> (\<forall>start stop page n w. answers_page src start stop page n (fst (co_client C start stop page n w)))"

definition readable_row :: "platform \<Rightarrow> pydict \<Rightarrow> bool" where
  "readable_row P row \<longleftrightarrow>
     succeeds (source_datetime P (first_value row [''create_time_detail'', ''create_time'']))
     \<and> succeeds (source_datetime P (first_value row [''modify_time'', ''update_time'', ''updated_at'']))"

text \<open>Every counted row has exactly one outcome.\<close>

definition balanced :: "phase_stats \<Rightarrow> bool" where
  "balanced st \<longleftrightarrow> ps_fetched st = ps_inserted st + ps_updated st + ps_unchanged st + ps_rejected st
     \<and> ps_upserted st = ps_inserted st + ps_updated st \<and> ps_skipped st = 0 \<and> ps_failed st = 0"

text \<open>From one state to another exactly these rows were read and stored.\<close>

definition stored :: "'w collector \<Rightarrow> pydict list \<Rightarrow> db \<times> phase_stats \<Rightarrow> db \<times> phase_stats \<Rightarrow> bool" where
  "stored C rows st st' \<longleftrightarrow>
     (\<forall>k. get_raw_clue (fst st') k \<noteq> None \<longleftrightarrow> get_raw_clue (fst st) k \<noteq> None \<or> k \<in> clue_row_key C ` set rows)
     \<and> ps_fetched (snd st') = ps_fetched (snd st) + int (length rows) \<and> (balanced (snd st) \<longrightarrow> balanced (snd st'))"

lemma stored_Nil: "stored C [] st st"
  by (simp add: stored_def)

lemma stored_append: "stored C xs st st1 \<Longrightarrow> stored C ys st1 st2 \<Longrightarrow> stored C (xs @ ys) st st2"
  by (auto simp: stored_def)

lemma stored_cong:
  assumes "mset xs = mset ys"
  shows "stored C xs st st' = stored C ys st st'"
proof -
  have "set xs = set ys" "length xs = length ys" using assms by (metis set_mset_mset, metis size_mset)
  then show ?thesis by (simp add: stored_def)
qed

lemma rows_between_split:
  assumes "start \<le> m" and "m \<le> stop"
  shows "mset (rows_between src start m @ rows_between src m stop) = mset (rows_between src start stop)"
  using assms by (induction src) (auto simp: rows_between_def)

lemma stored_split:
  assumes "start \<le> m" and "m \<le> stop" and "stored C (rows_between src start m) st st1" and "stored C (rows_between src m stop) st1 st2"
  shows "stored C (rows_between src start stop) st st2"
  by (rule iffD1 [OF stored_cong [OF rows_between_split [OF assms(1,2)]] stored_append [OF assms(3,4)]])

lemma record_upsert_outcome:
  "\<exists>st'. record_upsert (fst (upsert_raw_clue P dumps s v)) (st\<lparr>ps_fetched := ps_fetched st + 1\<rparr>) = Inr st'
     \<and> ps_fetched st' = ps_fetched st + 1 \<and> (balanced st \<longrightarrow> balanced st')"
  by (auto simp: upsert_raw_clue_def record_upsert_def balanced_def Let_def split: option.split)

lemma clue_values_readable:
  assumes "readable_row (co_platform C) row"
  obtains v where "clue_values C start stop t row = Inr v" and "rc_clue_row_key v = clue_row_key C row"
proof -
  from assms obtain c m where
    "source_datetime (co_platform C) (first_value row [''create_time_detail'', ''create_time'']) = Inr c"
    "source_datetime (co_platform C) (first_value row [''modify_time'', ''update_time'', ''updated_at'']) = Inr m"
    unfolding readable_row_def by (elim conjE succeedsE)
  then have "\<exists>v. clue_values C start stop t row = Inr v \<and> rc_clue_row_key v = clue_row_key C row"
    by (simp only: clue_values_def Let_def bind_result.simps Inr_inject simp_thms ex_simps) simp
  with that show ?thesis by blast
qed

lemma store_row_step:
  assumes "readable_row (co_platform C) row"
  shows "\<exists>st'. store_rows C start stop t (row # rows) st = store_rows C start stop t rows st' \<and> stored C [row] st st'"
proof -
  obtain s stats where st: "st = (s, stats)" by (cases st)
  obtain v where v: "clue_values C start stop t row = Inr v" "rc_clue_row_key v = clue_row_key C row" using clue_values_readable [OF assms] .
  obtain outcome s' where u: "upsert_raw_clue (co_platform C) (co_compact_dumps C) s v = (outcome, s')"
    by (cases "upsert_raw_clue (co_platform C) (co_compact_dumps C) s v")
  obtain stats' where rec: "record_upsert outcome (stats\<lparr>ps_fetched := ps_fetched stats + 1\<rparr>) = Inr stats'"
    "ps_fetched stats' = ps_fetched stats + 1" "balanced stats \<longrightarrow> balanced stats'"
    using record_upsert_outcome [of "co_platform C" "co_compact_dumps C" s v stats] u by auto
  have "get_raw_clue s' k \<noteq> None \<longleftrightarrow> get_raw_clue s k \<noteq> None \<or> k = clue_row_key C row" for k
    using upsert_get [of "co_platform C" "co_compact_dumps C" s v k] u v(2) by (auto split: option.splits)
  with rec have "stored C [row] st (s', stats')" by (auto simp: stored_def st)
  moreover have "store_rows C start stop t (row # rows) st = store_rows C start stop t rows (s', stats')"
    by (simp add: st v u rec(1))
  ultimately show ?thesis by blast
qed

lemma store_rows_stored:
  assumes "\<forall>row \<in> set rows. readable_row (co_platform C) row"
  shows "\<exists>st'. store_rows C start stop t rows st = Inr st' \<and> stored C rows st st'"
  using assms
proof (induction rows arbitrary: st)
  case Nil
  then show ?case by (simp add: stored_Nil)
next
  case (Cons row rows)
  obtain st1 where "store_rows C start stop t (row # rows) st = store_rows C start stop t rows st1" "stored C [row] st st1"
    using store_row_step Cons.prems by (metis list.set_intros(1))
  moreover obtain st2 where "store_rows C start stop t rows st1 = Inr st2" "stored C rows st1 st2"
    using Cons.IH [of st1] Cons.prems by (metis list.set_intros(2))
  ultimately show ?case using stored_append [of C "[row]" st st1 rows st2] by simp
qed

text \<open>The loop after some full pages of an answer.\<close>

definition paged :: "pydict list \<Rightarrow> int \<Rightarrow> int \<Rightarrow> fetch_progress \<Rightarrow> bool" where
  "paged R n p fp \<longleftrightarrow> 0 \<le> p \<and> p * n \<le> int (length R) \<and> fp_rows fp = take (nat (p * n)) R
     \<and> fp_source_total fp \<in> {None, Some (int (length R))} \<and> \<not> fp_inconsistent_total fp"

text \<open>The answer is recognised as complete exactly when the window has fewer rows than the cap.\<close>

definition fetch_settled :: "pydict list \<Rightarrow> int \<Rightarrow> int \<Rightarrow> fetch_progress \<times> bool \<Rightarrow> bool" where
  "fetch_settled R n L r \<longleftrightarrow>
     (if int (length R) < page_item_limit then \<not> snd r \<and> fp_rows (fst r) = R \<and> proven_complete L n (fst r)
      else snd r \<or> \<not> proven_complete L n (fst r))"

lemma take_page:
  assumes "0 \<le> p" and "1 \<le> n"
  shows "take (nat (p * n)) xs @ page_of (p + 1) n xs = take (nat ((p + 1) * n)) xs"
proof -
  have "nat ((p + 1) * n) = nat (p * n) + nat n" using assms by (simp add: distrib_right nat_add_distrib)
  then show ?thesis by (simp add: page_of_def take_add)
qed

lemma short_page:
  assumes "0 \<le> p" and "1 \<le> n" and "p * n \<le> int (length xs)"
  shows "int (length (page_of (p + 1) n xs)) < n \<longleftrightarrow> int (length xs) < (p + 1) * n"
proof -
  have "int (nat (p * n)) = p * n" using assms by simp
  then show ?thesis using assms by (simp add: page_of_def distrib_right min_def) linarith
qed

lemma fetch_pages_settled:
  fixes start stop :: instant
  assumes "serves C src" and "1 \<le> n" and "page_item_limit \<le> L * n"
  defines "R \<equiv> rows_between src start stop"
  shows "p \<le> L \<Longrightarrow> paged R n p fp \<Longrightarrow>
    \<exists>r w'. fetch_pages C start stop n [p + 1..L] fp w = (Inr r, w') \<and> fetch_settled R n L r"
proof (induction "nat (L - p)" arbitrary: p fp w)
  case 0
  then have "p = L" by simp
  with 0(3) have fp: "0 \<le> L" "L * n \<le> int (length R)" "fp_rows fp = take (nat (L * n)) R" by (simp_all add: paged_def)
  then have "nat (L * n) \<le> length R" by simp
  with fp have "int (length (fp_rows fp)) = L * n" using assms(2) by simp
  moreover have "page_item_limit \<le> int (length R)" using fp(2) assms(3) by linarith
  ultimately show ?case using \<open>p = L\<close> assms(3) by (simp add: fetch_settled_def proven_complete_def Let_def)
next
  case (Suc k)
  then have p: "p < L" "0 \<le> p" by (simp_all add: paged_def)
  obtain r0 w' where r0: "co_client C start stop (p + 1) n w = (r0, w')" by (cases "co_client C start stop (p + 1) n w")
  have "answers_page src start stop (p + 1) n r0" using assms(1) [unfolded serves_def, rule_format, of start stop "p + 1" n w] r0 by simp
  with r0 obtain payload where call: "co_client C start stop (p + 1) n w = (Inr payload, w')"
    and items: "extract_clues payload = page_of (p + 1) n R"
    and tot: "extract_total payload \<in> {Inr None, Inr (Some (int (length R)))}"
    unfolding answers_page_def R_def by (cases r0) simp_all
  then obtain t where t: "extract_total payload = Inr t" "t \<in> {None, Some (int (length R))}" by blast
  have rows: "fp_rows fp @ page_of (p + 1) n R = take (nat ((p + 1) * n)) R"
    using Suc.prems take_page [OF p(2) assms(2)] by (simp add: paged_def)
  let ?st = "case fp_source_total fp of None \<Rightarrow> t | Some u \<Rightarrow> Some u"
  have st: "?st \<in> {None, Some (int (length R))}" using t Suc.prems by (auto simp: paged_def)
  have moved: "\<not> (case (fp_source_total fp, t) of (Some u, Some v) \<Rightarrow> u \<noteq> v | _ \<Rightarrow> False)" 
    using t Suc.prems by (auto simp: paged_def split: option.splits)
  define fp1 where "fp1 = \<lparr>fp_rows = take (nat ((p + 1) * n)) R, fp_complete = fp_complete fp, fp_source_total = ?st,
    fp_inconsistent_total = False, fp_page = p + 1, fp_items = int (length (page_of (p + 1) n R))\<rparr>"
  have consistent: "\<not> fp_inconsistent_total fp" using Suc.prems by (simp add: paged_def)
  have short: "int (length (page_of (p + 1) n R)) < n \<longleftrightarrow> int (length R) < (p + 1) * n"
    using short_page [OF p(2) assms(2), of R] Suc.prems by (simp add: paged_def)
  have upto: "[p + 1..L] = (p + 1) # [p + 1 + 1..L]" using p by (simp add: upto_rec1)
  have unfold: "fetch_pages C start stop n [p + 1..L] fp w =
      (if (case t of None \<Rightarrow> False | Some v \<Rightarrow> page_item_limit \<le> v) then (Inr (fp1, True), w')
       else if int (length R) < (p + 1) * n
       then (Inr (fp1\<lparr>fp_complete := (case ?st of None \<Rightarrow> True
               | Some u \<Rightarrow> u < page_item_limit \<and> u \<le> int (length (fp_rows fp1)))\<rparr>, False), w')
       else fetch_pages C start stop n [p + 1 + 1..L] fp1 w')"
    using moved short consistent unfolding upto by (simp add: call t(1) items rows fp1_def Let_def cong: option.case_cong)
  consider (cap) "case t of None \<Rightarrow> False | Some v \<Rightarrow> page_item_limit \<le> v"
    | (last) "\<not> (case t of None \<Rightarrow> False | Some v \<Rightarrow> page_item_limit \<le> v)" "int (length R) < (p + 1) * n"
    | (full) "\<not> (case t of None \<Rightarrow> False | Some v \<Rightarrow> page_item_limit \<le> v)" "(p + 1) * n \<le> int (length R)" by linarith
  then show ?case
  proof cases
    case cap
    then have "page_item_limit \<le> int (length R)" using t by (auto split: option.splits)
    with cap unfold show ?thesis by (simp add: fetch_settled_def)
  next
    case last
    let ?fp = "fp1\<lparr>fp_complete := (case ?st of None \<Rightarrow> True | Some u \<Rightarrow> u < page_item_limit \<and> u \<le> int (length (fp_rows fp1)))\<rparr>"
    have all: "fp_rows fp1 = R" "fp_items fp1 < n"
      using last(2) short by (simp_all add: fp1_def)
    have "fetch_settled R n L (?fp, False)"
      using all st by (auto simp: fetch_settled_def proven_complete_def fp1_def Let_def)
    with last unfold show ?thesis by simp
  next
    case full
    have "paged R n (p + 1) fp1" using full(2) p st by (simp add: paged_def fp1_def)
    with full(1) Suc.hyps(1) [of "p + 1" fp1 w'] Suc.hyps(2) p unfold full(2) show ?thesis by simp
  qed
qed

lemma page_limit_reaches_cap:
  assumes "1 \<le> n"
  shows "page_item_limit \<le> page_limit_for n * n" and "1 \<le> page_limit_for n"
proof -
  have "(page_item_limit + n - 1) div n * n = page_item_limit + n - 1 - (page_item_limit + n - 1) mod n" by (simp add: minus_mod_eq_div_mult)
  moreover have "(page_item_limit + n - 1) mod n < n" using assms by simp
  ultimately have "page_item_limit \<le> (page_item_limit + n - 1) div n * n" by linarith
  also have "\<dots> \<le> page_limit_for n * n" using assms by (simp add: page_limit_for_def mult_right_mono)
  finally show "page_item_limit \<le> page_limit_for n * n" .
  show "1 \<le> page_limit_for n" by (simp add: page_limit_for_def)
qed

lemma fetch_window_settled:
  assumes "serves C src" and "1 \<le> n"
  shows "\<exists>rows incomplete w'. fetch_clue_window C start stop n w = (Inr (rows, incomplete), w')
    \<and> (if int (length (rows_between src start stop)) < page_item_limit then \<not> incomplete \<and> rows = rows_between src start stop else incomplete)"
proof -
  let ?fp = "\<lparr>fp_rows = [], fp_complete = False, fp_source_total = None, fp_inconsistent_total = False, fp_page = 0, fp_items = 0\<rparr>"
  have "paged (rows_between src start stop) n 0 ?fp" by (simp add: paged_def)
  then obtain r w' where r: "fetch_pages C start stop n [0 + 1..page_limit_for n] ?fp w = (Inr r, w')"
    "fetch_settled (rows_between src start stop) n (page_limit_for n) r"
    using fetch_pages_settled [OF assms page_limit_reaches_cap(1) [OF assms(2)], of 0 start stop ?fp w] page_limit_reaches_cap(2) [OF assms(2)]
    by auto
  then show ?thesis by (cases r) (auto simp: fetch_clue_window_def fetch_settled_def split: if_splits)
qed

text \<open>No window shorter than two seconds is saturated.\<close>

definition never_saturated :: "(instant \<times> pydict) list \<Rightarrow> bool" where
  "never_saturated src \<longleftrightarrow> (\<forall>t. int (length (rows_between src t (t + 2000000))) < page_item_limit)"

lemma rows_between_mono: "start' \<le> start \<Longrightarrow> stop \<le> stop' \<Longrightarrow> length (rows_between src start stop) \<le> length (rows_between src start' stop')"
  by (induction src) (auto simp: rows_between_def)

lemma short_window_complete:
  assumes "never_saturated src" and "\<not> 1 < duration_seconds start stop"
  shows "int (length (rows_between src start stop)) < page_item_limit"
proof -
  have "stop \<le> start + 2000000" using assms(2) by (auto simp: duration_seconds_def split: if_splits)
  then have "length (rows_between src start stop) \<le> length (rows_between src start (start + 2000000))" by (intro rows_between_mono) simp
  moreover have "int (length (rows_between src start (start + 2000000))) < page_item_limit" using assms(1) by (simp add: never_saturated_def)
  ultimately show ?thesis by linarith
qed

lemma window_collected:
  assumes "serves C src" and "1 \<le> n" and "never_saturated src" and "\<forall>(t, row) \<in> set src. readable_row (co_platform C) row"
  shows "\<exists>st' w'. collect_clue_window C n start stop st w = (Inr st', w') \<and> stored C (rows_between src start stop) st st'"
proof (induction "nat (duration_seconds start stop)" arbitrary: start stop st w rule: less_induct)
  case less
  let ?R = "rows_between src start stop"
  obtain rows incomplete w1 where fetch: "fetch_clue_window C start stop n w = (Inr (rows, incomplete), w1)"
    and settled: "if int (length ?R) < page_item_limit then \<not> incomplete \<and> rows = ?R else incomplete"
    using fetch_window_settled [OF assms(1,2)] by blast
  show ?case
  proof (cases "int (length ?R) < page_item_limit")
    case True
    have "\<forall>row \<in> set ?R. readable_row (co_platform C) row" using assms(4) by (auto simp: rows_between_def)
    from store_rows_stored [OF this] True settled show ?thesis by (simp add: collect_clue_window_cases [OF fetch])
  next
    case False
    then have d: "1 < duration_seconds start stop" using short_window_complete [OF assms(3)] by blast
    note halves = duration_halves [OF d]
    let ?m = "start + duration_seconds start stop div 2 * 1000000"
    have smaller: "nat (duration_seconds start ?m) < nat (duration_seconds start stop)"
      "nat (duration_seconds ?m stop) < nat (duration_seconds start stop)" using d by (simp_all add: halves)
    obtain st1 w2 where left: "collect_clue_window C n start ?m st w1 = (Inr st1, w2)" "stored C (rows_between src start ?m) st st1"
      using less [OF smaller(1)] by blast
    obtain st2 w3 where right: "collect_clue_window C n ?m stop st1 w2 = (Inr st2, w3)" "stored C (rows_between src ?m stop) st1 st2"
      using less [OF smaller(2)] by blast
    have "stored C ?R st st2" using stored_split [OF _ _ left(2) right(2)] halves(4,5) by linarith
    with False settled d left right show ?thesis
      by (simp add: collect_clue_window_cases [OF fetch] collect_windows_two del: collect_windows.simps)
  qed
qed

lemma windows_collected:
  assumes "serves C src" and "1 \<le> n" and "never_saturated src" and "\<forall>(t, row) \<in> set src. readable_row (co_platform C) row"
  shows "\<exists>st' w'. collect_windows C n (day_windows start stop) st w = (Inr st', w') \<and> stored C (rows_between src start stop) st st'"
proof (induction start stop arbitrary: st w rule: day_windows.induct)
  case (1 start stop)
  let ?m = "min (start + days 1) stop"
  show ?case
  proof (cases "start < stop")
    case False
    then have "rows_between src start stop = []" by (auto simp: rows_between_def filter_empty_conv)
    with False show ?thesis by (simp add: day_windows.simps [of start stop] stored_Nil)
  next
    case True
    then have m: "start \<le> ?m" "?m \<le> stop" by (simp_all add: days_def)
    obtain st1 w1 where day: "collect_clue_window C n start ?m st w = (Inr st1, w1)" "stored C (rows_between src start ?m) st st1"
      using window_collected [OF assms] by blast
    obtain st2 w2 where rest: "collect_windows C n (day_windows ?m stop) st1 w1 = (Inr st2, w2)" "stored C (rows_between src ?m stop) st1 st2"
      using 1 [OF True] by blast
    note stored_split [OF m day(2) rest(2)]
    with True day(1) rest(1) show ?thesis by (simp add: day_windows.simps [of start stop])
  qed
qed

section \<open>An example\<close>

text \<open>A platform with a stock of rows; its state counts the requests.\<close>

definition stock_client :: "(instant \<times> pydict) list \<Rightarrow> instant \<Rightarrow> instant \<Rightarrow> int \<Rightarrow> int \<Rightarrow> nat \<Rightarrow> pydict result \<times> nat" where
  "stock_client src start stop page n w =
     (Inr [(''data'', PDict [(''clue_data'', PList (map PDict (page_of page n (rows_between src start stop)))),
                            (''total'', PInt (int (length (rows_between src start stop))))])], w + 1)"

definition example_collector :: "(instant \<times> pydict) list \<Rightarrow> nat collector" where
  "example_collector src = \<lparr>co_platform = example_platform, co_dumps = (\<lambda>_. ''{}''), co_compact_dumps = (\<lambda>_. ''{}''),
     co_client = stock_client src, co_now = (\<lambda>w. 5000000), co_source_run_id = ''R1''\<rparr>"

definition example_stock :: "(instant \<times> pydict) list" where
  "example_stock = [(1000000, [(''clue_id'', PStr ''A''), (''create_time'', PFloat (Fin 1))]), (2000000, [(''clue_id'', PStr ''B'')]),
     (90000000000, [(''clue_id'', PStr ''C'')])]"

lemma stock_answer:
  "extract_clues [(''data'', PDict [(''clue_data'', PList (map PDict xs)), (''total'', PInt n)])] = xs"
  "extract_total [(''data'', PDict [(''clue_data'', PList (map PDict xs)), (''total'', PInt n)])] = Inr (Some n)"
proof -
  have "map the_dict (filter is_dict (map PDict xs)) = xs" by (induction xs) simp_all
  then show "extract_clues [(''data'', PDict [(''clue_data'', PList (map PDict xs)), (''total'', PInt n)])] = xs"
    by (simp add: extract_clues_def data_items_def data_of_def dget_def)
  show "extract_total [(''data'', PDict [(''clue_data'', PList (map PDict xs)), (''total'', PInt n)])] = Inr (Some n)"
    by (simp add: extract_total_def data_of_def dget_def Let_def)
qed

lemma stock_serves: "serves (example_collector src) src"
  by (simp add: serves_def answers_page_def example_collector_def stock_client_def stock_answer)

lemma stock_counts: "counts_requests (example_collector src) (\<lambda>w. w)"
  by (simp add: counts_requests_def example_collector_def stock_client_def)

section \<open>Properties\<close>

text \<open>
  C37. A collection always ends, whatever the platform answers: collecting a span of time makes, for each of its days, at most
  172799 times the pages of one window in requests, since a day's window is halved at most down to seconds.
\<close>

theorem collection_ends_within_request_budget:
  assumes "counts_requests C cnt"
  shows "cnt (snd (collect_clues C page_size start stop s w))
    \<le> cnt w + nat (page_limit_for (safe_page_size page_size)) * (172799 * day_count start stop)"
proof -
  have "window_count 86400 = 172799" by (simp add: window_count_def)
  moreover have "\<forall>(a, b) \<in> set (day_windows start stop). duration_seconds a b \<le> 86400" using day_duration by blast
  ultimately show ?thesis
    using collect_windows_requests [OF assms, of "day_windows start stop" 86400] unfolding collect_clues_def day_windows_count by metis
qed

theorem collection_ends_within_request_budget_witness:
  "snd (collect_clues (example_collector example_stock) 0 0 172800000000 empty_db 7) \<le> 7 + 100 * (172799 * 2)"
proof -
  have "nat (page_limit_for (safe_page_size 0)) = 100" "day_count 0 172800000000 = 2" by code_simp+
  with collection_ends_within_request_budget [OF stock_counts, of example_stock 0 0 172800000000 empty_db 7] show ?thesis by simp
qed

text \<open>
  C38. A collection is complete. Against a platform with a fixed stock of readable rows, fewer than the response cap in any two
  seconds, collecting a span of time succeeds, and afterwards exactly the clues of the rows of that span have been added to the
  stored ones, each row counted once and with one outcome; neither the cap nor the boundaries of pages, halves or days lose a row.
\<close>

theorem collection_stores_every_row:
  assumes "serves C src" and "never_saturated src" and "\<forall>(t, row) \<in> set src. readable_row (co_platform C) row"
  shows "\<exists>s' stats w'. collect_clues C page_size start stop s w = (Inr (s', stats), w')
    \<and> (\<forall>k. get_raw_clue s' k \<noteq> None \<longleftrightarrow> get_raw_clue s k \<noteq> None \<or> k \<in> clue_row_key C ` set (rows_between src start stop))
    \<and> ps_fetched stats = int (length (rows_between src start stop)) \<and> balanced stats"
proof -
  have "1 \<le> safe_page_size page_size" by (simp add: safe_page_size_def max_page_size_def)
  from windows_collected [OF assms(1) this assms(2,3)] obtain st' w'
    where "collect_windows C (safe_page_size page_size) (day_windows start stop) (s, new_stats) w = (Inr st', w')"
      and "stored C (rows_between src start stop) (s, new_stats) st'" by blast
  moreover have "balanced new_stats" "ps_fetched new_stats = 0" by (simp_all add: balanced_def new_stats_def)
  ultimately show ?thesis by (cases st') (simp add: collect_clues_def stored_def)
qed

theorem collection_stores_every_row_witness:
  "\<exists>s' stats w'. collect_clues (example_collector example_stock) 1 0 3000000 empty_db 0 = (Inr (s', stats), w')
    \<and> get_raw_clue s' ''A'' \<noteq> None \<and> get_raw_clue s' ''B'' \<noteq> None \<and> get_raw_clue s' ''C'' = None \<and> ps_fetched stats = 2"
proof -
  have "length (rows_between example_stock t u) \<le> 3" for t u
    using length_filter_le [of _ example_stock] by (simp add: rows_between_def example_stock_def)
  then have "int (length (rows_between example_stock t u)) < page_item_limit" for t u
    by (rule le_less_trans [OF of_nat_mono]) (simp add: page_item_limit_def)
  then have "never_saturated example_stock" by (simp add: never_saturated_def)
  moreover have "list_all (\<lambda>(t, row). readable_row (co_platform (example_collector example_stock)) row) example_stock" by code_simp
  then have "\<forall>(t, row) \<in> set example_stock. readable_row (co_platform (example_collector example_stock)) row" by (simp add: list_all_iff)
  ultimately obtain s' stats w' where got: "collect_clues (example_collector example_stock) 1 0 3000000 empty_db 0 = (Inr (s', stats), w')"
    "\<And>k. get_raw_clue s' k \<noteq> None \<longleftrightarrow> get_raw_clue empty_db k \<noteq> None
       \<or> k \<in> clue_row_key (example_collector example_stock) ` set (rows_between example_stock 0 3000000)"
    "ps_fetched stats = int (length (rows_between example_stock 0 3000000))"
    using collection_stores_every_row [OF stock_serves, of example_stock 1 0 3000000 empty_db 0] by blast
  have rows: "clue_row_key (example_collector example_stock) ` set (rows_between example_stock 0 3000000) = {''A'', ''B''}"
    "length (rows_between example_stock 0 3000000) = 2"
    by code_simp+
  have none: "get_raw_clue empty_db k = None" for k by (simp add: get_raw_clue_def empty_db_def)
  have "get_raw_clue s' ''A'' \<noteq> None" "get_raw_clue s' ''B'' \<noteq> None" "get_raw_clue s' ''C'' = None" "ps_fetched stats = 2"
    using got(2) [of "''A''"] got(2) [of "''B''"] got(2) [of "''C''"] got(3) unfolding rows none by simp_all
  with got(1) show ?thesis by blast
qed

end
