(* ===== verification/MaterializationQueue.thy ===== *)
theory MaterializationQueue
  imports ClueModel
begin

text \<open>
  The queue of clue materialization (\<open>apps/worker/repositories.py\<close>): captured impacts become work items, a cycle freezes
  how far it goes, batches of work items are leased to an attempt, renewed, completed or returned, and a cursor moves over what
  is complete; with the page checkpoints of \<open>_process_incremental_clue_work_item\<close> (\<open>apps/worker/clue_allocation.py\<close>). Each operation is one transaction.
  The ids that database sequences give are arguments, and so is the clock of the database.
\<close>

section \<open>State\<close>

record job_impact =
  ji_id :: int
  ji_impact_key :: string
  ji_entity_type :: string
  ji_entity_key :: string

record clue_materialization_work_item =
  wi_work_item_id :: int
  wi_scope :: string
  wi_impact_id :: int
  wi_entity_type :: string
  wi_entity_key :: string
  wi_state :: string
  wi_lease_owner :: "string option"
  wi_leased_at :: "instant option"
  wi_lease_expires_at :: "instant option"
  wi_raw_cursor :: "string option"
  wi_raw_page_complete :: bool
  wi_center_cursor :: "string option"
  wi_completed_at :: "instant option"
  wi_created_at :: instant

type_synonym work_item = clue_materialization_work_item

record job_impact_watermark =
  wm_scope :: string
  wm_cycle_id :: string
  wm_frozen_upper_bound_id :: int
  wm_last_work_item_id :: int

text \<open>The tables of the queue, with the attempts and when they finished.\<close>

record materialization =
  mq_impacts :: "job_impact list"
  mq_items :: "work_item list"
  mq_marks :: "job_impact_watermark list"
  mq_attempts :: "(string \<times> instant option) list"

section \<open>Capturing an impact\<close>

definition new_work_item :: "int \<Rightarrow> string \<Rightarrow> job_impact \<Rightarrow> instant \<Rightarrow> work_item" where
  "new_work_item i scope im now =
     \<lparr>wi_work_item_id = i, wi_scope = scope, wi_impact_id = ji_id im, wi_entity_type = ji_entity_type im, wi_entity_key = ji_entity_key im,
      wi_state = ''pending'', wi_lease_owner = None, wi_leased_at = None, wi_lease_expires_at = None, wi_raw_cursor = None,
      wi_raw_page_complete = False, wi_center_cursor = None, wi_completed_at = None, wi_created_at = now\<rparr>"

definition default_scope :: string where
  "default_scope = ''clue_materialization''"

text \<open>The end of \<open>_capture_job_impact\<close>: an impact with a known key is not captured again.\<close>

definition store_impact :: "job_impact \<Rightarrow> int \<Rightarrow> instant \<Rightarrow> materialization \<Rightarrow> materialization" where
  "store_impact im item_id now q =
     (if find_row ji_impact_key (ji_impact_key im) (mq_impacts q) \<noteq> None then q
      else q\<lparr>mq_impacts := add_row im (mq_impacts q), mq_items := add_row (new_work_item item_id default_scope im now) (mq_items q)\<rparr>)"

section \<open>A cycle\<close>

definition max_id :: "int list \<Rightarrow> int option" where
  "max_id ids = (if ids = [] then None else Some (fold max (tl ids) (hd ids)))"

definition in_cycle :: "job_impact_watermark \<Rightarrow> work_item \<Rightarrow> bool" where
  "in_cycle cp it \<longleftrightarrow> wi_scope it = wm_scope cp \<and> wi_impact_id it \<le> wm_frozen_upper_bound_id cp"

definition unfinished :: "job_impact_watermark \<Rightarrow> work_item \<Rightarrow> bool" where
  "unfinished cp it \<longleftrightarrow> in_cycle cp it \<and> wi_state it \<noteq> ''completed''"

fun number_items :: "int \<Rightarrow> string \<Rightarrow> instant \<Rightarrow> job_impact list \<Rightarrow> work_item list" where
  "number_items base scope now [] = []"
| "number_items base scope now (im # ims) = new_work_item (base + 1) scope im now # number_items (base + 1) scope now ims"

definition top_impact :: "materialization \<Rightarrow> int" where
  "top_impact q = (case max_id (map ji_id (mq_impacts q)) of None \<Rightarrow> 0 | Some i \<Rightarrow> i)"

definition fresh_mark :: "string \<Rightarrow> string \<Rightarrow> materialization \<Rightarrow> job_impact_watermark" where
  "fresh_mark scope cycle_id q =
     \<lparr>wm_scope = scope, wm_cycle_id = cycle_id, wm_frozen_upper_bound_id = top_impact q, wm_last_work_item_id = 0\<rparr>"

definition missing_impacts :: "string \<Rightarrow> materialization \<Rightarrow> job_impact list" where
  "missing_impacts scope q = filter (\<lambda>im. ji_id im \<le> top_impact q
     \<and> \<not> (\<exists>it \<in> set (mq_items q). wi_scope it = scope \<and> wi_impact_id it = ji_id im)) (mq_impacts q)"

definition begin_clue_materialization_cycle ::
  "string \<Rightarrow> string \<Rightarrow> int \<Rightarrow> instant \<Rightarrow> materialization \<Rightarrow> job_impact_watermark \<times> materialization" where
  "begin_clue_materialization_cycle scope cycle_id base now q =
     (let fresh = fresh_mark scope cycle_id q;
          restart = (\<lambda>marks. (fresh, q\<lparr>mq_marks := marks, mq_items := mq_items q @ number_items base scope now (missing_impacts scope q)\<rparr>))
      in case find_row wm_scope scope (mq_marks q) of
           None \<Rightarrow> restart (add_row fresh (mq_marks q))
         | Some cp \<Rightarrow> if \<exists>it \<in> set (mq_items q). unfinished cp it then (cp, q) else restart (upd_row wm_scope fresh (mq_marks q)))"

section \<open>Leases\<close>

definition require_materialization_lease_token :: "string \<Rightarrow> string result" where
  "require_materialization_lease_token v =
     (if py_strip v = [] then Inl (ValueError ''lease_token is required and must be non-empty'') else Inr (py_strip v))"

definition lease_expiry :: "instant \<Rightarrow> int \<Rightarrow> instant" where
  "lease_expiry now lease_seconds = now + lease_seconds * 1000000"

definition lease_expired :: "materialization \<Rightarrow> instant \<Rightarrow> work_item \<Rightarrow> bool" where
  "lease_expired q now it \<longleftrightarrow> wi_state it = ''processing'' \<and>
     ((case wi_lease_expires_at it of None \<Rightarrow> True | Some t \<Rightarrow> t \<le> now)
      \<or> (\<exists>a \<in> set (mq_attempts q). Some (fst a) = wi_lease_owner it \<and> snd a \<noteq> None))"

definition phase_ready :: "string \<Rightarrow> work_item \<Rightarrow> bool" where
  "phase_ready phase it \<longleftrightarrow> (if phase = ''raw'' then \<not> wi_raw_page_complete it else if phase = ''center'' then wi_raw_page_complete it else True)"

definition claimable :: "materialization \<Rightarrow> job_impact_watermark \<Rightarrow> string \<Rightarrow> instant \<Rightarrow> work_item \<Rightarrow> bool" where
  "claimable q cp phase now it \<longleftrightarrow> in_cycle cp it \<and> phase_ready phase it
     \<and> (wm_last_work_item_id cp < wi_work_item_id it \<and> wi_state it = ''pending'' \<or> lease_expired q now it)"

definition lease_item :: "string \<Rightarrow> instant \<Rightarrow> int \<Rightarrow> work_item \<Rightarrow> work_item" where
  "lease_item token leased lease_seconds it = it\<lparr>wi_state := ''processing'', wi_lease_owner := Some token, wi_leased_at := Some leased,
     wi_lease_expires_at := Some (lease_expiry leased (max 1 lease_seconds))\<rparr>"

definition claim_batch :: "materialization \<Rightarrow> job_impact_watermark \<Rightarrow> string \<Rightarrow> int \<Rightarrow> int list \<Rightarrow> instant \<Rightarrow> work_item list" where
  "claim_batch q cp phase limit locked now =
     take (nat (max 1 limit)) (sort_key wi_work_item_id
       (filter (\<lambda>it. claimable q cp phase now it \<and> wi_work_item_id it \<notin> set locked) (mq_items q)))"

text \<open>
  Claiming: rows that another transaction has locked are skipped; \<open>now\<close> is the clock of the query, \<open>leased\<close> that of the
  update.
\<close>

definition claim_clue_materialization_batch ::
  "string \<Rightarrow> int \<Rightarrow> string \<Rightarrow> int \<Rightarrow> string \<Rightarrow> int list \<Rightarrow> string \<Rightarrow> int \<Rightarrow> instant \<Rightarrow> instant \<Rightarrow> materialization
     \<Rightarrow> (work_item list \<times> materialization) result" where
  "claim_clue_materialization_batch scope limit lease_token lease_seconds phase locked cycle_id base now leased q =
     bind_result (require_materialization_lease_token lease_token) (\<lambda>token.
       if phase \<notin> {''all'', ''raw'', ''center''} then Inl (ValueError ''phase must be one of: all, raw, center'')
       else let (checkpoint, q1) = (case find_row wm_scope scope (mq_marks q) of
                  None \<Rightarrow> begin_clue_materialization_cycle scope cycle_id base now q | Some cp \<Rightarrow> (cp, q));
                batch = claim_batch q1 checkpoint phase limit locked now;
                ids = map wi_work_item_id batch
            in Inr (map (lease_item token leased lease_seconds) batch,
                    q1\<lparr>mq_items := update_where (\<lambda>it. wi_work_item_id it \<in> set ids) (lease_item token leased lease_seconds) (mq_items q1)\<rparr>))"

text \<open>The condition of the updates that a lease protects: the lease is the caller's, and it is live.\<close>

definition holds_lease :: "int list \<Rightarrow> string \<Rightarrow> instant \<Rightarrow> work_item \<Rightarrow> bool" where
  "holds_lease ids token now it \<longleftrightarrow> wi_work_item_id it \<in> set ids \<and> wi_state it = ''processing'' \<and> wi_lease_owner it = Some token
     \<and> (case wi_lease_expires_at it of None \<Rightarrow> False | Some t \<Rightarrow> now < t)"

definition advance_mark :: "work_item list \<Rightarrow> job_impact_watermark \<Rightarrow> job_impact_watermark" where
  "advance_mark items cp =
     (if wm_last_work_item_id cp < 0 then cp
      else let cycle = filter (in_cycle cp) items;
               ahead = filter (\<lambda>it. wm_last_work_item_id cp < wi_work_item_id it) cycle;
               ids_of = (\<lambda>P. map wi_work_item_id (filter P cycle))
           in case sort (map wi_work_item_id (filter (\<lambda>it. wi_state it \<noteq> ''completed'') ahead)) of
                [] \<Rightarrow> (case max_id (ids_of (\<lambda>it. wi_state it = ''completed'')) of
                         None \<Rightarrow> cp
                       | Some m \<Rightarrow> cp\<lparr>wm_last_work_item_id := max (wm_last_work_item_id cp) m\<rparr>)
              | next_unfinished # _ \<Rightarrow>
                  (case max_id (ids_of (\<lambda>it. wm_last_work_item_id cp < wi_work_item_id it \<and> wi_work_item_id it < next_unfinished
                                              \<and> wi_state it = ''completed'')) of
                     None \<Rightarrow> cp
                   | Some m \<Rightarrow> cp\<lparr>wm_last_work_item_id := m\<rparr>))"

definition advance_materialization_cursor :: "materialization \<Rightarrow> materialization" where
  "advance_materialization_cursor q = q\<lparr>mq_marks := map (advance_mark (mq_items q)) (mq_marks q)\<rparr>"

definition complete_item :: "instant \<Rightarrow> work_item \<Rightarrow> work_item" where
  "complete_item now it = it\<lparr>wi_state := ''completed'', wi_completed_at := Some now, wi_lease_owner := None, wi_leased_at := None,
     wi_lease_expires_at := None\<rparr>"

definition complete_clue_materialization_batch ::
  "int list \<Rightarrow> string \<Rightarrow> instant \<Rightarrow> materialization \<Rightarrow> (int \<times> materialization) result" where
  "complete_clue_materialization_batch ids lease_token now q =
     bind_result (require_materialization_lease_token lease_token) (\<lambda>token.
       if ids = [] then Inr (0, q)
       else Inr (count_where (holds_lease ids token now) (mq_items q),
                 advance_materialization_cursor (q\<lparr>mq_items := update_where (holds_lease ids token now) (complete_item now) (mq_items q)\<rparr>)))"

definition renew_clue_materialization_batch ::
  "int list \<Rightarrow> string \<Rightarrow> int \<Rightarrow> instant \<Rightarrow> materialization \<Rightarrow> (int \<times> materialization) result" where
  "renew_clue_materialization_batch ids lease_token lease_seconds now q =
     bind_result (require_materialization_lease_token lease_token) (\<lambda>token.
       if ids = [] then Inr (0, q)
       else Inr (count_where (holds_lease ids token now) (mq_items q),
                 q\<lparr>mq_items := update_where (holds_lease ids token now)
                     (\<lambda>it. it\<lparr>wi_leased_at := Some now, wi_lease_expires_at := Some (lease_expiry now (max 1 lease_seconds))\<rparr>) (mq_items q)\<rparr>))"

definition owned_item :: "int list \<Rightarrow> string \<Rightarrow> work_item \<Rightarrow> bool" where
  "owned_item ids token it \<longleftrightarrow> wi_work_item_id it \<in> set ids \<and> wi_state it = ''processing'' \<and> wi_lease_owner it = Some token"

definition retry_clue_materialization_batch :: "int list \<Rightarrow> string \<Rightarrow> materialization \<Rightarrow> (int \<times> materialization) result" where
  "retry_clue_materialization_batch ids lease_token q =
     bind_result (require_materialization_lease_token lease_token) (\<lambda>token.
       if ids = [] then Inr (0, q)
       else Inr (count_where (owned_item ids token) (mq_items q),
                 q\<lparr>mq_items := update_where (owned_item ids token)
                     (\<lambda>it. it\<lparr>wi_state := ''pending'', wi_leased_at := None, wi_lease_owner := None, wi_lease_expires_at := None\<rparr>) (mq_items q)\<rparr>))"

section \<open>The checkpoints of a page\<close>

text \<open>
  The transactions of \<open>_process_incremental_clue_work_item\<close>, without the projections they write: the item is still leased to
  the caller, a cursor moves, and the lease is renewed or the transaction is rolled back. The keys of a page are what its query
  found, \<open>fence\<close> is the answer of the execution fence.
\<close>

definition held_item :: "string \<Rightarrow> int \<Rightarrow> string \<Rightarrow> materialization \<Rightarrow> work_item result" where
  "held_item scope i token q =
     (case find_row wi_work_item_id i (mq_items q) of
        None \<Rightarrow> Inl (RuntimeErr ''clue materialization work item disappeared'')
      | Some it \<Rightarrow>
          if wi_scope it \<noteq> scope then Inl (RuntimeErr ''clue materialization work item disappeared'')
          else if wi_state it \<noteq> ''processing'' \<or> wi_lease_owner it \<noteq> Some token
          then Inl (RuntimeErr ''clue materialization work item lease lost'')
          else if find_row ji_id (wi_impact_id it) (mq_impacts q) = None
          then Inl (RuntimeErr ''clue materialization work item impact disappeared'') else Inr it)"

definition renew_page :: "work_item \<Rightarrow> string \<Rightarrow> int \<Rightarrow> bool \<Rightarrow> string \<Rightarrow> instant \<Rightarrow> materialization \<Rightarrow> materialization result" where
  "renew_page it token lease_seconds fence message now q =
     (if \<not> fence then Inl (RuntimeErr ''daily execution lease is no longer valid'')
      else bind_result (renew_clue_materialization_batch [wi_work_item_id it] token lease_seconds now
             (q\<lparr>mq_items := upd_row wi_work_item_id it (mq_items q)\<rparr>)) (\<lambda>(renewed, q').
             if renewed \<noteq> 1 then Inl (RuntimeErr message) else Inr q'))"

definition checkpoint_raw_page ::
  "string \<Rightarrow> int \<Rightarrow> string \<Rightarrow> int \<Rightarrow> int \<Rightarrow> string list \<Rightarrow> bool \<Rightarrow> instant \<Rightarrow> materialization \<Rightarrow> materialization result" where
  "checkpoint_raw_page scope i token lease_seconds raw_batch_size raw_page fence now q =
     bind_result (held_item scope i token q) (\<lambda>it.
       if raw_page = []
       then renew_page (it\<lparr>wi_raw_page_complete := True\<rparr>) token lease_seconds fence ''clue materialization raw completion lease expired'' now q
       else renew_page (it\<lparr>wi_raw_cursor := Some (last raw_page), wi_raw_page_complete := (int (length raw_page) < raw_batch_size)\<rparr>)
              token lease_seconds fence ''clue materialization page lease expired'' now q)"

definition pause_raw_item :: "string \<Rightarrow> int \<Rightarrow> string \<Rightarrow> materialization \<Rightarrow> materialization result" where
  "pause_raw_item scope i token q =
     bind_result (held_item scope i token q) (\<lambda>it.
     bind_result (retry_clue_materialization_batch [i] token q) (\<lambda>(paused, q').
       if paused \<noteq> 1 then Inl (RuntimeErr ''clue materialization raw-phase lease lost'') else Inr q'))"

definition checkpoint_center_page ::
  "string \<Rightarrow> int \<Rightarrow> string \<Rightarrow> int \<Rightarrow> string list \<Rightarrow> bool \<Rightarrow> instant \<Rightarrow> materialization \<Rightarrow> materialization result" where
  "checkpoint_center_page scope i token lease_seconds center_order_ids fence now q =
     bind_result (held_item scope i token q) (\<lambda>it.
       if center_order_ids \<noteq> []
       then renew_page (it\<lparr>wi_center_cursor := Some (last center_order_ids)\<rparr>) token lease_seconds fence ''clue materialization center lease expired'' now q
       else if \<not> fence then Inl (RuntimeErr ''daily execution lease is no longer valid'')
       else bind_result (complete_clue_materialization_batch [i] token now q) (\<lambda>(completed, q').
              if completed \<noteq> 1 then Inl (RuntimeErr ''clue materialization completion lost its lease'') else Inr q'))"

text \<open>A transaction on one item: which part runs depends on the progress of the item.\<close>

definition process_page ::
  "string \<Rightarrow> int \<Rightarrow> string \<Rightarrow> int \<Rightarrow> int \<Rightarrow> bool \<Rightarrow> string list \<Rightarrow> string list \<Rightarrow> bool \<Rightarrow> instant \<Rightarrow> materialization \<Rightarrow> materialization result" where
  "process_page scope i token lease_seconds raw_batch_size center_enabled raw_page center_order_ids fence now q =
     bind_result (held_item scope i token q) (\<lambda>it.
       if \<not> wi_raw_page_complete it then checkpoint_raw_page scope i token lease_seconds raw_batch_size raw_page fence now q
       else if center_enabled then checkpoint_center_page scope i token lease_seconds center_order_ids fence now q
       else pause_raw_item scope i token q)"

section \<open>Runs\<close>

datatype mq_op =
    Capture job_impact int
  | Begin string string int
  | Claim string int string int string "int list" string int
  | Complete "int list" string
  | Renew "int list" string int
  | Retry "int list" string
  | Page string int string int int bool "string list" "string list" bool
  | FinishAttempt string

text \<open>What an operation leaves: an exception leaves the tables as they were.\<close>

definition after :: "('a \<Rightarrow> materialization) \<Rightarrow> materialization \<Rightarrow> 'a result \<Rightarrow> materialization" where
  "after f q r = (case r of Inl e \<Rightarrow> q | Inr x \<Rightarrow> f x)"

fun apply_op :: "mq_op \<Rightarrow> instant \<Rightarrow> materialization \<Rightarrow> materialization" where
  "apply_op (Capture im i) now q = store_impact im i now q"
| "apply_op (Begin scope cycle base) now q = snd (begin_clue_materialization_cycle scope cycle base now q)"
| "apply_op (Claim scope limit token secs phase locked cycle base) now q =
     after snd q (claim_clue_materialization_batch scope limit token secs phase locked cycle base now now q)"
| "apply_op (Complete ids token) now q = after snd q (complete_clue_materialization_batch ids token now q)"
| "apply_op (Renew ids token secs) now q = after snd q (renew_clue_materialization_batch ids token secs now q)"
| "apply_op (Retry ids token) now q = after snd q (retry_clue_materialization_batch ids token q)"
| "apply_op (Page scope i token secs n enabled raw center fence) now q =
     after (\<lambda>x. x) q (process_page scope i token secs n enabled raw center fence now q)"
| "apply_op (FinishAttempt a) now q = q\<lparr>mq_attempts := (a, Some now) # mq_attempts q\<rparr>"

text \<open>Database sequences: a new row gets an id above those of the rows already there.\<close>

definition above_items :: "int \<Rightarrow> materialization \<Rightarrow> bool" where
  "above_items i q \<longleftrightarrow> 0 \<le> i \<and> (\<forall>it \<in> set (mq_items q). wi_work_item_id it \<le> i)"

fun in_sequence :: "mq_op \<Rightarrow> materialization \<Rightarrow> bool" where
  "in_sequence (Capture im i) q \<longleftrightarrow> 0 < ji_id im \<and> (\<forall>x \<in> set (mq_impacts q). ji_id x < ji_id im) \<and> above_items (i - 1) q"
| "in_sequence (Begin scope cycle base) q \<longleftrightarrow> above_items base q"
| "in_sequence (Claim scope limit token secs phase locked cycle base) q \<longleftrightarrow> above_items base q"
| "in_sequence _ q \<longleftrightarrow> True"

definition empty_queue :: materialization where
  "empty_queue = \<lparr>mq_impacts = [], mq_items = [], mq_marks = [], mq_attempts = []\<rparr>"

inductive mq_reachable :: "materialization \<Rightarrow> bool" where
  start: "mq_reachable empty_queue"
| step: "mq_reachable q \<Longrightarrow> in_sequence op q \<Longrightarrow> mq_reachable (apply_op op now q)"

section \<open>The invariant of the queue\<close>

definition item_key :: "work_item \<Rightarrow> string \<times> int" where
  "item_key it = (wi_scope it, wi_impact_id it)"

text \<open>What lies at or behind the cursor of a cycle is complete.\<close>

definition cursor_sound :: "work_item list \<Rightarrow> job_impact_watermark \<Rightarrow> bool" where
  "cursor_sound items cp \<longleftrightarrow> (\<forall>it \<in> set items. in_cycle cp it \<and> wi_work_item_id it \<le> wm_last_work_item_id cp \<longrightarrow> wi_state it = ''completed'')"

text \<open>Every impact a cycle covers has its work item.\<close>

definition cycle_covered :: "materialization \<Rightarrow> job_impact_watermark \<Rightarrow> bool" where
  "cycle_covered q cp \<longleftrightarrow> (\<forall>im \<in> set (mq_impacts q). ji_id im \<le> wm_frozen_upper_bound_id cp \<longrightarrow>
     (wm_scope cp, ji_id im) \<in> item_key ` set (mq_items q))"

definition known_states :: "string list" where
  "known_states = [''pending'', ''processing'', ''completed'']"

definition mq_inv :: "materialization \<Rightarrow> bool" where
  "mq_inv q \<longleftrightarrow> distinct (map ji_id (mq_impacts q)) \<and> distinct (map wi_work_item_id (mq_items q)) \<and> distinct (map item_key (mq_items q)) \<and> distinct (map wm_scope (mq_marks q))
     \<and> (\<forall>it \<in> set (mq_items q). 0 < wi_work_item_id it \<and> wi_impact_id it \<le> top_impact q \<and> wi_state it \<in> set known_states)
     \<and> (\<forall>cp \<in> set (mq_marks q). wm_frozen_upper_bound_id cp \<le> top_impact q \<and> cursor_sound (mq_items q) cp \<and> cycle_covered q cp)"

lemma max_id_Some: "max_id xs = Some m \<Longrightarrow> m \<in> set xs \<and> (\<forall>x \<in> set xs. x \<le> m)"
proof (cases xs)
  case (Cons a as)
  assume "max_id xs = Some m"
  then have "m = Max (set xs)" using Max.set_eq_fold [of a as] Cons by (simp add: max_id_def)
  then show ?thesis using Cons by (metis List.finite_set Max_ge Max_in list.distinct(1) set_empty)
qed (simp add: max_id_def)

lemma max_id_None: "max_id xs = None \<longleftrightarrow> xs = []"
  by (simp add: max_id_def)

lemma top_impact_bound: "im \<in> set (mq_impacts q) \<Longrightarrow> ji_id im \<le> top_impact q"
  by (auto simp: top_impact_def max_id_None dest: max_id_Some split: option.split)

lemma top_impact_below: "0 < i \<Longrightarrow> (\<forall>x \<in> set (mq_impacts q). ji_id x < i) \<Longrightarrow> top_impact q < i"
proof (cases "max_id (map ji_id (mq_impacts q))")
  case (Some m)
  assume "\<forall>x \<in> set (mq_impacts q). ji_id x < i"
  with max_id_Some [OF Some] Some show ?thesis by (auto simp: top_impact_def)
qed (simp add: top_impact_def)

text \<open>Every operation but capturing and opening a cycle only moves items along: a row keeps its identity, and completion is final.\<close>

definition moves_to :: "work_item \<Rightarrow> work_item \<Rightarrow> bool" where
  "moves_to a b \<longleftrightarrow> wi_work_item_id b = wi_work_item_id a \<and> item_key b = item_key a \<and> wi_state b \<in> set known_states
     \<and> (wi_state a = ''completed'' \<longrightarrow> wi_state b = ''completed'')"

lemma moves_map:
  assumes "\<And>a. a \<in> set items \<Longrightarrow> moves_to a (f a)"
  shows "list_all2 moves_to items (map f items)"
  using assms by (induction items) simp_all

lemma moves_keys:
  assumes "list_all2 moves_to items items'"
  shows "map wi_work_item_id items' = map wi_work_item_id items" and "map item_key items' = map item_key items"
  using assms by (induction rule: list_all2_induct) (simp_all add: moves_to_def)

lemma moves_from: "list_all2 moves_to items items' \<Longrightarrow> b \<in> set items' \<Longrightarrow> \<exists>a \<in> set items. moves_to a b"
  by (metis in_set_conv_nth list_all2_conv_all_nth)

lemma moves_inv:
  assumes "mq_inv q" and "list_all2 moves_to (mq_items q) items"
  shows "mq_inv (q\<lparr>mq_items := items\<rparr>)"
proof -
  let ?q = "q\<lparr>mq_items := items\<rparr>"
  have top: "top_impact ?q = top_impact q" by (simp add: top_impact_def)
  note keys = moves_keys [OF assms(2)]
  have "0 < wi_work_item_id b \<and> wi_impact_id b \<le> top_impact q \<and> wi_state b \<in> set known_states" if "b \<in> set items" for b
    using moves_from [OF assms(2) that] assms(1) by (auto simp: mq_inv_def moves_to_def item_key_def)
  moreover have "cursor_sound items cp" if "cursor_sound (mq_items q) cp" for cp
    unfolding cursor_sound_def
  proof (intro ballI impI)
    fix b assume "b \<in> set items" "in_cycle cp b \<and> wi_work_item_id b \<le> wm_last_work_item_id cp"
    with that moves_from [OF assms(2), of b] show "wi_state b = ''completed''"
      by (auto simp: cursor_sound_def moves_to_def in_cycle_def item_key_def)
  qed
  moreover have "cycle_covered ?q cp = cycle_covered q cp" for cp
    using keys(2) by (simp add: cycle_covered_def) (metis list.set_map)
  ultimately show ?thesis using assms(1) keys by (simp add: mq_inv_def top)
qed

lemma sort_head_le: "sort xs = n # rest \<Longrightarrow> x \<in> set xs \<Longrightarrow> n \<le> (x :: int)"
  by (metis set_sort sorted_sort sorted_simps(2) set_ConsD order_refl)

lemma advance_mark_keeps: "wm_scope (advance_mark items cp) = wm_scope cp" "wm_frozen_upper_bound_id (advance_mark items cp) = wm_frozen_upper_bound_id cp"
  by (simp_all add: advance_mark_def Let_def split: list.split option.split)

lemma in_cycle_advance: "in_cycle (advance_mark items cp) = in_cycle cp"
  by (simp add: in_cycle_def fun_eq_iff advance_mark_keeps)

lemma advance_mark_sound:
  assumes "cursor_sound items cp"
  shows "cursor_sound items (advance_mark items cp)"
proof -
  let ?last = "wm_last_work_item_id cp"
  let ?ahead = "\<lambda>it. it \<in> set items \<and> in_cycle cp it \<and> ?last < wi_work_item_id it \<and> wi_state it \<noteq> ''completed''"
  have "wi_state it = ''completed''"
    if it: "it \<in> set items" "in_cycle cp it" "wi_work_item_id it \<le> wm_last_work_item_id (advance_mark items cp)" for it
  proof (rule ccontr)
    assume unfin: "wi_state it \<noteq> ''completed''"
    then have beyond: "?last < wi_work_item_id it" using assms it by (force simp: cursor_sound_def)
    let ?ids = "map wi_work_item_id (filter (\<lambda>it. wi_state it \<noteq> ''completed'') (filter (\<lambda>it. ?last < wi_work_item_id it) (filter (in_cycle cp) items)))"
    have mem: "wi_work_item_id it \<in> set ?ids" using it unfin beyond by simp
    then obtain n rest where n: "sort ?ids = n # rest" by (metis list.exhaust set_sort empty_iff list.set(1))
    then have "n \<le> wi_work_item_id it" using mem by (rule sort_head_le)
    moreover have "wm_last_work_item_id (advance_mark items cp) < n"
    proof -
      have "n \<in> set ?ids" by (metis n set_sort list.set_intros(1))
      then have "?last < n" by auto
      then show ?thesis using n by (auto simp: advance_mark_def Let_def dest: max_id_Some split: option.split)
    qed
    ultimately show False using it(3) by simp
  qed
  then show ?thesis by (simp add: cursor_sound_def in_cycle_advance)
qed

lemma advance_inv:
  assumes "mq_inv q"
  shows "mq_inv (advance_materialization_cursor q)"
proof -
  have "wm_scope \<circ> advance_mark (mq_items q) = wm_scope" by (simp add: fun_eq_iff advance_mark_keeps)
  moreover have "top_impact (advance_materialization_cursor q) = top_impact q" by (simp add: advance_materialization_cursor_def top_impact_def)
  moreover have "cycle_covered (advance_materialization_cursor q) (advance_mark items cp) = cycle_covered q cp" for items cp
    by (simp add: cycle_covered_def advance_mark_keeps advance_materialization_cursor_def)
  ultimately show ?thesis
    using assms by (auto simp: mq_inv_def advance_materialization_cursor_def advance_mark_keeps advance_mark_sound)
qed

lemma claim_batch_mem: "it \<in> set (claim_batch q cp phase limit locked now) \<Longrightarrow> it \<in> set (mq_items q) \<and> claimable q cp phase now it"
  by (auto simp: claim_batch_def dest!: in_set_takeD)

lemma same_item:
  assumes "distinct (map wi_work_item_id items)" and "a \<in> set items" and "b \<in> set items" and "wi_work_item_id a = wi_work_item_id b"
  shows "a = b"
  using assms by (metis distinct_map inj_onD)

lemma moves_update:
  assumes "mq_inv q" and "\<And>a. a \<in> set (mq_items q) \<Longrightarrow> P a \<Longrightarrow> moves_to a (f a)"
  shows "mq_inv (q\<lparr>mq_items := update_where P f (mq_items q)\<rparr>)"
proof (rule moves_inv [OF assms(1)])
  have "moves_to a a" if "a \<in> set (mq_items q)" for a using assms(1) that by (simp add: moves_to_def mq_inv_def)
  with assms(2) show "list_all2 moves_to (mq_items q) (update_where P f (mq_items q))"
    unfolding update_where_def by (intro moves_map) simp
qed

lemma lease_inv:
  assumes "mq_inv q" and "\<forall>it \<in> set batch. it \<in> set (mq_items q) \<and> wi_state it \<noteq> ''completed''"
  shows "mq_inv (q\<lparr>mq_items := update_where (\<lambda>it. wi_work_item_id it \<in> set (map wi_work_item_id batch)) (lease_item token leased secs) (mq_items q)\<rparr>)"
proof (rule moves_update [OF assms(1)])
  fix a assume "a \<in> set (mq_items q)" "wi_work_item_id a \<in> set (map wi_work_item_id batch)"
  then obtain b where "b \<in> set batch" "wi_work_item_id a = wi_work_item_id b" by auto
  moreover have "distinct (map wi_work_item_id (mq_items q))" using assms(1) by (simp add: mq_inv_def)
  ultimately have "a = b" using same_item \<open>a \<in> set (mq_items q)\<close> assms(2) by blast
  with assms(2) \<open>b \<in> set batch\<close> show "moves_to a (lease_item token leased secs a)"
    by (simp add: moves_to_def lease_item_def item_key_def known_states_def)
qed

lemma number_items_mem:
  "it \<in> set (number_items base scope now ims) \<Longrightarrow>
     base < wi_work_item_id it \<and> wi_scope it = scope \<and> wi_state it = ''pending'' \<and> wi_impact_id it \<in> ji_id ` set ims"
proof (induction ims arbitrary: base)
  case (Cons im ims)
  show ?case using Cons.prems Cons.IH [of "base + 1"] by (auto simp: new_work_item_def)
qed simp

lemma number_items_ids: "distinct (map wi_work_item_id (number_items base scope now ims))"
proof (induction ims arbitrary: base)
  case (Cons im ims)
  then show ?case by (auto simp: new_work_item_def dest!: number_items_mem)
qed simp

lemma number_items_keys: "map item_key (number_items base scope now ims) = map (\<lambda>im. (scope, ji_id im)) ims"
  by (induction ims arbitrary: base) (simp_all add: item_key_def new_work_item_def)

text \<open>Opening a cycle: the new mark starts over, and every impact it covers gets its work item.\<close>

lemma restart_inv:
  assumes q: "mq_inv q" and base: "above_items base q"
    and marks: "set marks = insert (fresh_mark scope cycle q) {cp \<in> set (mq_marks q). wm_scope cp \<noteq> scope}" "distinct (map wm_scope marks)"
  shows "mq_inv (q\<lparr>mq_marks := marks, mq_items := mq_items q @ number_items base scope now (missing_impacts scope q)\<rparr>)" (is "mq_inv ?q")
proof -
  let ?missing = "missing_impacts scope q"
  let ?new = "number_items base scope now ?missing" and ?fresh = "fresh_mark scope cycle q"
  have top: "top_impact ?q = top_impact q" by (simp add: top_impact_def)
  have new: "base < wi_work_item_id it" "wi_scope it = scope" "wi_state it = ''pending''" "wi_impact_id it \<le> top_impact q"
    if "it \<in> set ?new" for it using number_items_mem [OF that] by (auto simp: missing_impacts_def)
  have "distinct (map wi_work_item_id (mq_items q @ ?new))"
    using q base number_items_ids [of base scope now ?missing] new(1) by (force simp: mq_inv_def above_items_def)
  moreover have "distinct (map item_key (mq_items q @ ?new))"
  proof -
    have "distinct (map ji_id ?missing)" using q by (simp add: missing_impacts_def mq_inv_def distinct_map_filter)
    then have "distinct (map (\<lambda>im. (scope, ji_id im)) ?missing)" by (auto simp: distinct_map inj_on_def)
    moreover have "set (map item_key (mq_items q)) \<inter> set (map (\<lambda>im. (scope, ji_id im)) ?missing) = {}"
      by (auto simp: missing_impacts_def item_key_def)
    ultimately show ?thesis using q unfolding map_append number_items_keys distinct_append by (simp add: mq_inv_def)
  qed
  moreover have "\<forall>it \<in> set (mq_items q @ ?new). 0 < wi_work_item_id it \<and> wi_impact_id it \<le> top_impact q \<and> wi_state it \<in> set known_states"
    using q base new by (force simp: mq_inv_def above_items_def known_states_def)
  moreover have "wm_frozen_upper_bound_id cp \<le> top_impact q \<and> cursor_sound (mq_items q @ ?new) cp \<and> cycle_covered ?q cp" if "cp \<in> set marks" for cp
  proof (cases "cp = ?fresh")
    case True
    have "cursor_sound (mq_items q @ ?new) ?fresh"
      using \<open>\<forall>it \<in> set (mq_items q @ ?new). 0 < wi_work_item_id it \<and> _\<close> by (force simp: cursor_sound_def fresh_mark_def)
    moreover have "(scope, ji_id im) \<in> item_key ` set (mq_items q @ ?new)" if im: "im \<in> set (mq_impacts q)" "ji_id im \<le> top_impact q" for im
    proof (cases "im \<in> set ?missing")
      case True
      then have "(scope, ji_id im) \<in> set (map item_key ?new)" unfolding number_items_keys by simp
      then show ?thesis by auto
    next
      case False
      with im show ?thesis by (force simp: missing_impacts_def item_key_def)
    qed
    then have "cycle_covered ?q ?fresh" by (simp add: cycle_covered_def fresh_mark_def)
    ultimately show ?thesis using True by (simp add: fresh_mark_def)
  next
    case False
    then have old: "cp \<in> set (mq_marks q)" "wm_scope cp \<noteq> scope" using that marks by auto
    then have "cursor_sound (mq_items q @ ?new) cp" using q new(2) by (auto simp: mq_inv_def cursor_sound_def in_cycle_def)
    moreover have "cycle_covered ?q cp" using q old(1) by (simp add: mq_inv_def cycle_covered_def image_Un)
    ultimately show ?thesis using q old(1) by (simp add: mq_inv_def)
  qed
  ultimately show ?thesis using q marks(2) by (simp add: mq_inv_def top)
qed

lemma begin_inv:
  assumes "mq_inv q" and "above_items base q"
  shows "mq_inv (snd (begin_clue_materialization_cycle scope cycle base now q))"
proof (cases "find_row wm_scope scope (mq_marks q)")
  case None
  have "set (add_row (fresh_mark scope cycle q) (mq_marks q)) = insert (fresh_mark scope cycle q) {cp \<in> set (mq_marks q). wm_scope cp \<noteq> scope}"
    using None by (auto simp: find_row_None)
  moreover have "distinct (map wm_scope (add_row (fresh_mark scope cycle q) (mq_marks q)))"
    using assms(1) None by (auto simp: mq_inv_def find_row_None fresh_mark_def)
  ultimately show ?thesis
    using None restart_inv [OF assms] by (simp add: begin_clue_materialization_cycle_def Let_def)
next
  case (Some cp)
  have "set (upd_row wm_scope (fresh_mark scope cycle q) (mq_marks q)) = insert (fresh_mark scope cycle q) {cp \<in> set (mq_marks q). wm_scope cp \<noteq> scope}"
    using find_row_Some [OF Some] by (auto simp: in_upd_row fresh_mark_def)
  moreover have "distinct (map wm_scope (upd_row wm_scope (fresh_mark scope cycle q) (mq_marks q)))" 
    using assms(1) by (simp add: mq_inv_def)
  ultimately show ?thesis
    using Some assms(1) restart_inv [OF assms] by (simp add: begin_clue_materialization_cycle_def Let_def)
qed

lemma begin_mark:
  assumes "begin_clue_materialization_cycle scope cycle base now q = (cp, q')"
  shows "find_row wm_scope scope (mq_marks q') = Some cp"
proof (cases "find_row wm_scope scope (mq_marks q)")
  case None
  with assms show ?thesis by (auto simp: begin_clue_materialization_cycle_def Let_def find_row_add fresh_mark_def)
next
  case (Some old)
  with assms show ?thesis by (auto simp: begin_clue_materialization_cycle_def Let_def find_row_upd fresh_mark_def split: if_splits)
qed

lemma capture_inv:
  assumes "mq_inv q" and "in_sequence (Capture im i) q"
  shows "mq_inv (store_impact im i now q)"
proof (cases "find_row ji_impact_key (ji_impact_key im) (mq_impacts q)")
  case None
  let ?q = "store_impact im i now q"
  from None have q': "?q = q\<lparr>mq_impacts := mq_impacts q @ [im], mq_items := mq_items q @ [new_work_item i default_scope im now]\<rparr>"
    by (simp add: store_impact_def add_row_def)
  have above: "top_impact q < ji_id im" using assms(2) top_impact_below by simp
  have top: "top_impact ?q = ji_id im"
  proof -
    have "ji_id im \<le> top_impact ?q" by (rule top_impact_bound) (simp add: q')
    moreover have "top_impact ?q < ji_id im + 1" using assms(2) by (intro top_impact_below) (auto simp: q')
    ultimately show ?thesis by simp
  qed
  have "cursor_sound (mq_items ?q) cp \<and> cycle_covered ?q cp" if "cp \<in> set (mq_marks q)" for cp
    using assms(1) that above by (force simp: mq_inv_def q' cursor_sound_def cycle_covered_def in_cycle_def new_work_item_def)
  moreover have "wm_frozen_upper_bound_id cp \<le> ji_id im" if "cp \<in> set (mq_marks q)" for cp
    using assms(1) that above by (force simp: mq_inv_def)
  moreover have "distinct (map wi_work_item_id (mq_items ?q))" "distinct (map item_key (mq_items ?q))"
    using assms above by (force simp: mq_inv_def q' new_work_item_def above_items_def item_key_def)+
  moreover have "\<forall>it \<in> set (mq_items ?q). 0 < wi_work_item_id it \<and> wi_impact_id it \<le> ji_id im \<and> wi_state it \<in> set known_states"
    using assms above by (force simp: mq_inv_def q' new_work_item_def above_items_def known_states_def)
  moreover have "distinct (map ji_id (mq_impacts ?q))" using assms by (auto simp: mq_inv_def q')
  ultimately show ?thesis using assms(1) by (simp add: mq_inv_def top) (simp add: q')
qed (use assms in \<open>simp add: store_impact_def\<close>)

lemma claimable_open: "claimable q cp phase now it \<Longrightarrow> wi_state it \<noteq> ''completed''"
  by (auto simp: claimable_def lease_expired_def)

lemma claim_inv:
  assumes "mq_inv q" and "above_items base q"
    and "claim_clue_materialization_batch scope limit lease_token secs phase locked cycle base now leased q = Inr (batch, q')"
  shows "mq_inv q'"
proof -
  define cpq where "cpq = (case find_row wm_scope scope (mq_marks q) of
    None \<Rightarrow> begin_clue_materialization_cycle scope cycle base now q | Some cp \<Rightarrow> (cp, q))"
  obtain cp q1 where cpq1: "cpq = (cp, q1)" by (cases cpq)
  have q1: "mq_inv q1"
    using begin_inv [OF assms(1,2), of scope cycle now] assms(1) cpq1 by (auto simp: cpq_def split: option.splits)
  let ?b = "claim_batch q1 cp phase limit locked now"
  from assms(3) obtain token where
    "q' = q1\<lparr>mq_items := update_where (\<lambda>it. wi_work_item_id it \<in> set (map wi_work_item_id ?b)) (lease_item token leased secs) (mq_items q1)\<rparr>"
    unfolding claim_clue_materialization_batch_def cpq_def [symmetric] cpq1 by (auto simp: bind_result_Inr Let_def split: if_splits)
  moreover have "\<forall>it \<in> set ?b. it \<in> set (mq_items q1) \<and> wi_state it \<noteq> ''completed''"
    using claim_batch_mem claimable_open by blast
  ultimately show ?thesis using lease_inv [OF q1] by simp
qed

lemma complete_inv:
  assumes "mq_inv q" and "complete_clue_materialization_batch ids lease_token now q = Inr (n, q')"
  shows "mq_inv q'"
proof -
  have "mq_inv (q\<lparr>mq_items := update_where (holds_lease ids token now) (complete_item now) (mq_items q)\<rparr>)" for token
    by (rule moves_update [OF assms(1)]) (simp add: moves_to_def complete_item_def item_key_def known_states_def)
  with assms advance_inv show ?thesis
    by (auto simp: complete_clue_materialization_batch_def bind_result_Inr split: if_splits)
qed

lemma renew_inv:
  assumes "mq_inv q" and "renew_clue_materialization_batch ids lease_token secs now q = Inr (n, q')"
  shows "mq_inv q'"
proof -
  have "mq_inv (q\<lparr>mq_items := update_where (holds_lease ids token now) (\<lambda>it. it\<lparr>wi_leased_at := x, wi_lease_expires_at := y\<rparr>) (mq_items q)\<rparr>)" for token x y
    by (rule moves_update [OF assms(1)]) (simp add: moves_to_def holds_lease_def item_key_def known_states_def)
  with assms show ?thesis by (auto simp: renew_clue_materialization_batch_def bind_result_Inr split: if_splits)
qed

lemma retry_inv:
  assumes "mq_inv q" and "retry_clue_materialization_batch ids lease_token q = Inr (n, q')"
  shows "mq_inv q'"
proof -
  have "mq_inv (q\<lparr>mq_items := update_where (owned_item ids token)
      (\<lambda>it. it\<lparr>wi_state := ''pending'', wi_leased_at := None, wi_lease_owner := None, wi_lease_expires_at := None\<rparr>) (mq_items q)\<rparr>)" for token
    by (rule moves_update [OF assms(1)]) (simp add: moves_to_def owned_item_def item_key_def known_states_def)
  with assms show ?thesis by (auto simp: retry_clue_materialization_batch_def bind_result_Inr split: if_splits)
qed

lemma held_itemD:
  assumes "held_item scope i token q = Inr it"
  shows "it \<in> set (mq_items q)" and "wi_work_item_id it = i" and "wi_state it = ''processing''" and "wi_lease_owner it = Some token" and "wi_scope it = scope"
  using assms by (auto simp: held_item_def dest!: find_row_Some split: option.splits if_splits)

text \<open>A page writes the columns of progress of the item it holds, and renews the lease.\<close>

lemma renew_page_inv:
  assumes q: "mq_inv q" and it: "it \<in> set (mq_items q)" and same: "moves_to it it'"
    and run: "renew_page it' token secs fence message now q = Inr q'"
  shows "mq_inv q'"
proof -
  have "upd_row wi_work_item_id it' (mq_items q) = update_where (\<lambda>x. wi_work_item_id x = wi_work_item_id it) (\<lambda>_. it') (mq_items q)"
    using same by (simp add: upd_row_def update_where_def moves_to_def)
  moreover have "mq_inv (q\<lparr>mq_items := update_where (\<lambda>x. wi_work_item_id x = wi_work_item_id it) (\<lambda>_. it') (mq_items q)\<rparr>)"
    using same same_item [of "mq_items q"] q it by (intro moves_update [OF q]) (metis mq_inv_def)
  ultimately show ?thesis
    using run renew_inv by (auto simp: renew_page_def bind_result_Inr split: if_splits)
qed

lemma page_inv:
  assumes "mq_inv q" and "process_page scope i token secs n enabled raw center fence now q = Inr q'"
  shows "mq_inv q'"
proof -
  obtain it where it: "held_item scope i token q = Inr it" using assms(2) by (auto simp: process_page_def bind_result_Inr)
  note held = held_itemD [OF it]
  have progress: "moves_to it (it\<lparr>wi_raw_cursor := a, wi_raw_page_complete := b\<rparr>)" "moves_to it (it\<lparr>wi_raw_page_complete := b\<rparr>)"
    "moves_to it (it\<lparr>wi_center_cursor := a\<rparr>)" for a b
    using held(3) by (simp_all add: moves_to_def item_key_def known_states_def)
  note renewed = renew_page_inv [OF assms(1) held(1)]
  show ?thesis
    using assms(2) renewed [OF progress(1)] renewed [OF progress(2)] renewed [OF progress(3)] retry_inv [OF assms(1)] complete_inv [OF assms(1)]
    by (auto simp: process_page_def checkpoint_raw_page_def pause_raw_item_def checkpoint_center_page_def it split: if_splits simp: bind_result_Inr)
qed

lemma reachable_mq_inv: "mq_reachable q \<Longrightarrow> mq_inv q"
proof (induction rule: mq_reachable.induct)
  case start
  show ?case by (simp add: mq_inv_def empty_queue_def)
next
  case (step q op now)
  show ?case
  proof (cases op)
    case (Capture im i)
    with step capture_inv [of q im i now] show ?thesis by simp
  next
    case (Begin scope cycle base)
    with step begin_inv show ?thesis by simp
  next
    case (Claim scope limit token secs phase locked cycle base)
    with step claim_inv show ?thesis by (auto simp: after_def split: sum.split)
  next
    case (Complete ids token)
    with step complete_inv show ?thesis by (auto simp: after_def split: sum.split)
  next
    case (Renew ids token secs)
    with step renew_inv show ?thesis by (auto simp: after_def split: sum.split)
  next
    case (Retry ids token)
    with step retry_inv show ?thesis by (auto simp: after_def split: sum.split)
  next
    case (Page scope i token secs n enabled raw center fence)
    with step page_inv show ?thesis by (auto simp: after_def split: sum.split)
  next
    case (FinishAttempt a)
    with step show ?thesis by (simp add: mq_inv_def top_impact_def cycle_covered_def)
  qed
qed

section \<open>What a claim returns\<close>

definition live_lease :: "materialization \<Rightarrow> instant \<Rightarrow> work_item \<Rightarrow> bool" where
  "live_lease q now it \<longleftrightarrow> wi_state it = ''processing'' \<and> \<not> lease_expired q now it"

lemma claimable_all:
  assumes "mq_inv q" and "cp \<in> set (mq_marks q)" and "it \<in> set (mq_items q)"
  shows "claimable q cp ''all'' now it \<longleftrightarrow> unfinished cp it \<and> \<not> live_lease q now it"
proof -
  have "wi_state it = ''pending'' \<or> wi_state it = ''processing'' \<or> wi_state it = ''completed''"
    using assms(1,3) by (auto simp: mq_inv_def known_states_def)
  moreover have "wm_last_work_item_id cp < wi_work_item_id it" if "in_cycle cp it" "wi_state it = ''pending''"
    using assms that by (force simp: mq_inv_def cursor_sound_def)
  ultimately show ?thesis
    by (auto simp: claimable_def phase_ready_def unfinished_def live_lease_def lease_expired_def)
qed

definition available_ids :: "materialization \<Rightarrow> job_impact_watermark \<Rightarrow> instant \<Rightarrow> int list" where
  "available_ids q cp now = sort (map wi_work_item_id (filter (\<lambda>it. unfinished cp it \<and> \<not> live_lease q now it) (mq_items q)))"

lemma sort_key_ids: "map f (sort_key f xs) = sort (map f xs)"
  by (rule sym, rule properties_for_sort) (simp_all add: mset_map)

lemma claim_batch_all:
  assumes "mq_inv q" and "cp \<in> set (mq_marks q)"
  shows "map wi_work_item_id (claim_batch q cp ''all'' limit [] now) = take (nat (max 1 limit)) (available_ids q cp now)"
proof -
  have "filter (\<lambda>it. claimable q cp ''all'' now it \<and> wi_work_item_id it \<notin> set []) (mq_items q)
      = filter (\<lambda>it. unfinished cp it \<and> \<not> live_lease q now it) (mq_items q)"
    using claimable_all [OF assms] by (intro filter_cong) auto
  then show ?thesis by (simp add: claim_batch_def available_ids_def take_map [symmetric] sort_key_ids)
qed

text \<open>A claim over the whole cycle, when a cycle is open.\<close>

lemma claim_all:
  fixes limit :: int and now :: instant
  assumes "find_row wm_scope scope (mq_marks q) = Some cp" and "py_strip lease_token \<noteq> []"
  defines "batch \<equiv> claim_batch q cp ''all'' limit [] now"
  shows "claim_clue_materialization_batch scope limit lease_token secs ''all'' [] cycle base now leased q =
    Inr (map (lease_item (py_strip lease_token) leased secs) batch,
         q\<lparr>mq_items := update_where (\<lambda>it. wi_work_item_id it \<in> set (map wi_work_item_id batch)) (lease_item (py_strip lease_token) leased secs) (mq_items q)\<rparr>)"
  using assms by (simp add: claim_clue_materialization_batch_def require_materialization_lease_token_def Let_def)

section \<open>Draining a cycle\<close>

fun drain :: "nat \<Rightarrow> string \<Rightarrow> int \<Rightarrow> string \<Rightarrow> int \<Rightarrow> instant \<Rightarrow> materialization \<Rightarrow> materialization" where
  "drain 0 scope limit token secs now q = q"
| "drain (Suc k) scope limit token secs now q =
     (case claim_clue_materialization_batch scope limit token secs ''all'' [] [] 0 now now q of
        Inl e \<Rightarrow> q
      | Inr (batch, q1) \<Rightarrow> drain k scope limit token secs now (after snd q1 (complete_clue_materialization_batch (map wi_work_item_id batch) token now q1)))"

definition unfinished_ids :: "materialization \<Rightarrow> job_impact_watermark \<Rightarrow> int list" where
  "unfinished_ids q cp = sort (map wi_work_item_id (filter (unfinished cp) (mq_items q)))"

text \<open>One round finishes the first items of the cycle and leaves the others as they were.\<close>

lemma drain_round:
  assumes inv: "mq_inv q" and mark: "find_row wm_scope scope (mq_marks q) = Some cp" and token: "py_strip token \<noteq> []"
    and idle: "\<forall>it \<in> set (mq_items q). \<not> live_lease q now it"
    and claim: "claim_clue_materialization_batch scope limit token secs ''all'' [] [] 0 now now q = Inr (batch, q1)"
  defines "q2 \<equiv> after snd q1 (complete_clue_materialization_batch (map wi_work_item_id batch) token now q1)"
    and "ids \<equiv> take (nat (max 1 limit)) (unfinished_ids q cp)"
  shows "map wi_work_item_id batch = ids"
    and "mq_items q2 = update_where (\<lambda>it. wi_work_item_id it \<in> set ids) (complete_item now \<circ> lease_item (py_strip token) now secs) (mq_items q)"
    and "mq_impacts q2 = mq_impacts q" and "mq_attempts q2 = mq_attempts q"
    and "\<exists>cp'. find_row wm_scope scope (mq_marks q2) = Some cp' \<and> wm_frozen_upper_bound_id cp' = wm_frozen_upper_bound_id cp"
    and "mq_inv q2"
proof -
  have "cp \<in> set (mq_marks q)" using find_row_Some [OF mark] by simp
  moreover have "available_ids q cp now = unfinished_ids q cp"
    using idle by (auto simp: available_ids_def unfinished_ids_def intro!: arg_cong [where f = sort] arg_cong [where f = "map wi_work_item_id"] filter_cong)
  ultimately have ids: "map wi_work_item_id (claim_batch q cp ''all'' limit [] now) = ids"
    using claim_batch_all [OF inv, of cp limit now] by (simp add: ids_def)
  let ?t = "py_strip token"
  have b: "batch = map (lease_item ?t now secs) (claim_batch q cp ''all'' limit [] now)"
    and q1: "q1 = q\<lparr>mq_items := update_where (\<lambda>it. wi_work_item_id it \<in> set ids) (lease_item ?t now secs) (mq_items q)\<rparr>"
    using claim claim_all [OF mark token, of limit secs "[]" 0 now now] by (auto simp: ids [symmetric])
  have id_lease: "wi_work_item_id (lease_item ?t now secs x) = wi_work_item_id x" for x by (simp add: lease_item_def)
  show batch: "map wi_work_item_id batch = ids" unfolding b ids [symmetric] by (simp add: id_lease)
  have held: "holds_lease ids ?t now (lease_item ?t now secs x) \<longleftrightarrow> wi_work_item_id x \<in> set ids" for x
    by (simp add: holds_lease_def lease_item_def lease_expiry_def)
  have both: "update_where (holds_lease ids ?t now) (complete_item now) (mq_items q1)
      = update_where (\<lambda>it. wi_work_item_id it \<in> set ids) (complete_item now \<circ> lease_item ?t now secs) (mq_items q)"
    unfolding q1 by (auto simp: update_where_def held) (auto simp: holds_lease_def)
  have complete: "q2 = (if ids = [] then q1
      else advance_materialization_cursor (q1\<lparr>mq_items := update_where (holds_lease ids ?t now) (complete_item now) (mq_items q1)\<rparr>))"
    using token by (simp add: q2_def batch after_def complete_clue_materialization_batch_def require_materialization_lease_token_def)
  show "mq_items q2 = update_where (\<lambda>it. wi_work_item_id it \<in> set ids) (complete_item now \<circ> lease_item ?t now secs) (mq_items q)"
    using both by (auto simp: complete advance_materialization_cursor_def) (simp add: q1 update_where_def)
  show "mq_impacts q2 = mq_impacts q" "mq_attempts q2 = mq_attempts q" by (simp_all add: complete advance_materialization_cursor_def q1)
  have "find_row wm_scope scope (map (advance_mark items) marks) = map_option (advance_mark items) (find_row wm_scope scope marks)" for items marks
    by (induction marks) (simp_all add: find_row_Cons advance_mark_keeps)
  then show "\<exists>cp'. find_row wm_scope scope (mq_marks q2) = Some cp' \<and> wm_frozen_upper_bound_id cp' = wm_frozen_upper_bound_id cp"
    using mark by (simp add: complete advance_materialization_cursor_def q1 advance_mark_keeps)
  have "mq_inv q1"
    unfolding q1 ids [symmetric] using claim_batch_mem claimable_open by (intro lease_inv [OF inv]) blast
  then show "mq_inv q2"
    using complete_inv [of q1 "map wi_work_item_id batch" token now] by (auto simp: q2_def after_def split: sum.split)
qed

lemma drop_ids: "distinct xs \<Longrightarrow> filter (\<lambda>x. x \<notin> set (take n xs)) xs = drop n xs"
proof -
  assume "distinct xs"
  then have "distinct (take n xs @ drop n xs)" by simp
  then have "filter (\<lambda>x. x \<notin> set (take n xs)) (take n xs @ drop n xs) = drop n xs"
    by (auto simp: filter_empty_conv filter_id_conv simp del: append_take_drop_id)
  then show ?thesis by simp
qed

lemma drained_ids:
  assumes "distinct (map wi_work_item_id items)" and "\<And>it. unfinished cp' it = unfinished cp it"
    and "\<And>it. wi_work_item_id (f it) = wi_work_item_id it" and "\<And>it. \<not> unfinished cp (f it)"
  defines "S \<equiv> sort (map wi_work_item_id (filter (unfinished cp) items))"
  shows "sort (map wi_work_item_id (filter (unfinished cp') (update_where (\<lambda>it. wi_work_item_id it \<in> set (take n S)) f items))) = drop n S"
proof -
  let ?P = "\<lambda>it. wi_work_item_id it \<in> set (take n S)"
  have "map wi_work_item_id (filter (unfinished cp') (update_where (\<lambda>it. wi_work_item_id it \<in> A) f items))
      = filter (\<lambda>i. i \<notin> A) (map wi_work_item_id (filter (unfinished cp) items))" for A
    using assms(2-4) by (induction items) (auto simp: update_where_def)
  then have "sort (map wi_work_item_id (filter (unfinished cp') (update_where ?P f items))) = filter (\<lambda>i. i \<notin> set (take n S)) S"
    by (simp add: S_def filter_sort)
  moreover have "distinct S" using assms(1) by (simp add: S_def distinct_map_filter)
  ultimately show ?thesis by (simp only: drop_ids)
qed

lemma drain_finishes:
  assumes "mq_inv q" and "find_row wm_scope scope (mq_marks q) = Some cp" and "py_strip token \<noteq> []"
    and "\<forall>it \<in> set (mq_items q). \<not> live_lease q now it" and "length (unfinished_ids q cp) \<le> k * nat (max 1 limit)"
  shows "let q' = drain k scope limit token secs now q in
    mq_inv q' \<and> mq_impacts q' = mq_impacts q
    \<and> (\<exists>cp'. find_row wm_scope scope (mq_marks q') = Some cp' \<and> wm_frozen_upper_bound_id cp' = wm_frozen_upper_bound_id cp \<and> unfinished_ids q' cp' = [])"
  using assms
proof (induction k arbitrary: q cp)
  case 0
  then show ?case by (simp add: Let_def)
next
  case (Suc k)
  obtain batch q1 where claim: "claim_clue_materialization_batch scope limit token secs ''all'' [] [] 0 now now q = Inr (batch, q1)"
    using claim_all [OF Suc.prems(2,3)] by blast
  let ?q2 = "after snd q1 (complete_clue_materialization_batch (map wi_work_item_id batch) token now q1)"
  let ?ids = "take (nat (max 1 limit)) (unfinished_ids q cp)"
  note round = drain_round [OF Suc.prems(1-4) claim]
  obtain cp2 where cp2: "find_row wm_scope scope (mq_marks ?q2) = Some cp2" "wm_frozen_upper_bound_id cp2 = wm_frozen_upper_bound_id cp"
    using round(5) by blast
  have "wm_scope cp2 = wm_scope cp" using find_row_key [OF cp2(1)] find_row_key [OF Suc.prems(2)] by simp
  then have same: "unfinished cp2 it = unfinished cp it" for it using cp2(2) by (simp add: unfinished_def in_cycle_def)
  have "unfinished_ids ?q2 cp2 = drop (nat (max 1 limit)) (unfinished_ids q cp)"
    unfolding unfinished_ids_def round(2) using Suc.prems(1) same
    by (intro drained_ids) (simp_all add: mq_inv_def complete_item_def lease_item_def unfinished_def)
  then have "length (unfinished_ids ?q2 cp2) \<le> k * nat (max 1 limit)" using Suc.prems(5) by simp
  moreover have "live_lease ?q2 now it = live_lease q now it" for it by (simp add: live_lease_def lease_expired_def round(4))
  then have "\<forall>it \<in> set (mq_items ?q2). \<not> live_lease ?q2 now it"
    using Suc.prems(4) unfolding round(2) by (auto simp: in_update_where live_lease_def complete_item_def split: if_splits)
  ultimately have "let q' = drain k scope limit token secs now ?q2 in mq_inv q' \<and> mq_impacts q' = mq_impacts ?q2
    \<and> (\<exists>cp'. find_row wm_scope scope (mq_marks q') = Some cp' \<and> wm_frozen_upper_bound_id cp' = wm_frozen_upper_bound_id cp2 \<and> unfinished_ids q' cp' = [])"
    by (intro Suc.IH [OF round(6) cp2(1) Suc.prems(3)])
  then show ?case using claim round(3) cp2(2) by (simp add: Let_def)
qed

section \<open>Exclusive leases\<close>

text \<open>An operation that another attempt than the given one carries out.\<close>

fun by_other :: "string \<Rightarrow> mq_op \<Rightarrow> bool" where
  "by_other t (Capture im i) \<longleftrightarrow> True"
| "by_other t (Begin scope cycle base) \<longleftrightarrow> True"
| "by_other t (Claim scope limit token secs phase locked cycle base) \<longleftrightarrow> py_strip token \<noteq> t"
| "by_other t (Complete ids token) \<longleftrightarrow> py_strip token \<noteq> t"
| "by_other t (Renew ids token secs) \<longleftrightarrow> py_strip token \<noteq> t"
| "by_other t (Retry ids token) \<longleftrightarrow> py_strip token \<noteq> t"
| "by_other t (Page scope i token secs n enabled raw center fence) \<longleftrightarrow> token \<noteq> t \<and> py_strip token \<noteq> t"
| "by_other t (FinishAttempt a) \<longleftrightarrow> a \<noteq> t"

fun run_ops :: "(mq_op \<times> instant) list \<Rightarrow> materialization \<Rightarrow> materialization" where
  "run_ops [] q = q"
| "run_ops ((op, now) # ops) q = run_ops ops (apply_op op now q)"

fun ops_in_sequence :: "(mq_op \<times> instant) list \<Rightarrow> materialization \<Rightarrow> bool" where
  "ops_in_sequence [] q \<longleftrightarrow> True"
| "ops_in_sequence ((op, now) # ops) q \<longleftrightarrow> in_sequence op q \<and> ops_in_sequence ops (apply_op op now q)"

text \<open>An item that an attempt, still at work, has leased until a time.\<close>

definition leased_to :: "materialization \<Rightarrow> string \<Rightarrow> instant \<Rightarrow> work_item \<Rightarrow> bool" where
  "leased_to q t e it \<longleftrightarrow> it \<in> set (mq_items q) \<and> wi_state it = ''processing'' \<and> wi_lease_owner it = Some t
     \<and> wi_lease_expires_at it = Some e \<and> (\<forall>a \<in> set (mq_attempts q). fst a = t \<longrightarrow> snd a = None)"

lemma leased_update:
  assumes "leased_to q t e it" and "\<not> P it"
  shows "leased_to (q\<lparr>mq_items := update_where P f (mq_items q)\<rparr>) t e it"
  using assms by (force simp: leased_to_def in_update_where)

lemma leased_marks: "leased_to q t e it \<Longrightarrow> leased_to (q\<lparr>mq_marks := marks\<rparr>) t e it"
  by (simp add: leased_to_def)

lemma leased_begin: "leased_to q t e it \<Longrightarrow> leased_to (snd (begin_clue_materialization_cycle scope cycle base now q)) t e it"
  by (auto simp: begin_clue_materialization_cycle_def Let_def leased_to_def split: option.split)

lemma leased_not_claimable: "leased_to q t e it \<Longrightarrow> now < e \<Longrightarrow> \<not> claimable q cp phase now it"
  by (auto simp: leased_to_def claimable_def lease_expired_def)

lemma leased_claim:
  assumes "mq_inv q" and "above_items base q" and "leased_to q t e it" and "now < e"
    and "claim_clue_materialization_batch scope limit lease_token secs phase locked cycle base now leased q = Inr (batch, q')"
  shows "leased_to q' t e it"
proof -
  define cpq where "cpq = (case find_row wm_scope scope (mq_marks q) of
    None \<Rightarrow> begin_clue_materialization_cycle scope cycle base now q | Some cp \<Rightarrow> (cp, q))"
  obtain cp q1 where cpq1: "cpq = (cp, q1)" by (cases cpq)
  have q1: "mq_inv q1" "leased_to q1 t e it"
    using begin_inv [OF assms(1,2), of scope cycle now] leased_begin [OF assms(3), of scope cycle base now] assms(1,3) cpq1
    by (auto simp: cpq_def split: option.splits)
  let ?b = "claim_batch q1 cp phase limit locked now"
  have "wi_work_item_id it \<notin> set (map wi_work_item_id ?b)"
  proof
    assume "wi_work_item_id it \<in> set (map wi_work_item_id ?b)"
    then obtain b where b: "b \<in> set ?b" "wi_work_item_id it = wi_work_item_id b" by auto
    then have "it = b" using q1 claim_batch_mem [OF b(1)] same_item [of "mq_items q1" it b] by (simp add: mq_inv_def leased_to_def)
    with claim_batch_mem [OF b(1)] leased_not_claimable [OF q1(2) assms(4)] show False by blast
  qed
  then show ?thesis
    using assms(5) leased_update [OF q1(2)] unfolding claim_clue_materialization_batch_def cpq_def [symmetric] cpq1
    by (auto simp: bind_result_Inr Let_def split: if_splits)
qed

lemma token_of: "require_materialization_lease_token v = Inr t \<longleftrightarrow> t = py_strip v \<and> py_strip v \<noteq> []"
  by (auto simp: require_materialization_lease_token_def)

lemma leased_complete:
  assumes "leased_to q t e it" and "py_strip token \<noteq> t" and "complete_clue_materialization_batch ids token now q = Inr (n, q')"
  shows "leased_to q' t e it"
proof -
  have "\<not> holds_lease ids (py_strip token) now it" using assms(1,2) by (auto simp: holds_lease_def leased_to_def)
  with assms leased_update leased_marks show ?thesis
    by (auto simp: complete_clue_materialization_batch_def bind_result_Inr token_of advance_materialization_cursor_def split: if_splits)
qed

lemma leased_renew:
  assumes "leased_to q t e it" and "py_strip token \<noteq> t" and "renew_clue_materialization_batch ids token secs now q = Inr (n, q')"
  shows "leased_to q' t e it"
proof -
  have "\<not> holds_lease ids (py_strip token) now it" using assms(1,2) by (auto simp: holds_lease_def leased_to_def)
  with assms leased_update show ?thesis
    by (auto simp: renew_clue_materialization_batch_def bind_result_Inr token_of split: if_splits)
qed

lemma leased_retry:
  assumes "leased_to q t e it" and "py_strip token \<noteq> t" and "retry_clue_materialization_batch ids token q = Inr (n, q')"
  shows "leased_to q' t e it"
proof -
  have "\<not> owned_item ids (py_strip token) it" using assms(1,2) by (auto simp: owned_item_def leased_to_def)
  with assms leased_update show ?thesis
    by (auto simp: retry_clue_materialization_batch_def bind_result_Inr token_of split: if_splits)
qed

lemma leased_page:
  assumes inv: "mq_inv q" and leased: "leased_to q t e it" and other: "token \<noteq> t" "py_strip token \<noteq> t"
    and run: "process_page scope i token secs n enabled raw center fence now q = Inr q'"
  shows "leased_to q' t e it"
proof -
  obtain x where x: "held_item scope i token q = Inr x" using run by (auto simp: process_page_def bind_result_Inr)
  note held = held_itemD [OF x]
  have "x \<noteq> it" using held(4) leased other(1) by (auto simp: leased_to_def)
  then have ne: "wi_work_item_id x \<noteq> wi_work_item_id it" using same_item [of "mq_items q" x it] inv held(1) leased by (auto simp: mq_inv_def leased_to_def)
  have page: "leased_to q'' t e it" if "wi_work_item_id y = wi_work_item_id x" "renew_page y token secs fence message now q = Inr q''" for y message q''
  proof -
    have "leased_to (q\<lparr>mq_items := upd_row wi_work_item_id y (mq_items q)\<rparr>) t e it"
      using leased ne that(1) by (auto simp: leased_to_def in_upd_row)
    with leased_renew that(2) other(2) show ?thesis by (auto simp: renew_page_def bind_result_Inr split: if_splits)
  qed
  show ?thesis
    using run leased_retry [OF leased other(2)] leased_complete [OF leased other(2)] page [of "x\<lparr>wi_raw_page_complete := True\<rparr>"]
      page [of "x\<lparr>wi_raw_cursor := Some (last raw), wi_raw_page_complete := int (length raw) < n\<rparr>"] page [of "x\<lparr>wi_center_cursor := Some (last center)\<rparr>"]
    by (auto simp: process_page_def checkpoint_raw_page_def pause_raw_item_def checkpoint_center_page_def x bind_result_Inr split: if_splits)
qed

lemma leased_step:
  assumes "mq_inv q" and "in_sequence op q" and "leased_to q t e it" and "by_other t op" and "now < e"
  shows "leased_to (apply_op op now q) t e it"
proof (cases op)
  case (Claim scope limit token secs phase locked cycle base)
  with assms leased_claim [OF assms(1) _ assms(3,5)] show ?thesis by (auto simp: after_def split: sum.split)
next
  case (Capture im i)
  with assms(3) show ?thesis by (simp add: store_impact_def leased_to_def)
next
  case (Begin scope cycle base)
  with assms(3) leased_begin show ?thesis by simp
next
  case (Complete ids token)
  with assms leased_complete show ?thesis by (auto simp: after_def split: sum.split)
next
  case (Renew ids token secs)
  with assms leased_renew show ?thesis by (auto simp: after_def split: sum.split)
next
  case (Retry ids token)
  with assms leased_retry show ?thesis by (auto simp: after_def split: sum.split)
next
  case (Page scope i token secs n enabled raw center fence)
  with assms leased_page [OF assms(1,3)] show ?thesis by (auto simp: after_def split: sum.split)
next
  case (FinishAttempt a)
  with assms show ?thesis by (auto simp: leased_to_def)
qed

lemma leased_run:
  assumes "mq_reachable q" and "ops_in_sequence ops q" and "leased_to q t e it" and "\<forall>(op, now) \<in> set ops. by_other t op \<and> now < e"
  shows "leased_to (run_ops ops q) t e it"
  using assms
proof (induction ops q rule: run_ops.induct)
  case (2 op now ops q)
  have "leased_to (apply_op op now q) t e it" using 2 reachable_mq_inv by (intro leased_step) auto
  then show ?case using 2 mq_reachable.step by auto
qed simp

section \<open>An example\<close>

definition example_impact :: "int \<Rightarrow> string \<Rightarrow> job_impact" where
  "example_impact i key = \<lparr>ji_id = i, ji_impact_key = key, ji_entity_type = ''clue'', ji_entity_key = key\<rparr>"

text \<open>Three impacts, a cycle over them, and the first two items leased.\<close>

definition example_ops :: "(mq_op \<times> instant) list" where
  "example_ops = [(Capture (example_impact 1 ''A'') 1, 0), (Capture (example_impact 2 ''B'') 2, 0), (Capture (example_impact 3 ''C'') 3, 0),
     (Begin default_scope ''cycle-1'' 3, 1), (Claim default_scope 2 ''attempt-1'' 300 ''all'' [] [] 3, 2)]"

definition example_queue :: materialization where
  "example_queue = run_ops example_ops empty_queue"

lemma reachable_run: "mq_reachable q \<Longrightarrow> ops_in_sequence ops q \<Longrightarrow> mq_reachable (run_ops ops q)"
  by (induction ops q rule: run_ops.induct) (auto intro: mq_reachable.step)

lemma example_reachable: "mq_reachable example_queue"
proof -
  have "ops_in_sequence example_ops empty_queue" by code_simp
  then show ?thesis unfolding example_queue_def by (rule reachable_run [OF mq_reachable.start])
qed

section \<open>Properties\<close>

text \<open>
  C10. Leased work is exclusive. While the lease of an attempt on a work item has not expired and the attempt has not finished,
  no sequence of operations of other attempts, captures and new cycles included, takes the item, completes it, returns it or
  changes it in any other way.
\<close>

theorem leased_work_is_exclusive:
  assumes "mq_reachable q" and "leased_to q t e it" and "ops_in_sequence ops q" and "\<forall>(op, now) \<in> set ops. by_other t op \<and> now < e"
  shows "it \<in> set (mq_items (run_ops ops q))"
  using leased_run [OF assms(1,3,2,4)] by (simp add: leased_to_def)

theorem leased_work_is_exclusive_witness:
  "let it = hd (mq_items example_queue); ops = [(Claim default_scope 10 ''attempt-2'' 300 ''all'' [] [] 3, 300000001), (Complete [1, 2, 3] ''attempt-2'', 300000001)]
   in wi_lease_owner it = Some ''attempt-1'' \<and> it \<in> set (mq_items (run_ops ops example_queue))"
proof -
  let ?it = "hd (mq_items example_queue)"
  let ?ops = "[(Claim default_scope 10 ''attempt-2'' 300 ''all'' [] [] 3, 300000001), (Complete [1, 2, 3] ''attempt-2'', 300000001)] :: (mq_op \<times> instant) list"
  have "leased_to example_queue ''attempt-1'' 300000002 ?it" "ops_in_sequence ?ops example_queue"
    "list_all (\<lambda>(op, now). by_other ''attempt-1'' op \<and> now < 300000002) ?ops" by code_simp+
  with leased_work_is_exclusive [OF example_reachable, of "''attempt-1''" 300000002 ?it ?ops] show ?thesis
    by (simp add: leased_to_def list_all_iff)
qed





text \<open>
  C40. The cursor takes commits to come in the order of their ids. Should a capture with an earlier id commit after the cursor has
  passed it, with an impact within the frozen bound, its work item stays pending: no claim returns it, and no later cycle starts, because
  the unfinished item keeps the old one open.
\<close>

theorem late_capture_blocks_the_queue:
  assumes "find_row wm_scope scope (mq_marks q) = Some cp" and "it \<in> set (mq_items q)" and "in_cycle cp it" and "wi_state it = ''pending''"
    and "wi_work_item_id it \<le> wm_last_work_item_id cp" and "distinct (map wi_work_item_id (mq_items q))"
  shows "begin_clue_materialization_cycle scope cycle base now q = (cp, q)
    \<and> (case claim_clue_materialization_batch scope limit lease_token secs phase locked cycle base now leased q of
         Inl e \<Rightarrow> True | Inr (batch, q') \<Rightarrow> wi_work_item_id it \<notin> wi_work_item_id ` set batch \<and> it \<in> set (mq_items q'))"
proof -
  have "\<exists>x \<in> set (mq_items q). unfinished cp x" using assms(2-4) by (auto simp: unfinished_def)
  then have opened: "begin_clue_materialization_cycle scope cycle base now q = (cp, q)"
    using assms(1) by (simp add: begin_clue_materialization_cycle_def Let_def)
  let ?b = "claim_batch q cp phase limit locked now"
  have out: "wi_work_item_id it \<notin> wi_work_item_id ` set ?b"
  proof
    assume "wi_work_item_id it \<in> wi_work_item_id ` set ?b"
    then obtain b where b: "b \<in> set ?b" "wi_work_item_id it = wi_work_item_id b" by auto
    then have "it = b" using claim_batch_mem [OF b(1)] same_item [OF assms(6,2)] by blast
    with claim_batch_mem [OF b(1)] assms(4,5) show False by (auto simp: claimable_def lease_expired_def)
  qed
  have "wi_work_item_id it \<notin> wi_work_item_id ` set batch \<and> it \<in> set (mq_items q')"
    if claimed: "claim_clue_materialization_batch scope limit lease_token secs phase locked cycle base now leased q = Inr (batch, q')" for batch q'
  proof -
    let ?t = "py_strip lease_token"
    have "batch = map (lease_item ?t leased secs) ?b"
      and q': "mq_items q' = update_where (\<lambda>it. wi_work_item_id it \<in> set (map wi_work_item_id ?b)) (lease_item ?t leased secs) (mq_items q)"
      using claimed assms(1) by (auto simp: claim_clue_materialization_batch_def bind_result_Inr Let_def token_of split: if_splits)
    then have "wi_work_item_id ` set batch = wi_work_item_id ` set ?b" by (force simp: lease_item_def image_iff)
    moreover have "it \<in> set (mq_items q')" unfolding q' in_update_where using assms(2) out by (intro bexI [of _ it]) auto
    ultimately show ?thesis using out by simp
  qed
  with opened show ?thesis by (auto split: sum.split)
qed

theorem late_capture_blocks_the_queue_witness:
  "let q = run_ops [(Capture (example_impact 2 ''B'') 2, 0), (Begin default_scope ''cycle-1'' 2, 1), (Claim default_scope 9 ''attempt-1'' 300 ''all'' [] [] 2, 2),
     (Complete [2] ''attempt-1'', 3), (Capture (example_impact 1 ''A'') 1, 4)] empty_queue
   in begin_clue_materialization_cycle default_scope ''cycle-2'' 2 5 q = (hd (mq_marks q), q)"
proof -
  define q where "q = run_ops [(Capture (example_impact 2 ''B'') 2, 0), (Begin default_scope ''cycle-1'' 2, 1), (Claim default_scope 9 ''attempt-1'' 300 ''all'' [] [] 2, 2),
     (Complete [2] ''attempt-1'', 3), (Capture (example_impact 1 ''A'') 1, 4)] empty_queue"
  let ?cp = "hd (mq_marks q)" and ?it = "mq_items q ! 1"
  have "find_row wm_scope default_scope (mq_marks q) = Some ?cp" "in_cycle ?cp ?it" "wi_state ?it = ''pending''"
    "wi_work_item_id ?it \<le> wm_last_work_item_id ?cp" "distinct (map wi_work_item_id (mq_items q))" "length (mq_items q) = 2"
    unfolding q_def by code_simp+
  with late_capture_blocks_the_queue [of default_scope q ?cp ?it "''cycle-2''" 2 5] nth_mem [of 1 "mq_items q"]
  show ?thesis unfolding q_def [symmetric] by (simp add: Let_def)
qed

end
