(* ===== verification/JobLeases.thy ===== *)
theory JobLeases
  imports ClueModel
begin

text \<open>
  The lease state machine of the heavy synchronization jobs on PostgreSQL (\<open>apps/worker/task_control.py\<close> and the claim functions of
  \<open>apps/worker/repositories.py\<close>): claiming the one heavy slot, renewing, completing, failing and cancelling under a
  fenced token, recovering an expired lease, and the check that quarantines a job whose control rows disagree. One call is one transaction, an
  exception leaves the tables as they were. The answers of the planner gate and of the advisory locks are
  arguments, and so are the clock of the database and the ids it draws.
\<close>

section \<open>Rows\<close>

record job_run =
  jr_job_id :: string
  jr_job_name :: string
  jr_status :: string
  jr_finished_at :: "instant option"
  jr_success_count :: int
  jr_failed_count :: int
  jr_error_message :: "string option"
  jr_metadata_json :: pyval
  jr_parent_job_id :: "string option"
  jr_job_kind :: "string option"
  jr_execution_slot :: "string option"
  jr_business_date :: "int option"
  jr_data_source :: "string option"
  jr_config_version :: "string option"
  jr_current_stage :: "string option"
  jr_attempt_count :: "int option"
  jr_max_attempts :: "int option"
  jr_quota_pause_count :: int
  jr_lease_owner :: "string option"
  jr_lease_epoch :: "int option"
  jr_lease_expires_at :: "instant option"
  jr_heartbeat_at :: "instant option"
  jr_next_retry_at :: "instant option"
  jr_error_code :: "string option"
  jr_error_summary :: "string option"
  jr_cancel_requested_at :: "instant option"

record job_attempt =
  ja_attempt_id :: string
  ja_job_id :: string
  ja_attempt_number :: int
  ja_lease_epoch :: int
  ja_component_type :: string
  ja_component_instance_id :: string
  ja_started_at :: instant
  ja_finished_at :: "instant option"
  ja_exit_type :: "string option"
  ja_exit_code :: "int option"
  ja_rss_peak_bytes :: "int option"
  ja_error_code :: "string option"
  ja_error_summary :: "string option"

record component_heartbeat =
  ch_component_instance_id :: string
  ch_component_type :: string
  ch_status :: string
  ch_last_heartbeat_at :: instant
  ch_current_job_id :: "string option"
  ch_current_attempt_id :: "string option"
  ch_updated_at :: instant

record job_event =
  ev_job_id :: string
  ev_attempt_id :: "string option"
  ev_event_type :: string
  ev_from_status :: "string option"
  ev_to_status :: "string option"
  ev_actor_type :: string
  ev_actor_id :: "string option"
  ev_reason :: "string option"
  ev_payload_json :: pydict
  ev_occurred_at :: instant

record control =
  c_jobs :: "job_run list"
  c_attempts :: "job_attempt list"
  c_components :: "component_heartbeat list"
  c_events :: "job_event list"

record lease_token =
  lt_job_id :: string
  lt_attempt_id :: string
  lt_attempt_number :: int
  lt_lease_owner :: string
  lt_lease_epoch :: int
  lt_component_instance_id :: string
  lt_business_date :: "int option"
  lt_current_stage :: "string option"

definition count_of :: "int option \<Rightarrow> int" where
  "count_of v = (case v of None \<Rightarrow> 0 | Some i \<Rightarrow> i)"

definition max_attempts_of :: "job_run \<Rightarrow> int" where
  "max_attempts_of j = (case jr_max_attempts j of None \<Rightarrow> 3 | Some i \<Rightarrow> if i = 0 then 3 else i)"

section \<open>The retry policy\<close>

datatype failure_kind = TRANSIENT | BROWSER | DATA_INTEGRITY | MEMORY_GUARD | CRASHED | BUDGET_PAUSE | RESOURCE_PAUSE

record retry_decision =
  rd_status :: string
  rd_delay_seconds :: "int option"

definition default_max_attempts :: int where
  "default_max_attempts = 3"

definition max_budget_pause_delay_seconds :: int where
  "max_budget_pause_delay_seconds = 172800"

definition is_scheduler_pause :: "failure_kind \<Rightarrow> bool" where
  "is_scheduler_pause k \<longleftrightarrow> k \<in> {BUDGET_PAUSE, RESOURCE_PAUSE}"

fun scheduler_pause_error_code :: "failure_kind \<Rightarrow> string result" where
  "scheduler_pause_error_code BUDGET_PAUSE = Inr ''priority_budget_pause''"
| "scheduler_pause_error_code RESOURCE_PAUSE = Inr ''worker_resource_pause''"
| "scheduler_pause_error_code _ = Inl (ValueError ''failure kind is not a scheduler pause'')"

definition scheduler_pause_markers :: "string list" where
  "scheduler_pause_markers = [''priority_budget_pause'', ''worker_resource_pause'']"

definition retry_policy ::
  "failure_kind \<Rightarrow> int \<Rightarrow> int \<Rightarrow> int \<Rightarrow> string option \<Rightarrow> int \<Rightarrow> int option \<Rightarrow> retry_decision result" where
  "retry_policy kind attempt_number max_attempts quota_pause_count previous_exit_type base_delay fixed_delay =
     (if attempt_number \<le> 0 then Inl (ValueError ''attempt_number must be positive'')
      else if max_attempts \<le> 0 \<or> default_max_attempts < max_attempts then Inl (ValueError ''max_attempts must be between 1 and 3'')
      else if quota_pause_count < 0 then Inl (ValueError ''quota_pause_count cannot be negative'')
      else if base_delay \<le> 0 then Inl (ValueError ''base_delay_seconds must be positive'')
      else if (case fixed_delay of None \<Rightarrow> False | Some d \<Rightarrow> d \<le> 0) then Inl (ValueError ''fixed_delay_seconds must be positive'')
      else if is_scheduler_pause kind
      then Inr \<lparr>rd_status = ''retry_wait'',
                rd_delay_seconds = Some (min (case fixed_delay of None \<Rightarrow> base_delay | Some d \<Rightarrow> d) max_budget_pause_delay_seconds)\<rparr>
      else let effective = attempt_number - quota_pause_count;
               fatal = (if kind = MEMORY_GUARD then previous_exit_type = Some ''resource_guard'' else kind = DATA_INTEGRITY)
           in if fatal \<or> max_attempts \<le> effective then Inr \<lparr>rd_status = ''failed'', rd_delay_seconds = None\<rparr>
              else Inr \<lparr>rd_status = ''retry_wait'',
                        rd_delay_seconds = Some (case fixed_delay of Some d \<Rightarrow> d | None \<Rightarrow> base_delay * 2 ^ nat (max 1 effective - 1))\<rparr>)"

definition attempt_exit_type :: "failure_kind \<Rightarrow> retry_decision \<Rightarrow> string" where
  "attempt_exit_type kind d =
     (if is_scheduler_pause kind then ''retryable_failure'' else if kind = MEMORY_GUARD then ''resource_guard''
      else if kind = CRASHED then ''crashed'' else if rd_status d = ''retry_wait'' then ''retryable_failure'' else ''fatal_failure'')"

section \<open>Fenced operations\<close>

definition priority_daily_config_version :: string where
  "priority_daily_config_version = ''priority-daily-v1''"

definition is_priority_resource_config :: "string option \<Rightarrow> bool" where
  "is_priority_resource_config v =
     (case v of None \<Rightarrow> False
      | Some s \<Rightarrow> s = priority_daily_config_version \<or> py_startswith s (priority_daily_config_version @ ''-dimensions-'')
          \<or> py_startswith s (priority_daily_config_version @ ''-recovery''))"

definition active_lease :: "lease_token \<Rightarrow> instant \<Rightarrow> job_run \<Rightarrow> bool" where
  "active_lease t now j \<longleftrightarrow> jr_job_id j = lt_job_id t \<and> jr_status j = ''running'' \<and> jr_lease_owner j = Some (lt_lease_owner t)
     \<and> jr_lease_epoch j = Some (lt_lease_epoch t) \<and> (case jr_lease_expires_at j of None \<Rightarrow> False | Some e \<Rightarrow> now < e)"

definition token_attempt :: "lease_token \<Rightarrow> job_attempt \<Rightarrow> bool" where
  "token_attempt t a \<longleftrightarrow> ja_job_id a = lt_job_id t \<and> ja_attempt_id a = lt_attempt_id t \<and> ja_lease_epoch a = lt_lease_epoch t
     \<and> ja_finished_at a = None"

definition token_component :: "lease_token \<Rightarrow> component_heartbeat \<Rightarrow> bool" where
  "token_component t h \<longleftrightarrow> ch_component_instance_id h = lt_component_instance_id t \<and> ch_component_type h = ''worker''
     \<and> ch_current_job_id h = Some (lt_job_id t) \<and> ch_current_attempt_id h = Some (lt_attempt_id t)"

text \<open>\<open>lock_active_execution_state\<close>: the row of a job whose token, attempt and component are all in force.\<close>

definition lock_active_execution_state :: "control \<Rightarrow> lease_token \<Rightarrow> bool \<Rightarrow> instant \<Rightarrow> job_run option" where
  "lock_active_execution_state c t require_cancel_intent now =
     (case find (active_lease t now) (c_jobs c) of
        None \<Rightarrow> None
      | Some j \<Rightarrow>
          if require_cancel_intent \<and> jr_cancel_requested_at j = None then None
          else if \<not> (\<exists>a \<in> set (c_attempts c). token_attempt t a \<and> ja_component_type a = ''worker'' \<and> ja_component_instance_id a = lt_component_instance_id t)
          then None
          else if \<not> (\<exists>h \<in> set (c_components c). token_component t h) then None
          else Some j)"

definition previous_attempt_exit_type :: "control \<Rightarrow> string \<Rightarrow> int \<Rightarrow> string option" where
  "previous_attempt_exit_type c job_id n =
     (if n \<le> 1 then None
      else case find (\<lambda>a. ja_job_id a = job_id \<and> ja_attempt_number a = n - 1) (c_attempts c) of None \<Rightarrow> None | Some a \<Rightarrow> ja_exit_type a)"

definition finish_attempt :: "lease_token \<Rightarrow> instant \<Rightarrow> string \<Rightarrow> string option \<Rightarrow> string option \<Rightarrow> control \<Rightarrow> control result" where
  "finish_attempt t now exit_type error_code error_summary c =
     (if count_where (token_attempt t) (c_attempts c) \<noteq> 1 then Inl (RuntimeErr ''active lease has no matching unfinished attempt'')
      else Inr (c\<lparr>c_attempts := update_where (token_attempt t)
             (\<lambda>a. a\<lparr>ja_finished_at := Some now, ja_exit_type := Some exit_type, ja_error_code := error_code, ja_error_summary := error_summary\<rparr>)
             (c_attempts c)\<rparr>))"

definition release_component_attempt :: "lease_token \<Rightarrow> instant \<Rightarrow> string \<Rightarrow> control \<Rightarrow> control result" where
  "release_component_attempt t now status c =
     (if count_where (token_component t) (c_components c) \<noteq> 1
      then Inl (RuntimeErr ''active attempt is not bound to the claimed worker component'')
      else Inr (c\<lparr>c_components := update_where (token_component t)
             (\<lambda>h. h\<lparr>ch_status := status, ch_current_job_id := None, ch_current_attempt_id := None, ch_updated_at := now\<rparr>) (c_components c)\<rparr>))"

definition add_job_event ::
  "string \<Rightarrow> string option \<Rightarrow> string \<Rightarrow> string option \<Rightarrow> string option \<Rightarrow> string option \<Rightarrow> instant \<Rightarrow> string option \<Rightarrow> pydict \<Rightarrow> control \<Rightarrow> control" where
  "add_job_event job_id attempt_id event_type from_status to_status actor_id now reason payload c =
     c\<lparr>c_events := add_row \<lparr>ev_job_id = job_id, ev_attempt_id = attempt_id, ev_event_type = event_type, ev_from_status = from_status,
        ev_to_status = to_status, ev_actor_type = (if actor_id \<noteq> None then ''worker'' else ''system''), ev_actor_id = actor_id,
        ev_reason = reason, ev_payload_json = payload, ev_occurred_at = now\<rparr> (c_events c)\<rparr>"

definition write_job :: "lease_token \<Rightarrow> instant \<Rightarrow> (job_run \<Rightarrow> job_run) \<Rightarrow> control \<Rightarrow> control" where
  "write_job t now f c = c\<lparr>c_jobs := update_where (active_lease t now) f (c_jobs c)\<rparr>"

definition seconds :: "int \<Rightarrow> int" where
  "seconds n = n * 1000000"

definition heartbeat_claim :: "lease_token \<Rightarrow> int \<Rightarrow> instant \<Rightarrow> control \<Rightarrow> (bool \<times> control) result" where
  "heartbeat_claim t lease_seconds now c =
     (case lock_active_execution_state c t False now of
        None \<Rightarrow> Inr (False, c)
      | Some _ \<Rightarrow>
          if count_where (token_component t) (c_components c) \<noteq> 1
          then Inl (RuntimeErr ''active attempt is not bound to the claimed worker component'')
          else Inr (True, (write_job t now (\<lambda>j. j\<lparr>jr_heartbeat_at := Some now, jr_lease_expires_at := Some (now + seconds lease_seconds)\<rparr>) c)
                 \<lparr>c_components := update_where (token_component t) (\<lambda>h. h\<lparr>ch_last_heartbeat_at := now, ch_updated_at := now\<rparr>) (c_components c)\<rparr>))"

text \<open>What ends an attempt: the job is written, the attempt is finished, the component is released, an event is recorded.\<close>

definition end_attempt ::
  "lease_token \<Rightarrow> instant \<Rightarrow> (job_run \<Rightarrow> job_run) \<Rightarrow> string \<Rightarrow> string option \<Rightarrow> string option \<Rightarrow> string \<Rightarrow> string \<Rightarrow> string
     \<Rightarrow> string option \<Rightarrow> pydict \<Rightarrow> control \<Rightarrow> (bool \<times> control) result" where
  "end_attempt t now f exit_type error_code error_summary component_status event_type to_status reason payload c =
     bind_result (finish_attempt t now exit_type error_code error_summary (write_job t now f c)) (\<lambda>c1.
     bind_result (release_component_attempt t now component_status c1) (\<lambda>c2.
       Inr (True, add_job_event (lt_job_id t) (Some (lt_attempt_id t)) event_type (Some ''running'') (Some to_status) (Some (lt_lease_owner t))
                    now reason payload c2)))"

definition complete_claim :: "lease_token \<Rightarrow> int \<Rightarrow> instant \<Rightarrow> control \<Rightarrow> (bool \<times> control) result" where
  "complete_claim t success_count now c =
     (case lock_active_execution_state c t False now of
        None \<Rightarrow> Inr (False, c)
      | Some _ \<Rightarrow>
          end_attempt t now (\<lambda>j. j\<lparr>jr_status := ''success'', jr_success_count := success_count, jr_failed_count := 0, jr_finished_at := Some now,
              jr_lease_owner := None, jr_lease_expires_at := None, jr_next_retry_at := None, jr_error_code := None, jr_error_summary := None,
              jr_error_message := None\<rparr>)
            ''success'' None None ''healthy'' ''job_succeeded'' ''success'' None [] c)"

definition failed_job :: "string \<Rightarrow> int option \<Rightarrow> string \<Rightarrow> string \<Rightarrow> bool \<Rightarrow> instant \<Rightarrow> job_run \<Rightarrow> job_run" where
  "failed_job status delay_seconds error_code error_summary pause now j =
     j\<lparr>jr_status := status, jr_finished_at := (if status = ''failed'' then Some now else None), jr_lease_owner := None, jr_lease_expires_at := None,
       jr_next_retry_at := map_option (\<lambda>d. now + seconds d) delay_seconds, jr_error_code := Some error_code, jr_error_summary := Some error_summary,
       jr_error_message := Some error_summary, jr_failed_count := (if pause then jr_failed_count j else 1),
       jr_quota_pause_count := (if pause then jr_quota_pause_count j + 1 else jr_quota_pause_count j)\<rparr>"

definition fail_claim ::
  "lease_token \<Rightarrow> string \<Rightarrow> int option \<Rightarrow> string \<Rightarrow> string \<Rightarrow> string \<Rightarrow> bool \<Rightarrow> instant \<Rightarrow> control \<Rightarrow> (bool \<times> control) result" where
  "fail_claim t status delay_seconds exit_type error_code error_summary pause now c =
     (case lock_active_execution_state c t False now of
        None \<Rightarrow> Inr (False, c)
      | Some _ \<Rightarrow>
          end_attempt t now (failed_job status delay_seconds error_code error_summary pause now)
            exit_type (Some error_code) (Some error_summary) (if status = ''retry_wait'' then ''degraded'' else ''unhealthy'')
            (if status = ''retry_wait'' then ''job_retry_scheduled'' else ''job_failed'') status (Some error_summary)
            [(''error_code'', PStr error_code), (''delay_seconds'', (case delay_seconds of None \<Rightarrow> PNone | Some d \<Rightarrow> PInt d))] c)"

definition cancel_claim :: "lease_token \<Rightarrow> string \<Rightarrow> instant \<Rightarrow> control \<Rightarrow> (bool \<times> control) result" where
  "cancel_claim t reason now c =
     (case lock_active_execution_state c t True now of
        None \<Rightarrow> Inr (False, c)
      | Some _ \<Rightarrow>
          end_attempt t now (\<lambda>j. j\<lparr>jr_status := ''cancelled'', jr_finished_at := Some now, jr_lease_owner := None, jr_lease_expires_at := None,
              jr_next_retry_at := None\<rparr>)
            ''cancelled'' None None ''healthy'' ''job_cancelled'' ''cancelled'' (Some reason) [] c)"

section \<open>The operations of a token\<close>

definition heartbeat_job :: "lease_token \<Rightarrow> int \<Rightarrow> instant \<Rightarrow> control \<Rightarrow> (bool \<times> control) result" where
  "heartbeat_job t lease_seconds now c =
     (if lease_seconds \<le> 0 then Inl (ValueError ''lease_seconds must be positive'') else heartbeat_claim t lease_seconds now c)"

definition record_attempt_observation ::
  "lease_token \<Rightarrow> int option \<Rightarrow> int option \<Rightarrow> string option \<Rightarrow> string option \<Rightarrow> instant \<Rightarrow> control \<Rightarrow> (bool \<times> control) result" where
  "record_attempt_observation t exit_code rss_peak_bytes error_code error_summary now c =
     (if (case rss_peak_bytes of None \<Rightarrow> False | Some n \<Rightarrow> n < 0) then Inl (ValueError ''rss_peak_bytes cannot be negative'')
      else case lock_active_execution_state c t False now of
             None \<Rightarrow> Inr (False, c)
           | Some _ \<Rightarrow>
               Inr (count_where (token_attempt t) (c_attempts c) = 1,
                    c\<lparr>c_attempts := update_where (token_attempt t)
                        (\<lambda>a. a\<lparr>ja_exit_code := exit_code, ja_rss_peak_bytes := rss_peak_bytes, ja_error_code := error_code, ja_error_summary := error_summary\<rparr>)
                        (c_attempts c)\<rparr>))"

definition fail_job ::
  "lease_token \<Rightarrow> failure_kind \<Rightarrow> string \<Rightarrow> string \<Rightarrow> int \<Rightarrow> int option \<Rightarrow> instant \<Rightarrow> control \<Rightarrow> (retry_decision option \<times> control) result" where
  "fail_job t kind error_code error_summary base_delay fixed_delay now c =
     (let pause = is_scheduler_pause kind;
          known = (\<exists>j \<in> set (c_jobs c). jr_job_id j = lt_job_id t \<and> is_priority_resource_config (jr_config_version j))
      in if py_strip error_code = [] then Inl (ValueError ''error_code is required'')
         else if py_strip error_summary = [] then Inl (ValueError ''error_summary is required'')
         else if pause \<and> (case fixed_delay of None \<Rightarrow> True | Some d \<Rightarrow> d \<le> 0) then Inl (ValueError ''scheduler pause requires a positive fixed delay'')
         else if pause \<and> \<not> known then Inr (None, c)
         else bind_result (if pause then scheduler_pause_error_code kind else Inr error_code) (\<lambda>code.
              case lock_active_execution_state c t False now of
                None \<Rightarrow> Inr (None, c)
              | Some j \<Rightarrow>
                  bind_result (retry_policy kind (count_of (jr_attempt_count j)) (max_attempts_of j) (jr_quota_pause_count j)
                       (previous_attempt_exit_type c (lt_job_id t) (count_of (jr_attempt_count j))) base_delay fixed_delay) (\<lambda>d.
                  bind_result (fail_claim t (rd_status d) (rd_delay_seconds d) (attempt_exit_type kind d) (py_strip code) (py_strip error_summary) pause now c)
                    (\<lambda>(updated, c'). Inr (if updated then Some d else None, c')))))"

definition confirm_cancel_job :: "lease_token \<Rightarrow> string \<Rightarrow> instant \<Rightarrow> control \<Rightarrow> (bool \<times> control) result" where
  "confirm_cancel_job t reason now c =
     (if py_strip reason = [] then Inl (ValueError ''cancel reason is required'') else cancel_claim t (py_strip reason) now c)"

section \<open>Inspecting the control rows of a job\<close>

definition max_control_history_rows :: int where
  "max_control_history_rows = 10000"

record control_state =
  cs_unfinished_attempts :: "job_attempt list"
  cs_current_token_attempt :: "job_attempt option"
  cs_current_token_binding_valid :: bool
  cs_reasons :: "string list"
  cs_counter_anomaly :: bool
  cs_history_anomaly :: bool
  cs_observed_attempt_count :: int
  cs_observed_max_attempt_number :: "int option"
  cs_observed_max_lease_epoch :: "int option"

definition attempts_of :: "control \<Rightarrow> string \<Rightarrow> job_attempt list" where
  "attempts_of c job_id = sort_key (\<lambda>a. (ja_attempt_number a, ja_attempt_id a)) (filter (\<lambda>a. ja_job_id a = job_id) (c_attempts c))"

definition find_component :: "control \<Rightarrow> job_attempt \<Rightarrow> component_heartbeat option" where
  "find_component c a = find (\<lambda>h. ch_component_instance_id h = ja_component_instance_id a \<and> ch_component_type h = ja_component_type a) (c_components c)"

definition bound_to :: "component_heartbeat \<Rightarrow> job_attempt \<Rightarrow> bool" where
  "bound_to h a \<longleftrightarrow> ch_current_job_id h = Some (ja_job_id a) \<and> ch_current_attempt_id h = Some (ja_attempt_id a)"

definition binding_valid :: "control \<Rightarrow> job_attempt \<Rightarrow> bool" where
  "binding_valid c a = (case find_component c a of None \<Rightarrow> False | Some h \<Rightarrow> bound_to h a)"

fun first_of :: "(string \<times> bool) list \<Rightarrow> string list" where
  "first_of [] = []"
| "first_of ((r, b) # rs) = (if b then [r] else []) @ first_of rs"

fun dedup :: "'a list \<Rightarrow> 'a list" where
  "dedup [] = []"
| "dedup (x # xs) = x # filter (\<lambda>y. y \<noteq> x) (dedup xs)"

definition max_or_zero :: "int list \<Rightarrow> int option" where
  "max_or_zero xs = (if xs = [] then None else Some (fold max (tl xs) (hd xs)))"

definition counter_reasons :: "job_run \<Rightarrow> job_attempt list \<Rightarrow> (string \<times> bool) list" where
  "counter_reasons j attempts =
     (let n = count_of (jr_attempt_count j); q = jr_quota_pause_count j; m = max_attempts_of j
      in [(''quota_pause_count_invalid'', q < 0), (''max_attempts_invalid'', m < 1 \<or> 3 < m),
          (''attempt_count_invalid'', n < 0 \<or> m + max q 0 < n), (''quota_pause_count_exceeds_attempt_count'', n < q)])"

definition epoch_reasons :: "job_run \<Rightarrow> job_attempt list \<Rightarrow> (string \<times> bool) list" where
  "epoch_reasons j attempts =
     (let n = count_of (jr_attempt_count j)
      in [(''lease_epoch_counter_mismatch'', count_of (jr_lease_epoch j) \<noteq> n), (''attempt_row_count_mismatch'', int (length attempts) \<noteq> n)])"

definition history_non_contiguous :: "job_run \<Rightarrow> job_attempt list \<Rightarrow> bool" where
  "history_non_contiguous j attempts =
     (let expected = [1..count_of (jr_attempt_count j)]
      in sort (map ja_attempt_number attempts) \<noteq> expected \<or> sort (map ja_lease_epoch attempts) \<noteq> expected
         \<or> (\<exists>a \<in> set attempts. ja_attempt_number a \<noteq> ja_lease_epoch a))"

definition pause_history_mismatch :: "job_run \<Rightarrow> job_attempt list \<Rightarrow> bool" where
  "pause_history_mismatch j attempts =
     (count_of (jr_attempt_count j) + 1 \<le> max_control_history_rows
      \<and> count_where (\<lambda>a. ja_finished_at a \<noteq> None \<and> (\<exists>m \<in> set scheduler_pause_markers. ja_error_code a = Some m)) attempts
          \<noteq> (if is_priority_resource_config (jr_config_version j) then jr_quota_pause_count j else 0))"

definition lease_reasons :: "job_run \<Rightarrow> job_attempt list \<Rightarrow> (string \<times> bool) list" where
  "lease_reasons j open_attempts =
     (let e = count_of (jr_lease_epoch j); waiting = (jr_status j = ''pending'' \<or> jr_status j = ''retry_wait'') in
      (if jr_status j = ''running''
       then [(''lease_owner_missing'', case jr_lease_owner j of None \<Rightarrow> True | Some w \<Rightarrow> py_strip w = []), (''lease_epoch_invalid'', e \<le> 0),
             (''unfinished_attempt_missing'', open_attempts = []), (''multiple_unfinished_attempts'', 1 < length open_attempts)]
       else if open_attempts \<noteq> [] then [(''unfinished_attempt_unexpected'', True)]
       else [(''active_lease_on_non_running'', waiting \<and> (jr_lease_owner j \<noteq> None \<or> jr_lease_expires_at j \<noteq> None))])
      @ [(''lease_epoch_invalid'', e < 0), (''lease_owner_missing'', e < 0 \<and> waiting \<and> \<not> truthy (jr_lease_owner j)),
         (''unfinished_attempt_missing'', e < 0 \<and> waiting \<and> open_attempts = []),
         (''current_token_attempt_missing'', e < 0 \<and> waiting \<and> open_attempts = [])])"

definition token_reasons :: "control \<Rightarrow> job_run \<Rightarrow> job_attempt option \<Rightarrow> (string \<times> bool) list" where
  "token_reasons c j current =
     (case current of
        None \<Rightarrow> [(''current_token_attempt_missing'', jr_status j = ''running'')]
      | Some a \<Rightarrow> [(''current_token_component_missing'', find_component c a = None),
                   (''component_type_invalid'', find_component c a \<noteq> None \<and> ja_component_type a \<noteq> ''worker''),
                   (''current_token_component_binding_mismatch'', find_component c a \<noteq> None \<and> ja_component_type a = ''worker'' \<and> \<not> binding_valid c a)])"

definition stale_binding :: "control \<Rightarrow> job_attempt \<Rightarrow> bool" where
  "stale_binding c a \<longleftrightarrow> ja_finished_at a \<noteq> None \<and> binding_valid c a"

definition inspect_expired_running_control :: "control \<Rightarrow> job_run \<Rightarrow> control_state" where
  "inspect_expired_running_control c j =
     (let n = count_of (jr_attempt_count j);
          attempts = take (nat (min (max (n + 1) 1) max_control_history_rows)) (attempts_of c (jr_job_id j));
          open_attempts = filter (\<lambda>a. ja_finished_at a = None) attempts;
          current = find (\<lambda>a. ja_lease_epoch a = count_of (jr_lease_epoch j)) open_attempts;
          too_long = (max_control_history_rows < n + 1);
          bad_type = (\<exists>a \<in> set attempts. ja_component_type a \<noteq> ''worker'');
          stale = (\<exists>a \<in> set attempts. stale_binding c a);
          mismatch = pause_history_mismatch j attempts
      in \<lparr>cs_unfinished_attempts = open_attempts, cs_current_token_attempt = current,
          cs_current_token_binding_valid = (case current of None \<Rightarrow> False | Some a \<Rightarrow> binding_valid c a),
          cs_reasons = dedup (first_of (counter_reasons j attempts @ [(''attempt_history_exceeds_safety_limit'', too_long)] @ epoch_reasons j attempts
             @ [(''attempt_history_non_contiguous'', history_non_contiguous j attempts), (''history_component_type_invalid'', bad_type),
                (''quota_pause_count_history_mismatch'', mismatch)]
             @ lease_reasons j open_attempts @ token_reasons c j current @ [(''finished_attempt_component_binding_stale'', stale)])),
          cs_counter_anomaly = (first_of (counter_reasons j attempts @ epoch_reasons j attempts) \<noteq> [] \<or> mismatch),
          cs_history_anomaly = (too_long \<or> history_non_contiguous j attempts \<or> bad_type \<or> stale),
          cs_observed_attempt_count = int (length attempts),
          cs_observed_max_attempt_number = max_or_zero (map ja_attempt_number attempts),
          cs_observed_max_lease_epoch = max_or_zero (map ja_lease_epoch attempts)\<rparr>)"

section \<open>Quarantine\<close>

definition attempt_finished_timestamp :: "instant \<Rightarrow> instant \<Rightarrow> instant" where
  "attempt_finished_timestamp started_at now = (if now < started_at then started_at else now)"

definition release_bound :: "job_attempt \<Rightarrow> instant \<Rightarrow> component_heartbeat list \<Rightarrow> component_heartbeat list" where
  "release_bound a now = update_where
     (\<lambda>h. ch_component_instance_id h = ja_component_instance_id a \<and> ch_component_type h = ja_component_type a \<and> bound_to h a)
     (\<lambda>h. h\<lparr>ch_status := ''degraded'', ch_current_job_id := None, ch_current_attempt_id := None, ch_updated_at := now\<rparr>)"

definition put_job :: "job_run \<Rightarrow> control \<Rightarrow> control" where
  "put_job j c = c\<lparr>c_jobs := upd_row jr_job_id j (c_jobs c)\<rparr>"

definition quarantine_summary :: string where
  "quarantine_summary = ''job failed closed after control-plane identity validation''"

definition quarantined_attempt :: "instant \<Rightarrow> job_attempt \<Rightarrow> job_attempt" where
  "quarantined_attempt now a = a\<lparr>ja_finished_at := Some (attempt_finished_timestamp (ja_started_at a) now), ja_exit_type := Some ''fatal_failure'',
     ja_error_code := Some ''control_plane_identity_invalid'', ja_error_summary := Some quarantine_summary\<rparr>"

definition quarantined_job :: "instant \<Rightarrow> job_run \<Rightarrow> job_run" where
  "quarantined_job now j = j\<lparr>jr_status := ''failed'', jr_failed_count := max (jr_failed_count j) 1, jr_finished_at := Some now, jr_lease_owner := None,
     jr_lease_expires_at := None, jr_heartbeat_at := None, jr_next_retry_at := None, jr_error_code := Some ''control_plane_identity_invalid'',
     jr_error_summary := Some quarantine_summary, jr_error_message := Some quarantine_summary\<rparr>"

text \<open>The audit event of a quarantine: what was seen of the attempts and of the binding of the current token.\<close>

definition quarantine_payload :: "control \<Rightarrow> job_run \<Rightarrow> instant \<Rightarrow> control_state \<Rightarrow> pydict" where
  "quarantine_payload c j now st =
     (let all = attempts_of c (jr_job_id j); open_attempts = filter (\<lambda>a. ja_finished_at a = None) all;
          current = find (\<lambda>a. ja_lease_epoch a = count_of (jr_lease_epoch j)) open_attempts;
          valid = (case current of None \<Rightarrow> cs_current_token_binding_valid st
                   | Some a \<Rightarrow> if map_option ja_attempt_id (cs_current_token_attempt st) = Some (ja_attempt_id a)
                               then cs_current_token_binding_valid st else binding_valid c a);
          late = length (filter (\<lambda>a. now < ja_started_at a) open_attempts);
          released = length (filter (\<lambda>h. \<exists>a \<in> set all. ch_component_instance_id h = ja_component_instance_id a
                       \<and> ch_component_type h = ja_component_type a \<and> bound_to h a) (c_components c));
          kept = filter (\<lambda>r. \<not> (r = ''current_token_attempt_missing'' \<and> current \<noteq> None)) (cs_reasons st);
          typed = (case current of None \<Rightarrow> kept | Some a \<Rightarrow>
                     if ja_component_type a \<noteq> ''worker'' \<and> ''component_type_invalid'' \<notin> set kept then kept @ [''component_type_invalid''] else kept);
          reasons = (if current \<noteq> None \<and> \<not> valid \<and> ''current_token_component_binding_mismatch'' \<notin> set typed
                     then typed @ [''current_token_component_binding_mismatch''] else typed)
      in [(''error_code'', PStr ''control_plane_identity_invalid''), (''expired_lease_epoch'', PInt (count_of (jr_lease_epoch j))),
          (''attempt_present'', PBool (open_attempts \<noteq> [])), (''closed_attempt_count'', PInt (int (length open_attempts))),
          (''released_component_count'', PInt (int released)), (''missing_attempt'', PBool (current = None)),
          (''current_token_attempt_missing'', PBool (current = None)), (''current_token_binding_mismatch'', PBool (current \<noteq> None \<and> \<not> valid)),
          (''timestamp_anomaly'', PBool (0 < late)), (''timestamp_anomaly_attempt_count'', PInt (int late)),
          (''control_state_reasons'', PList (map PStr reasons)), (''counter_anomaly'', PBool (cs_counter_anomaly st)),
          (''history_anomaly'', PBool (cs_history_anomaly st)),
          (''observed_attempt_count'', PInt (max (cs_observed_attempt_count st) (int (length all)))),
          (''observed_max_attempt_number'', PInt (max (count_of (cs_observed_max_attempt_number st)) (count_of (max_or_zero (map ja_attempt_number all))))),
          (''observed_max_lease_epoch'', PInt (max (count_of (cs_observed_max_lease_epoch st)) (count_of (max_or_zero (map ja_lease_epoch all)))))])"

definition quarantine_job :: "job_run \<Rightarrow> instant \<Rightarrow> control \<Rightarrow> control" where
  "quarantine_job j now c =
     (let st = inspect_expired_running_control c j; all = attempts_of c (jr_job_id j);
          current = find (\<lambda>a. ja_finished_at a = None \<and> ja_lease_epoch a = count_of (jr_lease_epoch j)) all
      in add_job_event (jr_job_id j) (map_option ja_attempt_id current) ''job_quarantined'' (Some (jr_status j)) (Some ''failed'') None now
           (Some quarantine_summary) (quarantine_payload c j now st)
           (put_job (quarantined_job now j)
              (c\<lparr>c_attempts := update_where (\<lambda>a. ja_job_id a = jr_job_id j \<and> ja_finished_at a = None) (quarantined_attempt now) (c_attempts c),
                c_components := fold (\<lambda>a. release_bound a now) all (c_components c)\<rparr>)))"

section \<open>Claiming the heavy slot\<close>

text \<open>
  What a claim is answered from outside the tables: the action of the resource monitor, the advisory locks, the rows that another transaction
  has locked, and the planner gate \<open>parent_sync_gate_allows_claim\<close>.
\<close>

record claim_env =
  ce_resource_action :: "string option option"
  ce_global_lock :: bool
  ce_date_lock :: "job_run \<Rightarrow> bool"
  ce_locked :: "string list"
  ce_gate :: "control \<Rightarrow> job_run \<Rightarrow> bool"

definition resource_admission_allows_job :: "string option option \<Rightarrow> job_run \<Rightarrow> bool" where
  "resource_admission_allows_job decision j =
     (case decision of
        None \<Rightarrow> True
      | Some action \<Rightarrow>
          if action = Some ''allow'' then True
          else if action \<noteq> Some ''drain'' then False
          else is_priority_resource_config (jr_config_version j)
               \<and> (is_dict (jr_metadata_json j) \<and> dget (the_dict (jr_metadata_json j)) ''priority_purpose'' = PStr ''daily_required''))"

definition in_heavy_slot :: "job_run \<Rightarrow> bool" where
  "in_heavy_slot j \<longleftrightarrow> jr_execution_slot j = Some ''heavy_sync'' \<or> jr_job_name j = ''settlement_rebuild''"

definition no_other_running_heavy_job :: "control \<Rightarrow> job_run \<Rightarrow> bool" where
  "no_other_running_heavy_job c j \<longleftrightarrow> \<not> (\<exists>x \<in> set (c_jobs c). jr_job_id x \<noteq> jr_job_id j \<and> jr_status x = ''running'' \<and> in_heavy_slot x)"

definition heavy_sync_rate_limit_cooldown_active :: "control \<Rightarrow> instant \<Rightarrow> bool" where
  "heavy_sync_rate_limit_cooldown_active c now \<longleftrightarrow>
     (\<exists>x \<in> set (c_jobs c). in_heavy_slot x \<and> jr_status x = ''retry_wait'' \<and> jr_error_code x = Some ''douyin_rate_limited''
        \<and> (case jr_next_retry_at x of None \<Rightarrow> False | Some t \<Rightarrow> now < t))"

definition heavy_claim_order_key :: "job_run \<Rightarrow> int \<times> int \<times> int \<times> int \<times> string" where
  "heavy_claim_order_key j =
     (if jr_job_kind j = Some ''parent_sync'' then 0 else 1, if jr_status j = ''running'' then 0 else 1,
      if jr_business_date j = None then 0 else 1, count_of (jr_business_date j), jr_job_id j)"

definition expired_running :: "instant \<Rightarrow> job_run \<Rightarrow> bool" where
  "expired_running now j \<longleftrightarrow> jr_status j = ''running'' \<and> (case jr_lease_expires_at j of None \<Rightarrow> False | Some e \<Rightarrow> e \<le> now)"

definition ready_to_start :: "instant \<Rightarrow> job_run \<Rightarrow> bool" where
  "ready_to_start now j \<longleftrightarrow>
     (jr_status j = ''pending'' \<or> jr_status j = ''retry_wait'' \<and> (case jr_next_retry_at j of None \<Rightarrow> False | Some t \<Rightarrow> t \<le> now))
     \<and> count_of (jr_attempt_count j) < (case jr_max_attempts j of None \<Rightarrow> 3 | Some m \<Rightarrow> m) + jr_quota_pause_count j"

definition parent_targets_of :: "job_run \<Rightarrow> pyval option" where
  "parent_targets_of j = (if is_dict (jr_metadata_json j) then map_of (the_dict (jr_metadata_json j)) ''parent_targets'' else None)"

definition successful_parent_exists :: "control \<Rightarrow> job_run \<Rightarrow> bool" where
  "successful_parent_exists c j \<longleftrightarrow>
     (\<exists>p \<in> set (c_jobs c). jr_parent_job_id p \<noteq> None \<and> jr_parent_job_id p = jr_parent_job_id j \<and> jr_job_kind p = Some ''parent_sync''
        \<and> jr_status p = ''success'' \<and> jr_execution_slot p = Some ''heavy_sync'' \<and> jr_business_date p = None
        \<and> jr_data_source p \<noteq> None \<and> jr_data_source p = jr_data_source j \<and> jr_config_version p \<noteq> None \<and> jr_config_version p = jr_config_version j)"

definition heavy_candidate :: "control \<Rightarrow> string list \<Rightarrow> string option \<Rightarrow> instant \<Rightarrow> job_run \<Rightarrow> bool" where
  "heavy_candidate c job_kinds job_id now j \<longleftrightarrow>
     (case jr_job_kind j of None \<Rightarrow> False | Some k \<Rightarrow> k \<in> set job_kinds) \<and> jr_execution_slot j = Some ''heavy_sync''
     \<and> (ready_to_start now j \<or> expired_running now j) \<and> no_other_running_heavy_job c j
     \<and> (jr_job_kind j \<noteq> Some ''date_sync'' \<or> jr_business_date j \<noteq> None)
     \<and> (expired_running now j \<or> jr_job_kind j \<noteq> Some ''date_sync''
        \<or> ((case parent_targets_of j of None \<Rightarrow> True | Some v \<Rightarrow> is_list v)
           \<and> (parent_targets_of j \<in> {None, Some (PList [])} \<or> successful_parent_exists c j)))
     \<and> (case job_id of None \<Rightarrow> True | Some k \<Rightarrow> jr_job_id j = k)"

text \<open>What becomes of a candidate: it is taken, it is quarantined, it is passed over, or an assertion on its row fails.\<close>

datatype verdict = Take | Quarantine | Pass | Abort

definition judge_candidate :: "claim_env \<Rightarrow> control \<Rightarrow> instant \<Rightarrow> job_run \<Rightarrow> verdict" where
  "judge_candidate E c now j =
     (if expired_running now j \<and> cs_reasons (inspect_expired_running_control c j) \<noteq> [] then Quarantine
      else if (jr_status j = ''pending'' \<or> jr_status j = ''retry_wait'') \<and> cs_reasons (inspect_expired_running_control c j) \<noteq> [] then Quarantine
      else if \<not> ce_gate E c j then if expired_running now j then Quarantine else Pass
      else if \<not> resource_admission_allows_job (ce_resource_action E) j then Pass
      else if jr_job_kind j = Some ''date_sync''
      then if jr_business_date j = None \<or> jr_data_source j = None \<or> jr_config_version j = None then Abort
           else if \<not> ce_date_lock E j then Pass else Take
      else Take)"

text \<open>
  The keyset loop visits the jobs in the order of their keys; each is judged on the tables as the loop has left them.
\<close>

fun choose_job :: "claim_env \<Rightarrow> string list \<Rightarrow> string option \<Rightarrow> instant \<Rightarrow> string list \<Rightarrow> control \<Rightarrow> (job_run option \<times> control) result" where
  "choose_job E kinds job_id now [] c = Inr (None, c)"
| "choose_job E kinds job_id now (k # ks) c =
     (case find_row jr_job_id k (c_jobs c) of
        None \<Rightarrow> choose_job E kinds job_id now ks c
      | Some j \<Rightarrow>
          if \<not> heavy_candidate c kinds job_id now j \<or> k \<in> set (ce_locked E) then choose_job E kinds job_id now ks c
          else case judge_candidate E c now j of
                 Take \<Rightarrow> Inr (Some j, c)
               | Abort \<Rightarrow> Inl AssertionErr
               | Quarantine \<Rightarrow> if job_id \<noteq> None then Inr (None, quarantine_job j now c)
                               else choose_job E kinds job_id now ks (quarantine_job j now c)
               | Pass \<Rightarrow> if job_id \<noteq> None then Inr (None, c) else choose_job E kinds job_id now ks c)"

section \<open>Recovering an expired lease\<close>

definition preserve_previous_error :: "string \<Rightarrow> string option \<Rightarrow> pydict \<Rightarrow> string \<times> pydict" where
  "preserve_previous_error new_summary previous metadata =
     (let prev = py_strip (or_else previous []) in
      if prev \<noteq> [] \<and> prev \<noteq> new_summary
      then if metadata \<noteq> [] then (new_summary, dsetdefault metadata ''previous_error_summary'' (PStr prev))
           else (new_summary @ ''; previous: '' @ prev, metadata)
      else (new_summary, metadata))"

definition close_expired_attempt :: "job_attempt \<Rightarrow> instant \<Rightarrow> control \<Rightarrow> control" where
  "close_expired_attempt a now c =
     (let closed = a\<lparr>ja_finished_at := Some (attempt_finished_timestamp (ja_started_at a) now), ja_exit_type := Some ''crashed'',
            ja_error_code := Some ''lease_expired'',
            ja_error_summary := Some (fst (preserve_previous_error ''lease expired before the attempt completed'' (ja_error_summary a) []))\<rparr>;
          released = count_where (\<lambda>h. ch_component_instance_id h = ja_component_instance_id a \<and> ch_component_type h = ja_component_type a \<and> bound_to h a) (c_components c)
      in add_job_event (ja_job_id a) (Some (ja_attempt_id a)) ''lease_expired'' (Some ''running'') (Some ''running'') None now
           (Some ''lease expired before completion'')
           [(''expired_lease_epoch'', PInt (ja_lease_epoch a)), (''released_component_count'', PInt released),
            (''timestamp_anomaly'', PBool (now < ja_started_at a))]
           (c\<lparr>c_attempts := upd_row ja_attempt_id closed (c_attempts c), c_components := release_bound a now (c_components c)\<rparr>))"

definition exhausted_job :: "instant \<Rightarrow> job_run \<Rightarrow> job_run" where
  "exhausted_job now j =
     (let md = (if is_dict (jr_metadata_json j) then the_dict (jr_metadata_json j) else []);
          (summary, md') = preserve_previous_error ''lease expired after the final permitted attempt'' (jr_error_summary j) md
      in j\<lparr>jr_status := ''failed'', jr_failed_count := 1, jr_finished_at := Some now, jr_lease_owner := None, jr_lease_expires_at := None,
           jr_next_retry_at := None, jr_error_code := Some ''max_attempts_exhausted_after_crash'', jr_error_summary := Some summary,
           jr_error_message := Some summary, jr_metadata_json := (if md' = [] then jr_metadata_json j else PDict md')\<rparr>)"

definition fail_job_after_exhausted_crash :: "job_run \<Rightarrow> job_attempt \<Rightarrow> instant \<Rightarrow> control \<Rightarrow> control" where
  "fail_job_after_exhausted_crash j a now c =
     (let j' = exhausted_job now j
      in add_job_event (jr_job_id j) (Some (ja_attempt_id a)) ''job_failed'' (Some ''running'') (Some ''failed'') None now (jr_error_summary j')
           [(''error_code'', PStr ''max_attempts_exhausted_after_crash''), (''max_attempts'', PInt (max_attempts_of j)),
            (''quota_pause_count'', PInt (jr_quota_pause_count j)),
            (''effective_attempts'', PInt (max 0 (count_of (jr_attempt_count j) - jr_quota_pause_count j)))]
           (put_job j' c))"

section \<open>Taking the job\<close>

definition lock_expired_attempt :: "control \<Rightarrow> string \<Rightarrow> int \<Rightarrow> job_attempt result" where
  "lock_expired_attempt c job_id epoch =
     (case find (\<lambda>a. ja_job_id a = job_id \<and> ja_lease_epoch a = epoch \<and> ja_finished_at a = None) (c_attempts c) of
        None \<Rightarrow> Inl (RuntimeErr ''expired fenced job has no matching attempt record'')
      | Some a \<Rightarrow> Inr a)"

definition lock_worker_component :: "control \<Rightarrow> string \<Rightarrow> job_attempt option \<Rightarrow> component_heartbeat option result" where
  "lock_worker_component c component_instance_id previous =
     (case find_row ch_component_instance_id component_instance_id (c_components c) of
        None \<Rightarrow> Inr None
      | Some h \<Rightarrow>
          if ch_component_type h \<noteq> ''worker'' then Inl (RuntimeErr ''component instance is registered with a non-worker type'')
          else if ch_current_job_id h = None \<and> ch_current_attempt_id h = None then Inr (Some h)
          else if (case previous of None \<Rightarrow> False | Some a \<Rightarrow> bound_to h a) then Inr (Some h)
          else Inl (RuntimeErr ''worker component is already bound to another execution''))"

definition prepare_worker_component :: "string \<Rightarrow> instant \<Rightarrow> component_heartbeat option \<Rightarrow> control \<Rightarrow> control" where
  "prepare_worker_component component_instance_id now existing c =
     c\<lparr>c_components := (case existing of
          None \<Rightarrow> add_row \<lparr>ch_component_instance_id = component_instance_id, ch_component_type = ''worker'', ch_status = ''healthy'',
                    ch_last_heartbeat_at = now, ch_current_job_id = None, ch_current_attempt_id = None, ch_updated_at = now\<rparr> (c_components c)
        | Some h \<Rightarrow> upd_row ch_component_instance_id (h\<lparr>ch_status := ''healthy'', ch_last_heartbeat_at := now, ch_updated_at := now\<rparr>) (c_components c))\<rparr>"

definition claimed_job :: "string \<Rightarrow> int \<Rightarrow> instant \<Rightarrow> job_run \<Rightarrow> job_run" where
  "claimed_job lease_owner lease_seconds now j =
     j\<lparr>jr_status := ''running'', jr_attempt_count := Some (count_of (jr_attempt_count j) + 1), jr_lease_owner := Some lease_owner,
       jr_lease_epoch := Some (count_of (jr_lease_epoch j) + 1), jr_lease_expires_at := Some (now + seconds lease_seconds), jr_next_retry_at := None,
       jr_finished_at := None, jr_current_stage := (case jr_current_stage j of None \<Rightarrow> Some ''collect'' | Some s \<Rightarrow> Some s),
       jr_error_code := None, jr_error_summary := None, jr_error_message := None\<rparr>"

definition new_attempt :: "job_run \<Rightarrow> string \<Rightarrow> string \<Rightarrow> instant \<Rightarrow> job_attempt" where
  "new_attempt j attempt_id component_instance_id now =
     \<lparr>ja_attempt_id = attempt_id, ja_job_id = jr_job_id j, ja_attempt_number = count_of (jr_attempt_count j) + 1,
      ja_lease_epoch = count_of (jr_lease_epoch j) + 1, ja_component_type = ''worker'', ja_component_instance_id = component_instance_id,
      ja_started_at = now, ja_finished_at = None, ja_exit_type = None, ja_exit_code = None, ja_rss_peak_bytes = None, ja_error_code = None,
      ja_error_summary = None\<rparr>"

definition add_attempt :: "job_attempt \<Rightarrow> control \<Rightarrow> control result" where
  "add_attempt a c =
     (if \<exists>x \<in> set (c_attempts c). ja_attempt_id x = ja_attempt_id a
           \<or> ja_job_id x = ja_job_id a \<and> (ja_attempt_number x = ja_attempt_number a \<or> ja_lease_epoch x = ja_lease_epoch a)
      then Inl (IntegrityError ''job_attempts'') else Inr (c\<lparr>c_attempts := add_row a (c_attempts c)\<rparr>))"

definition bind_component :: "string \<Rightarrow> job_attempt \<Rightarrow> instant \<Rightarrow> control \<Rightarrow> control" where
  "bind_component component_instance_id a now c =
     c\<lparr>c_components := update_where (\<lambda>h. ch_component_instance_id h = component_instance_id)
        (\<lambda>h. h\<lparr>ch_status := ''healthy'', ch_last_heartbeat_at := now, ch_current_job_id := Some (ja_job_id a),
               ch_current_attempt_id := Some (ja_attempt_id a), ch_updated_at := now\<rparr>) (c_components c)\<rparr>"

definition claimed_token :: "job_run \<Rightarrow> string \<Rightarrow> string \<Rightarrow> string \<Rightarrow> lease_token" where
  "claimed_token j attempt_id lease_owner component_instance_id =
     \<lparr>lt_job_id = jr_job_id j, lt_attempt_id = attempt_id, lt_attempt_number = count_of (jr_attempt_count j) + 1, lt_lease_owner = lease_owner,
      lt_lease_epoch = count_of (jr_lease_epoch j) + 1, lt_component_instance_id = component_instance_id, lt_business_date = jr_business_date j,
      lt_current_stage = (case jr_current_stage j of None \<Rightarrow> Some ''collect'' | Some s \<Rightarrow> Some s)\<rparr>"

definition start_attempt ::
  "job_run \<Rightarrow> job_attempt option \<Rightarrow> string \<Rightarrow> string \<Rightarrow> int \<Rightarrow> string \<Rightarrow> instant \<Rightarrow> control \<Rightarrow> (lease_token option \<times> control) result" where
  "start_attempt j previous lease_owner component_instance_id lease_seconds attempt_id now c =
     bind_result (lock_worker_component c component_instance_id previous) (\<lambda>existing.
       let c1 = prepare_worker_component component_instance_id now existing c;
           c2 = (case previous of None \<Rightarrow> c1 | Some a \<Rightarrow> close_expired_attempt a now c1);
           a = new_attempt j attempt_id component_instance_id now
       in bind_result (add_attempt a (put_job (claimed_job lease_owner lease_seconds now j) c2)) (\<lambda>c3.
            Inr (Some (claimed_token j attempt_id lease_owner component_instance_id),
                 add_job_event (jr_job_id j) (Some attempt_id) ''job_claimed'' (Some (jr_status j)) (Some ''running'') (Some lease_owner) now None
                   [(''lease_epoch'', PInt (count_of (jr_lease_epoch j) + 1))] (bind_component component_instance_id a now c3))))"

definition take_job ::
  "job_run \<Rightarrow> string \<Rightarrow> string \<Rightarrow> int \<Rightarrow> string \<Rightarrow> instant \<Rightarrow> control \<Rightarrow> (lease_token option \<times> control) result" where
  "take_job j lease_owner component_instance_id lease_seconds attempt_id now c =
     (if jr_status j = ''running''
      then bind_result (lock_expired_attempt c (jr_job_id j) (count_of (jr_lease_epoch j))) (\<lambda>a.
             if max_attempts_of j + jr_quota_pause_count j \<le> count_of (jr_attempt_count j)
             then Inr (None, fail_job_after_exhausted_crash j a now (close_expired_attempt a now c))
             else start_attempt j (Some a) lease_owner component_instance_id lease_seconds attempt_id now c)
      else start_attempt j None lease_owner component_instance_id lease_seconds attempt_id now c)"

definition claim_order :: "control \<Rightarrow> string list" where
  "claim_order c = map jr_job_id (sort_key heavy_claim_order_key (c_jobs c))"

definition claim_next_heavy_job ::
  "claim_env \<Rightarrow> string \<Rightarrow> string \<Rightarrow> int \<Rightarrow> string list \<Rightarrow> string option \<Rightarrow> string \<Rightarrow> instant \<Rightarrow> control \<Rightarrow> (lease_token option \<times> control) result" where
  "claim_next_heavy_job E lease_owner component_instance_id lease_seconds kinds job_id attempt_id now c =
     (if ce_resource_action E = Some (Some ''stop'') \<or> \<not> ce_global_lock E \<or> heavy_sync_rate_limit_cooldown_active c now then Inr (None, c)
      else bind_result (choose_job E kinds job_id now (claim_order c) c) (\<lambda>(chosen, c').
             case chosen of None \<Rightarrow> Inr (None, c')
             | Some j \<Rightarrow> take_job j lease_owner component_instance_id lease_seconds attempt_id now c'))"

definition validate_claim_inputs :: "string \<Rightarrow> string \<Rightarrow> int \<Rightarrow> unit result" where
  "validate_claim_inputs lease_owner component_instance_id lease_seconds =
     (if py_strip lease_owner = [] then Inl (ValueError ''lease_owner is required'')
      else if py_strip component_instance_id = [] then Inl (ValueError ''component_instance_id is required'')
      else if lease_seconds \<le> 0 then Inl (ValueError ''lease_seconds must be positive'') else Inr ())"

definition default_job_kinds :: "string list" where
  "default_job_kinds = [''parent_sync'', ''date_sync'', ''finalize'']"

definition claim_next_job ::
  "claim_env \<Rightarrow> string \<Rightarrow> string \<Rightarrow> int \<Rightarrow> string \<Rightarrow> instant \<Rightarrow> control \<Rightarrow> (lease_token option \<times> control) result" where
  "claim_next_job E lease_owner component_instance_id lease_seconds attempt_id now c =
     bind_result (validate_claim_inputs lease_owner component_instance_id lease_seconds) (\<lambda>_.
       claim_next_heavy_job E lease_owner component_instance_id lease_seconds default_job_kinds None attempt_id now c)"

definition claim_job ::
  "claim_env \<Rightarrow> string \<Rightarrow> string \<Rightarrow> string \<Rightarrow> int \<Rightarrow> string \<Rightarrow> instant \<Rightarrow> control \<Rightarrow> (lease_token option \<times> control) result" where
  "claim_job E job_id lease_owner component_instance_id lease_seconds attempt_id now c =
     bind_result (validate_claim_inputs lease_owner component_instance_id lease_seconds) (\<lambda>_.
       claim_next_heavy_job E lease_owner component_instance_id lease_seconds default_job_kinds (Some job_id) attempt_id now c)"

end
