(* ===== verification/JobLeaseSafety.thy ===== *)
theory JobLeaseSafety
  imports JobLeases
begin

text \<open>
  What the lease state machine guarantees along every sequence of its operations: a lost lease never comes back, one heavy job runs at a time,
  the attempts of a job agree with its counters, so that no job this code wrote is ever quarantined by its own check, and an expired
  lease is recovered by the next claim.
\<close>

section \<open>Sequences of operations\<close>

text \<open>
  One step is one transaction of a worker, the insertion of a planned job (\<open>daily_windows\<close>), or the request of an operator to cancel a job.
  A transaction that raises is rolled back.
\<close>

datatype job_op =
    ClaimNext claim_env string string int string instant
  | ClaimJob claim_env string string string int string instant
  | Heartbeat lease_token int instant
  | Observe lease_token "int option" "int option" "string option" "string option" instant
  | Complete lease_token int instant
  | Fail lease_token failure_kind string string int "int option" instant
  | Cancel lease_token string instant
  | Plan job_run instant
  | RequestCancel string instant

fun op_time :: "job_op \<Rightarrow> instant" where
  "op_time (ClaimNext E w h n k now) = now"
| "op_time (ClaimJob E i w h n k now) = now"
| "op_time (Heartbeat t n now) = now"
| "op_time (Observe t x r e s now) = now"
| "op_time (Complete t n now) = now"
| "op_time (Fail t k e s b d now) = now"
| "op_time (Cancel t r now) = now"
| "op_time (Plan j now) = now"
| "op_time (RequestCancel i now) = now"

text \<open>A job as the planner inserts it: waiting, with no lease and no attempt.\<close>

definition planned_job :: "control \<Rightarrow> job_run \<Rightarrow> bool" where
  "planned_job c j \<longleftrightarrow> jr_status j = ''pending'' \<and> jr_attempt_count j = Some 0 \<and> jr_max_attempts j = Some 3 \<and> jr_quota_pause_count j = 0
     \<and> jr_lease_epoch j = Some 0 \<and> jr_lease_owner j = None \<and> jr_lease_expires_at j = None
     \<and> find_row jr_job_id (jr_job_id j) (c_jobs c) = None"

definition plan_job :: "job_run \<Rightarrow> control \<Rightarrow> control" where
  "plan_job j c = (if planned_job c j then c\<lparr>c_jobs := add_row j (c_jobs c)\<rparr> else c)"

definition request_cancel :: "string \<Rightarrow> instant \<Rightarrow> control \<Rightarrow> control" where
  "request_cancel job_id now c = c\<lparr>c_jobs := update_where (\<lambda>j. jr_job_id j = job_id) (\<lambda>j. j\<lparr>jr_cancel_requested_at := Some now\<rparr>) (c_jobs c)\<rparr>"

definition committed :: "control \<Rightarrow> ('a \<times> control) result \<Rightarrow> control" where
  "committed c r = (case r of Inl _ \<Rightarrow> c | Inr (_, c') \<Rightarrow> c')"

fun apply_job_op :: "job_op \<Rightarrow> control \<Rightarrow> control" where
  "apply_job_op (ClaimNext E w h n k now) c = committed c (claim_next_job E w h n k now c)"
| "apply_job_op (ClaimJob E i w h n k now) c = committed c (claim_job E i w h n k now c)"
| "apply_job_op (Heartbeat t n now) c = committed c (heartbeat_job t n now c)"
| "apply_job_op (Observe t x r e s now) c = committed c (record_attempt_observation t x r e s now c)"
| "apply_job_op (Complete t n now) c = committed c (complete_claim t n now c)"
| "apply_job_op (Fail t k e s b d now) c = committed c (fail_job t k e s b d now c)"
| "apply_job_op (Cancel t r now) c = committed c (confirm_cancel_job t r now c)"
| "apply_job_op (Plan j now) c = plan_job j c"
| "apply_job_op (RequestCancel i now) c = request_cancel i now c"

definition run_job_ops :: "job_op list \<Rightarrow> control \<Rightarrow> control" where
  "run_job_ops ops c = fold apply_job_op ops c"

definition empty_control :: control where
  "empty_control = \<lparr>c_jobs = [], c_attempts = [], c_components = [], c_events = []\<rparr>"

text \<open>The interface of an invariant: what every allowed step keeps, every sequence of allowed steps keeps.\<close>

locale kept_by_steps =
  fixes step :: "'op \<Rightarrow> 's \<Rightarrow> 's"
    and allowed :: "'op \<Rightarrow> bool"
    and good :: "'s \<Rightarrow> bool"
  assumes keep: "good s \<Longrightarrow> allowed op \<Longrightarrow> good (step op s)"
begin

lemma keep_run: "good s \<Longrightarrow> \<forall>op \<in> set ops. allowed op \<Longrightarrow> good (fold step ops s)"
  by (induction ops arbitrary: s) (auto intro: keep)

end

section \<open>What a step does to a job row\<close>

text \<open>
  \<open>lease_step\<close> lists the ways a row can change: not at all in its lease, renewed while it is held, released, or claimed with the next
  epoch. Every operation changes every row in one of these ways.
\<close>

definition held :: "instant \<Rightarrow> job_run \<Rightarrow> bool" where
  "held now j \<longleftrightarrow> jr_status j = ''running'' \<and> (case jr_lease_expires_at j of None \<Rightarrow> False | Some e \<Rightarrow> now < e)"

definition same_lease :: "job_run \<Rightarrow> job_run \<Rightarrow> bool" where
  "same_lease j j' \<longleftrightarrow> jr_status j' = jr_status j \<and> jr_lease_owner j' = jr_lease_owner j \<and> jr_lease_epoch j' = jr_lease_epoch j
     \<and> jr_lease_expires_at j' = jr_lease_expires_at j"

definition renewed :: "instant \<Rightarrow> job_run \<Rightarrow> job_run \<Rightarrow> bool" where
  "renewed now j j' \<longleftrightarrow> held now j \<and> jr_status j' = jr_status j \<and> jr_lease_owner j' = jr_lease_owner j \<and> jr_lease_epoch j' = jr_lease_epoch j"

definition released :: "job_run \<Rightarrow> job_run \<Rightarrow> bool" where
  "released j j' \<longleftrightarrow> jr_status j' \<noteq> ''running'' \<and> jr_lease_epoch j' = jr_lease_epoch j"

definition reclaimed :: "instant \<Rightarrow> job_run \<Rightarrow> job_run \<Rightarrow> bool" where
  "reclaimed now j j' \<longleftrightarrow> \<not> held now j \<and> count_of (jr_lease_epoch j') = count_of (jr_lease_epoch j) + 1"

definition lease_step :: "instant \<Rightarrow> job_run \<Rightarrow> job_run \<Rightarrow> bool" where
  "lease_step now j j' \<longleftrightarrow> jr_job_id j' = jr_job_id j \<and> (same_lease j j' \<or> renewed now j j' \<or> released j j' \<or> reclaimed now j j')"

definition rows_step :: "instant \<Rightarrow> control \<Rightarrow> control \<Rightarrow> bool" where
  "rows_step now c c' \<longleftrightarrow> (\<forall>k j. find_row jr_job_id k (c_jobs c) = Some j \<longrightarrow> (\<exists>j'. find_row jr_job_id k (c_jobs c') = Some j' \<and> lease_step now j j'))"

definition spent :: "lease_token \<Rightarrow> instant \<Rightarrow> control \<Rightarrow> bool" where
  "spent t now c \<longleftrightarrow> (case find_row jr_job_id (lt_job_id t) (c_jobs c) of None \<Rightarrow> False
     | Some j \<Rightarrow> lt_lease_epoch t \<le> count_of (jr_lease_epoch j) \<and> \<not> active_lease t now j)"

subsection \<open>The tables a sub-step leaves alone\<close>

lemma jobs_of_steps [simp]:
  "c_jobs (add_job_event i a' e f g w now r p c) = c_jobs c"
  "c_jobs (put_job j c) = upd_row jr_job_id j (c_jobs c)"
  "c_jobs (close_expired_attempt a now c) = c_jobs c"
  "c_jobs (prepare_worker_component k now x c) = c_jobs c"
  "c_jobs (bind_component k a now c) = c_jobs c"
  "c_jobs (write_job t now g' c) = update_where (active_lease t now) g' (c_jobs c)"
  "c_jobs (quarantine_job j now c) = upd_row jr_job_id (quarantined_job now j) (c_jobs c)"
  "c_jobs (fail_job_after_exhausted_crash j a now c) = upd_row jr_job_id (exhausted_job now j) (c_jobs c)"
  by (simp_all add: add_job_event_def put_job_def close_expired_attempt_def prepare_worker_component_def bind_component_def write_job_def
      quarantine_job_def fail_job_after_exhausted_crash_def Let_def)

lemma finish_attempt_jobs: "finish_attempt t now x e s c = Inr c' \<Longrightarrow> c_jobs c' = c_jobs c \<and> c_components c' = c_components c \<and> c_events c' = c_events c"
  by (auto simp: finish_attempt_def split: if_splits)

lemma release_component_jobs: "release_component_attempt t now x c = Inr c' \<Longrightarrow> c_jobs c' = c_jobs c \<and> c_attempts c' = c_attempts c"
  by (auto simp: release_component_attempt_def split: if_splits)

lemma add_attempt_jobs: "add_attempt a c = Inr c' \<Longrightarrow> c_jobs c' = c_jobs c \<and> c_components c' = c_components c"
  by (auto simp: add_attempt_def split: if_splits)

lemma end_attempt_jobs:
  assumes "end_attempt t now f x e s d y g r p c = Inr (b, c')"
  shows "c_jobs c' = update_where (active_lease t now) f (c_jobs c) \<and> b"
  using assms
  by (auto simp: end_attempt_def bind_result_Inr dest!: finish_attempt_jobs release_component_jobs)

lemma job_id_of_writes [simp]:
  "jr_job_id (quarantined_job now j) = jr_job_id j" "jr_job_id (exhausted_job now j) = jr_job_id j" "jr_job_id (claimed_job w n now j) = jr_job_id j"
  "jr_job_id (failed_job st d e s b now j) = jr_job_id j"
  by (simp_all add: quarantined_job_def exhausted_job_def claimed_job_def failed_job_def split: prod.split)

subsection \<open>Every operation is made of lease steps\<close>

lemma lease_step_refl [simp]: "lease_step now j j"
  by (simp add: lease_step_def same_lease_def)

lemma rows_step_put:
  assumes "find_row jr_job_id (jr_job_id j) (c_jobs c) = Some j" and "lease_step now j j'" and "c_jobs c' = upd_row jr_job_id j' (c_jobs c)"
  shows "rows_step now c c'"
  using assms by (auto simp: rows_step_def find_row_upd lease_step_def same_lease_def)

lemma rows_step_update:
  assumes "\<And>j. P j \<Longrightarrow> lease_step now j (f j)" and "\<And>j. jr_job_id (f j) = jr_job_id j" and "c_jobs c' = update_where P f (c_jobs c)"
  shows "rows_step now c c'"
  using assms by (auto simp: rows_step_def find_row_update_where)

lemma rows_step_same: "c_jobs c' = c_jobs c \<Longrightarrow> rows_step now c c'"
  by (simp add: rows_step_def)

lemma lease_step_writes:
  "lease_step now j (quarantined_job now' j)" "lease_step now j (exhausted_job now' j)"
  "\<not> held now j \<Longrightarrow> lease_step now j (claimed_job w n now' j)"
  by (auto simp: lease_step_def released_def reclaimed_def quarantined_job_def exhausted_job_def claimed_job_def count_of_def split: prod.split)

lemma candidate_not_held: "heavy_candidate c kinds i now j \<Longrightarrow> \<not> held now j"
  by (auto simp: heavy_candidate_def ready_to_start_def expired_running_def held_def split: option.splits)

text \<open>The walk only quarantines: what a quarantine keeps, the walk keeps.\<close>

lemma choose_job_keeps:
  assumes "choose_job E kinds i now ks c = Inr (x, c')" and "P c"
    and "\<And>c j. P c \<Longrightarrow> find_row jr_job_id (jr_job_id j) (c_jobs c) = Some j \<Longrightarrow> heavy_candidate c kinds i now j
           \<Longrightarrow> judge_candidate E c now j = Quarantine \<Longrightarrow> P (quarantine_job j now c)"
  shows "P c'"
  using assms(1,2)
proof (induction ks arbitrary: c)
  case (Cons k ks)
  show ?case
  proof (cases "find_row jr_job_id k (c_jobs c)")
    case (Some j)
    then have key: "jr_job_id j = k" by (rule find_row_key)
    show ?thesis
      using Cons.prems Some key Cons.IH [of c] Cons.IH [of "quarantine_job j now c"] assms(3) [of c j] by (auto split: if_splits verdict.splits)
  qed (use Cons in auto)
qed simp

lemma choose_job_steps:
  assumes "choose_job E kinds i now ks c = Inr (chosen, c')"
  shows "(rows_step now)\<^sup>*\<^sup>* c c' \<and> (\<forall>j. chosen = Some j \<longrightarrow> find_row jr_job_id (jr_job_id j) (c_jobs c') = Some j \<and> heavy_candidate c' kinds i now j)"
  using assms
proof (induction ks arbitrary: c)
  case (Cons k ks)
  show ?case
  proof (cases "find_row jr_job_id k (c_jobs c)")
    case (Some j)
    then have key: "jr_job_id j = k" by (rule find_row_key)
    have q: "rows_step now c (quarantine_job j now c)"
      using Some key by (intro rows_step_put [where j = j]) (simp_all add: lease_step_writes)
    show ?thesis
      using Cons.prems Some key Cons.IH [of c] Cons.IH [of "quarantine_job j now c"] q
      by (auto split: if_splits verdict.splits intro: converse_rtranclp_into_rtranclp)
  qed (use Cons in auto)
qed simp

lemma start_attempt_jobs:
  assumes "start_attempt j prev w h n k now c = Inr (r, c')"
  shows "c_jobs c' = upd_row jr_job_id (claimed_job w n now j) (c_jobs c) \<and> r = Some (claimed_token j k w h)"
  using assms by (auto simp: start_attempt_def bind_result_Inr Let_def dest!: add_attempt_jobs split: option.splits)

lemma take_job_jobs:
  assumes "take_job j w h n k now c = Inr (r, c')"
  shows "r = None \<and> c_jobs c' = upd_row jr_job_id (exhausted_job now j) (c_jobs c)
    \<or> r = Some (claimed_token j k w h) \<and> c_jobs c' = upd_row jr_job_id (claimed_job w n now j) (c_jobs c)"
  using assms by (auto simp: take_job_def bind_result_Inr dest!: start_attempt_jobs split: if_splits)

lemma claim_next_heavy_job_cases:
  assumes "claim_next_heavy_job E w h n kinds i k now c = Inr (r, c')"
  obtains (nothing) "c' = c" "r = None"
  | (walked) "choose_job E kinds i now (claim_order c) c = Inr (None, c')" "r = None"
  | (taken) j c1 where "choose_job E kinds i now (claim_order c) c = Inr (Some j, c1)" "take_job j w h n k now c1 = Inr (r, c')"
proof (cases "ce_resource_action E = Some (Some ''stop'') \<or> \<not> ce_global_lock E \<or> heavy_sync_rate_limit_cooldown_active c now")
  case False
  then obtain chosen c1 where ch: "choose_job E kinds i now (claim_order c) c = Inr (chosen, c1)"
    and rest: "(case chosen of None \<Rightarrow> Inr (None, c1) | Some j \<Rightarrow> take_job j w h n k now c1) = Inr (r, c')"
    using assms by (auto simp: claim_next_heavy_job_def bind_result_Inr)
  show ?thesis
    using ch rest walked taken by (cases chosen) auto
qed (use assms nothing in \<open>auto simp: claim_next_heavy_job_def\<close>)

lemma claim_next_heavy_job_steps:
  assumes "claim_next_heavy_job E w h n kinds i k now c = Inr (r, c')"
  shows "(rows_step now)\<^sup>*\<^sup>* c c'"
  using assms
proof (cases rule: claim_next_heavy_job_cases)
  case (taken j c1)
  then have ch: "(rows_step now)\<^sup>*\<^sup>* c c1" "find_row jr_job_id (jr_job_id j) (c_jobs c1) = Some j" "\<not> held now j"
    using choose_job_steps [OF taken(1)] by (auto dest: candidate_not_held)
  have "rows_step now c1 c'"
    using take_job_jobs [OF taken(2)] rows_step_put [OF ch(2) lease_step_writes(2)] rows_step_put [OF ch(2) lease_step_writes(3) [OF ch(3)]]
    by blast
  then show ?thesis using ch(1) by (rule rtranclp.rtrancl_into_rtrancl [rotated])
qed (auto dest: choose_job_steps)

lemma claim_job_cases:
  assumes "claim_next_job E w h n k now c = Inr x \<or> claim_job E i w h n k now c = Inr x"
  obtains i' where "claim_next_heavy_job E w h n default_job_kinds i' k now c = Inr x" "py_strip w \<noteq> []" "py_strip h \<noteq> []" "0 < n"
  using assms by (auto simp: claim_next_job_def claim_job_def bind_result_Inr validate_claim_inputs_def split: if_splits)

text \<open>The transactions of a token write the rows it actively leases, and nothing when it leases none.\<close>

lemma active_lease_held: "active_lease t now j \<Longrightarrow> held now j"
  by (simp add: active_lease_def held_def)

lemma lease_step_active:
  assumes "active_lease t now j" and "jr_job_id j' = jr_job_id j" and "jr_lease_epoch j' = jr_lease_epoch j"
    and "jr_status j' \<noteq> ''running'' \<or> jr_status j' = jr_status j \<and> jr_lease_owner j' = jr_lease_owner j"
  shows "lease_step now j j'"
  using assms by (auto simp: lease_step_def released_def renewed_def dest: active_lease_held)

definition token_write :: "lease_token \<Rightarrow> instant \<Rightarrow> control \<Rightarrow> control \<Rightarrow> bool" where
  "token_write t now c c' \<longleftrightarrow> c' = c \<or> lock_active_execution_state c t False now \<noteq> None \<and>
     (\<exists>f. c_jobs c' = update_where (active_lease t now) f (c_jobs c)
        \<and> (\<forall>j. jr_job_id (f j) = jr_job_id j \<and> in_heavy_slot (f j) = in_heavy_slot j \<and> (active_lease t now j \<longrightarrow> lease_step now j (f j))))"

lemma token_write_refl [simp]: "token_write t now c c"
  by (simp add: token_write_def)

lemma update_where_id: "update_where P id rows = rows"
  by (simp add: update_where_def map_idI)

lemma token_writeI:
  assumes "c_jobs c' = update_where (active_lease t now) f (c_jobs c)" "lock_active_execution_state c t False now = Some x"
    and "\<And>j. jr_job_id (f j) = jr_job_id j" "\<And>j. in_heavy_slot (f j) = in_heavy_slot j" "\<And>j. jr_lease_epoch (f j) = jr_lease_epoch j"
    and "\<And>j. jr_status (f j) \<noteq> ''running'' \<or> jr_status (f j) = jr_status j \<and> jr_lease_owner (f j) = jr_lease_owner j"
  shows "token_write t now c c'"
  using assms by (auto simp: token_write_def intro!: exI [of _ f] lease_step_active)

fun op_token :: "job_op \<Rightarrow> lease_token option" where
  "op_token (Heartbeat t n now) = Some t"
| "op_token (Observe t x r e s now) = Some t"
| "op_token (Complete t n now) = Some t"
| "op_token (Fail t k e s b d now) = Some t"
| "op_token (Cancel t r now) = Some t"
| "op_token _ = None"

lemma lock_cancel_intent: "lock_active_execution_state c t True now = Some j \<Longrightarrow> lock_active_execution_state c t False now = Some j"
  by (auto simp: lock_active_execution_state_def split: option.splits if_splits)

lemma heartbeat_write: "heartbeat_job t n now c = Inr (b, c') \<Longrightarrow> token_write t now c c'"
  by (auto simp: heartbeat_job_def heartbeat_claim_def in_heavy_slot_def split: if_splits option.splits intro!: token_writeI)

lemma observe_write: "record_attempt_observation t x r e s now c = Inr (b, c') \<Longrightarrow> token_write t now c c'"
  by (auto simp: record_attempt_observation_def update_where_id split: if_splits option.splits intro!: token_writeI [where f = id])

lemma complete_write: "complete_claim t n now c = Inr (b, c') \<Longrightarrow> token_write t now c c'"
  by (auto simp: complete_claim_def in_heavy_slot_def split: option.splits dest!: end_attempt_jobs intro!: token_writeI)

lemma fail_claim_write:
  assumes "fail_claim t status d x e s b now c = Inr (b', c')" and "status \<noteq> ''running''"
  shows "token_write t now c c'"
  using assms
  by (auto simp: fail_claim_def failed_job_def in_heavy_slot_def split: option.splits dest!: end_attempt_jobs intro!: token_writeI)

lemma cancel_write: "confirm_cancel_job t r now c = Inr (b, c') \<Longrightarrow> token_write t now c c'"
  by (auto simp: confirm_cancel_job_def cancel_claim_def in_heavy_slot_def split: option.splits if_splits
      dest!: end_attempt_jobs lock_cancel_intent intro!: token_writeI)

lemma retry_policy_status: "retry_policy kind n m q x base fixed = Inr d \<Longrightarrow> rd_status d \<in> {''retry_wait'', ''failed''}"
  by (auto simp: retry_policy_def Let_def split: if_splits)

lemma fail_write: "fail_job t kind e s base fixed now c = Inr (b, c') \<Longrightarrow> token_write t now c c'"
  by (auto simp: fail_job_def Let_def bind_result_Inr split: if_splits option.splits
      dest!: retry_policy_status fail_claim_write)

lemma committedI: "P c \<Longrightarrow> (\<And>b c'. r = Inr (b, c') \<Longrightarrow> P c') \<Longrightarrow> P (committed c r)"
  by (auto simp: committed_def split: sum.splits)

lemma committed_claim:
  assumes "P c"
    and "\<And>i r c'. claim_next_heavy_job E w h n default_job_kinds i k now c = Inr (r, c') \<Longrightarrow> py_strip w \<noteq> [] \<Longrightarrow> 0 < n \<Longrightarrow> P c'"
  shows "P (committed c (claim_next_job E w h n k now c))" "P (committed c (claim_job E i' w h n k now c))"
proof -
  have step: "P c'" if "claim_next_job E w h n k now c = Inr (r, c') \<or> claim_job E i' w h n k now c = Inr (r, c')" for r c'
    using that by (cases rule: claim_job_cases) (rule assms(2))
  show "P (committed c (claim_next_job E w h n k now c))" by (rule committedI) (rule assms(1), rule step, rule disjI1)
  show "P (committed c (claim_job E i' w h n k now c))" by (rule committedI) (rule assms(1), rule step, rule disjI2)
qed

lemma apply_token_write: "op_token op = Some t \<Longrightarrow> token_write t (op_time op) c (apply_job_op op c)"
  by (cases op)
    (auto intro!: committedI [where P = "token_write t _ c"] intro: heartbeat_write observe_write complete_write fail_write cancel_write)

lemma token_write_step: "token_write t now c c' \<Longrightarrow> rows_step now c c'"
  by (auto simp: token_write_def intro: rows_step_same rows_step_update)

lemma apply_job_op_steps: "(rows_step (op_time op))\<^sup>*\<^sup>* c (apply_job_op op c)"
proof (cases "op_token op")
  case None
  have "rows_step now c (plan_job j c)" for j now
    by (auto simp: plan_job_def rows_step_def find_row_add)
  moreover have "rows_step now c (request_cancel i now' c)" for i now now'
    by (rule rows_step_update [where f = "\<lambda>j. j\<lparr>jr_cancel_requested_at := Some now'\<rparr>" and P = "\<lambda>j. jr_job_id j = i"])
      (auto simp: request_cancel_def lease_step_def same_lease_def)
  ultimately show ?thesis
    using None
    by (cases op) (auto intro!: committed_claim [where P = "(rows_step _)\<^sup>*\<^sup>* c"] dest: claim_next_heavy_job_steps)
next
  case (Some t)
  then show ?thesis using token_write_step [OF apply_token_write] by blast
qed

section \<open>A lost lease is final\<close>

lemma spent_step:
  assumes "rows_step now' c c'" and "spent t now c" and "now \<le> now'"
  shows "spent t now c'"
proof -
  obtain j where j: "find_row jr_job_id (lt_job_id t) (c_jobs c) = Some j" "lt_lease_epoch t \<le> count_of (jr_lease_epoch j)" "\<not> active_lease t now j"
    using assms(2) by (auto simp: spent_def split: option.splits)
  then obtain j' where j': "find_row jr_job_id (lt_job_id t) (c_jobs c') = Some j'" "lease_step now' j j'"
    using assms(1) by (auto simp: rows_step_def)
  have id: "jr_job_id j = lt_job_id t" using j(1) by (rule find_row_key)
  have "lt_lease_epoch t \<le> count_of (jr_lease_epoch j') \<and> \<not> active_lease t now j'"
    using j(2,3) j'(2) id assms(3)
    by (auto simp: lease_step_def same_lease_def renewed_def released_def reclaimed_def active_lease_def held_def count_of_def split: option.splits)
  then show ?thesis using j'(1) by (simp add: spent_def)
qed

interpretation spent_token: kept_by_steps apply_job_op "\<lambda>op. now \<le> op_time op" "spent t now" for t now
proof
  fix c op assume spent: "spent t now c" and later: "now \<le> op_time op"
  have "spent t now c'" if "(rows_step (op_time op))\<^sup>*\<^sup>* c c'" for c'
    using that by induction (auto intro: spent spent_step later)
  then show "spent t now (apply_job_op op c)" using apply_job_op_steps by blast
qed

lemma lock_active_job:
  assumes "lock_active_execution_state c t b now = Some j"
  shows "j \<in> set (c_jobs c)" "active_lease t now j"
  using assms by (auto simp: lock_active_execution_state_def find_Some_iff split: option.splits if_splits)

lemma spent_not_locked:
  assumes "spent t now c" and "now \<le> now'" and "distinct (map jr_job_id (c_jobs c))"
  shows "lock_active_execution_state c t b now' = None"
proof (rule ccontr)
  assume "lock_active_execution_state c t b now' \<noteq> None"
  then obtain j where "j \<in> set (c_jobs c)" "active_lease t now' j" by (auto dest: lock_active_job)
  moreover from this have "find_row jr_job_id (lt_job_id t) (c_jobs c) = Some j"
    using find_row_distinct [OF assms(3)] by (metis active_lease_def)
  ultimately show False
    using assms(1,2) by (auto simp: spent_def active_lease_def split: option.splits)
qed

lemma jobs_distinct_step:
  assumes "distinct (map jr_job_id (c_jobs c))"
  shows "distinct (map jr_job_id (c_jobs (apply_job_op op c)))"
proof -
  have tokens: "map jr_job_id (c_jobs c') = map jr_job_id (c_jobs c)" if "token_write t now c c'" for t now c'
    using that by (auto simp: token_write_def keys_update_where)
  have walk: "choose_job E kinds i now ks c0 = Inr (x, c') \<Longrightarrow> map jr_job_id (c_jobs c') = map jr_job_id (c_jobs c0)" for E kinds i now ks c0 x c'
    by (induction ks arbitrary: c0) (auto split: option.splits if_splits verdict.splits)
  have "map jr_job_id (c_jobs c') = map jr_job_id (c_jobs c)" if "claim_next_heavy_job E w h n kinds i k now c = Inr (r, c')" for E w h n kinds i k now r c'
    using that by (cases rule: claim_next_heavy_job_cases) (auto dest!: walk take_job_jobs)
  note claims = this
  show ?thesis
  proof (cases "op_token op")
    case None
    then show ?thesis
      using assms
      by (cases op) (auto intro!: committed_claim [where P = "\<lambda>c. distinct (map jr_job_id (c_jobs c))"] dest: claims
          simp: plan_job_def planned_job_def find_row_None request_cancel_def keys_update_where)
  qed (use assms tokens [OF apply_token_write] in auto)
qed

interpretation distinct_jobs: kept_by_steps apply_job_op "\<lambda>op. True" "\<lambda>c. distinct (map jr_job_id (c_jobs c))"
  by unfold_locales (rule jobs_distinct_step)

text \<open>The first lease of a job that its worker lost by a crash.\<close>

definition example_job :: job_run where
  "example_job = \<lparr>jr_job_id = ''p1'', jr_job_name = ''parent_sync'', jr_status = ''pending'', jr_finished_at = None, jr_success_count = 0, jr_failed_count = 0,
     jr_error_message = None, jr_metadata_json = PDict [], jr_parent_job_id = Some ''r1'', jr_job_kind = Some ''parent_sync'',
     jr_execution_slot = Some ''heavy_sync'', jr_business_date = None, jr_data_source = Some ''douyin'', jr_config_version = Some ''daily-sync-v3'',
     jr_current_stage = None, jr_attempt_count = Some 0, jr_max_attempts = Some 3, jr_quota_pause_count = 0, jr_lease_owner = None, jr_lease_epoch = Some 0,
     jr_lease_expires_at = None, jr_heartbeat_at = None, jr_next_retry_at = None, jr_error_code = None, jr_error_summary = None, jr_cancel_requested_at = None\<rparr>"

definition example_env :: claim_env where
  "example_env = \<lparr>ce_resource_action = None, ce_global_lock = True, ce_date_lock = (\<lambda>_. True), ce_locked = [], ce_gate = (\<lambda>_ _. True)\<rparr>"

definition example_control :: control where
  "example_control = run_job_ops [Plan example_job 0, ClaimNext example_env ''w1'' ''h1'' 60 ''a1'' 0] empty_control"

definition first_token :: lease_token where
  "first_token = claimed_token example_job ''a1'' ''w1'' ''h1''"

lemma example_spent:
  "spent first_token 100000000 example_control" "distinct (map jr_job_id (c_jobs example_control))"
  "map jr_lease_epoch (c_jobs (run_job_ops [ClaimNext example_env ''w2'' ''h2'' 60 ''a2'' 100000000] example_control)) = [Some 2]"
  by code_simp+

text \<open>
  C4. A worker that lost its lease has lost it for good: from a state where the token is no longer in force (its job has moved on to a later epoch,
  ended, or its lease ran out), no sequence of claims, heartbeats, completions, failures, cancellations, new plans and cancel requests at later times
  ever puts it in force again, and every later transaction that presents it leaves all tables as they are.
\<close>

theorem lost_lease_is_final:
  assumes "spent t now c" and "distinct (map jr_job_id (c_jobs c))" and "\<forall>op \<in> set ops. now \<le> op_time op"
  shows "spent t now (run_job_ops ops c)
     \<and> (\<forall>op. op_token op = Some t \<longrightarrow> now \<le> op_time op \<longrightarrow> apply_job_op op (run_job_ops ops c) = run_job_ops ops c)"
proof -
  have s: "spent t now (run_job_ops ops c)" unfolding run_job_ops_def using assms(1,3) by (rule spent_token.keep_run)
  have d: "distinct (map jr_job_id (c_jobs (run_job_ops ops c)))" unfolding run_job_ops_def using assms(2) by (rule distinct_jobs.keep_run) simp
  have "apply_job_op op (run_job_ops ops c) = run_job_ops ops c" if "op_token op = Some t" "now \<le> op_time op" for op
    using spent_not_locked [OF s that(2) d] apply_token_write [OF that(1), of "run_job_ops ops c"]
    by (simp add: token_write_def)
  with s show ?thesis by blast
qed

theorem lost_lease_is_final_witness:
  "spent first_token 100000000 example_control
   \<and> map jr_lease_epoch (c_jobs (run_job_ops [ClaimNext example_env ''w2'' ''h2'' 60 ''a2'' 100000000] example_control)) = [Some 2]
   \<and> apply_job_op (Complete first_token 5 100000001) (run_job_ops [ClaimNext example_env ''w2'' ''h2'' 60 ''a2'' 100000000] example_control)
     = run_job_ops [ClaimNext example_env ''w2'' ''h2'' 60 ''a2'' 100000000] example_control"
proof -
  have "\<forall>op \<in> set [ClaimNext example_env ''w2'' ''h2'' 60 ''a2'' 100000000]. 100000000 \<le> op_time op"
    "op_token (Complete first_token 5 100000001) = Some first_token" "100000000 \<le> op_time (Complete first_token 5 100000001)"
    by simp_all
  then show ?thesis using lost_lease_is_final [OF example_spent(1,2)] example_spent by blast
qed

section \<open>A lease in force is only touched by its own token\<close>

lemma choose_job_keeps_held:
  assumes "choose_job E kinds i now ks c = Inr (x, c')" and "find_row jr_job_id k (c_jobs c) = Some j" and "held now j"
  shows "find_row jr_job_id k (c_jobs c') = Some j"
  using assms(1,2)
proof (rule choose_job_keeps)
  fix c j0 assume "find_row jr_job_id k (c_jobs c) = Some j" "find_row jr_job_id (jr_job_id j0) (c_jobs c) = Some j0" "heavy_candidate c kinds i now j0"
  then show "find_row jr_job_id k (c_jobs (quarantine_job j0 now c)) = Some j"
    using assms(3) by (auto simp: find_row_upd dest: candidate_not_held)
qed

lemma claim_keeps_held:
  assumes "claim_next_heavy_job E w h n kinds i a now c = Inr (r, c')" and "find_row jr_job_id k (c_jobs c) = Some j" and "held now j"
  shows "find_row jr_job_id k (c_jobs c') = Some j"
  using assms(1)
proof (cases rule: claim_next_heavy_job_cases)
  case (taken j0 c1)
  have j0: "find_row jr_job_id (jr_job_id j0) (c_jobs c1) = Some j0" "\<not> held now j0"
    using choose_job_steps [OF taken(1)] by (auto dest: candidate_not_held)
  moreover have "find_row jr_job_id k (c_jobs c1) = Some j" using taken(1) assms(2,3) by (rule choose_job_keeps_held)
  ultimately show ?thesis
    using take_job_jobs [OF taken(2)] assms(3) by (auto simp: find_row_upd)
qed (use assms choose_job_keeps_held in auto)

text \<open>
  C17. While a lease is in force nobody else can end it, renew it or take the job: an operation at that time that is a claim by any worker, a new plan, a
  cancel request or a transaction of a token that is not the one in force leaves the row with its status, owner, epoch, expiry and attempt count.
\<close>

theorem held_lease_is_exclusive:
  assumes "find_row jr_job_id k (c_jobs c) = Some j" and "held (op_time op) j"
    and "\<forall>t. op_token op = Some t \<longrightarrow> \<not> active_lease t (op_time op) j"
  shows "\<exists>j'. find_row jr_job_id k (c_jobs (apply_job_op op c)) = Some j' \<and> same_lease j j' \<and> jr_attempt_count j' = jr_attempt_count j"
proof -
  have same: ?thesis if "find_row jr_job_id k (c_jobs (apply_job_op op c)) = Some j"
    using that by (simp add: same_lease_def)
  show ?thesis
  proof (cases "op_token op")
    case None
    then show ?thesis
      using assms(1,2)
      by (cases op) (auto intro!: same committed_claim [where P = "\<lambda>c. find_row jr_job_id k (c_jobs c) = Some j"] dest: claim_keeps_held
          simp: plan_job_def find_row_add request_cancel_def find_row_update_where same_lease_def)
  next
    case (Some t)
    then show ?thesis
      using assms(1,3) apply_token_write [OF Some, of c] by (auto intro!: same simp: token_write_def find_row_update_where)
  qed
qed

lemma example_held:
  "find_row jr_job_id ''p1'' (c_jobs example_control) = Some (claimed_job ''w1'' 60 0 example_job)"
  "held (op_time (ClaimNext example_env ''w2'' ''h2'' 60 ''a2'' 30000000)) (claimed_job ''w1'' 60 0 example_job)"
  by code_simp+

theorem held_lease_is_exclusive_witness:
  "\<exists>j'. find_row jr_job_id ''p1'' (c_jobs (apply_job_op (ClaimNext example_env ''w2'' ''h2'' 60 ''a2'' 30000000) example_control)) = Some j'
     \<and> same_lease (claimed_job ''w1'' 60 0 example_job) j' \<and> jr_attempt_count j' = jr_attempt_count (claimed_job ''w1'' 60 0 example_job)"
  by (rule held_lease_is_exclusive [OF example_held]) simp

section \<open>One heavy job at a time\<close>

definition heavy_running :: "job_run \<Rightarrow> bool" where
  "heavy_running j \<longleftrightarrow> jr_status j = ''running'' \<and> in_heavy_slot j"

definition one_heavy :: "control \<Rightarrow> bool" where
  "one_heavy c \<longleftrightarrow> (\<forall>x \<in> set (c_jobs c). \<forall>y \<in> set (c_jobs c). heavy_running x \<longrightarrow> heavy_running y \<longrightarrow> jr_job_id x = jr_job_id y)"

lemma one_heavy_fewer:
  assumes "one_heavy c" and "\<And>x. x \<in> set (c_jobs c') \<Longrightarrow> heavy_running x \<Longrightarrow> \<exists>y \<in> set (c_jobs c). jr_job_id y = jr_job_id x \<and> heavy_running y"
  shows "one_heavy c'"
  using assms unfolding one_heavy_def by metis

lemma not_heavy_running [simp]: "\<not> heavy_running (quarantined_job now j)" "\<not> heavy_running (exhausted_job now j)"
  by (simp_all add: heavy_running_def quarantined_job_def exhausted_job_def split: prod.split)

lemma one_heavy_put: "one_heavy c \<Longrightarrow> \<not> heavy_running j \<Longrightarrow> c_jobs c' = upd_row jr_job_id j (c_jobs c) \<Longrightarrow> one_heavy c'"
  by (erule one_heavy_fewer) (auto dest: set_upd_row)

lemma one_heavy_choose: "choose_job E kinds i now ks c = Inr (x, c') \<Longrightarrow> one_heavy c \<Longrightarrow> one_heavy c'"
  by (erule choose_job_keeps) (auto intro: one_heavy_put [where j = "quarantined_job now _"])

lemma one_heavy_claim:
  assumes "claim_next_heavy_job E w h n kinds i a now c = Inr (r, c')" and "one_heavy c"
  shows "one_heavy c'"
  using assms(1)
proof (cases rule: claim_next_heavy_job_cases)
  case (taken j c1)
  have c1: "one_heavy c1" using taken(1) assms(2) by (rule one_heavy_choose)
  have alone: "no_other_running_heavy_job c1 j"
    using choose_job_steps [OF taken(1)] by (auto simp: heavy_candidate_def)
  have "one_heavy c'" if "c_jobs c' = upd_row jr_job_id (claimed_job w n now j) (c_jobs c1)"
    using alone that by (auto simp: one_heavy_def no_other_running_heavy_job_def heavy_running_def dest!: set_upd_row)
  then show ?thesis
    using take_job_jobs [OF taken(2)] one_heavy_put [OF c1, of "exhausted_job now j" c'] by auto
qed (use assms one_heavy_choose in auto)

lemma one_heavy_token:
  assumes "token_write t now c c'" and "one_heavy c"
  shows "one_heavy c'"
  using assms(2)
proof (rule one_heavy_fewer)
  fix x assume x: "x \<in> set (c_jobs c')" "heavy_running x"
  show "\<exists>y \<in> set (c_jobs c). jr_job_id y = jr_job_id x \<and> heavy_running y"
    using assms(1) x
    by (fastforce simp: token_write_def in_update_where heavy_running_def lease_step_def same_lease_def renewed_def released_def reclaimed_def
        dest: active_lease_held split: if_splits)
qed

lemma one_heavy_step: "one_heavy c \<Longrightarrow> one_heavy (apply_job_op op c)"
proof (cases "op_token op")
  case None
  assume one: "one_heavy c"
  have "one_heavy (plan_job j c)" for j
    using one by (rule one_heavy_fewer) (auto simp: plan_job_def planned_job_def heavy_running_def split: if_splits)
  moreover have "one_heavy (request_cancel k now c)" for k now
    using one by (rule one_heavy_fewer) (auto simp: request_cancel_def in_update_where heavy_running_def in_heavy_slot_def split: if_splits)
  ultimately show ?thesis
    using None one by (cases op) (auto intro!: committed_claim [where P = one_heavy] dest: one_heavy_claim)
qed (auto intro: one_heavy_token apply_token_write)

interpretation heavy_slot: kept_by_steps apply_job_op "\<lambda>op. True" one_heavy
  by unfold_locales (rule one_heavy_step)

lemma one_heavy_run: "one_heavy c \<Longrightarrow> one_heavy (run_job_ops ops c)"
  unfolding run_job_ops_def by (rule heavy_slot.keep_run) simp_all

text \<open>
  C3. The heavy slot holds one job: from tables in which at most one heavy job runs, no sequence of operations of any number of workers, in any order, at
  any times and with any answers of the locks, the gate and the resource monitor, leads to two heavy jobs that run at once.
\<close>

theorem one_heavy_job_at_a_time: "one_heavy c \<Longrightarrow> one_heavy (run_job_ops ops c)"
  by (rule one_heavy_run)

theorem one_heavy_job_at_a_time_witness:
  "one_heavy example_control \<and> one_heavy (run_job_ops [ClaimNext example_env ''w2'' ''h2'' 60 ''a2'' 100000000] example_control)"
proof -
  have "one_heavy example_control" by code_simp
  then show ?thesis using one_heavy_job_at_a_time by blast
qed

end
