(* ===== verification/JobControl.thy ===== *)
theory JobControl
  imports JobLeaseSafety
begin

text \<open>
  The control rows agree. Along every sequence of operations from empty tables the attempts of a job are numbered \<open>1\<close> to its attempt count,
  its epoch is that count, a running job has exactly one open attempt and a worker bound to it, and the pauses of its history are its pause
  count. Hence the check before a claim condemns no job that this code wrote, the budget of attempts is respected, and an expired lease is recovered.
\<close>

section \<open>The invariant\<close>

definition pause_marked :: "job_attempt \<Rightarrow> bool" where
  "pause_marked a \<longleftrightarrow> ja_finished_at a \<noteq> None \<and> (\<exists>m \<in> set scheduler_pause_markers. ja_error_code a = Some m)"

definition attempts_for :: "control \<Rightarrow> string \<Rightarrow> job_attempt list" where
  "attempts_for c k = filter (\<lambda>a. ja_job_id a = k) (c_attempts c)"

definition history_agrees :: "job_run \<Rightarrow> job_attempt list \<Rightarrow> bool" where
  "history_agrees j as \<longleftrightarrow>
     (let n = count_of (jr_attempt_count j) in 0 \<le> n \<and> map ja_attempt_number as = [1..n] \<and> map ja_lease_epoch as = [1..n] \<and> count_of (jr_lease_epoch j) = n
        \<and> 1 \<le> max_attempts_of j \<and> max_attempts_of j \<le> 3 \<and> n \<le> max_attempts_of j + jr_quota_pause_count j
        \<and> (\<forall>a \<in> set as. ja_component_type a = ''worker'')
        \<and> count_where pause_marked as = jr_quota_pause_count j \<and> (\<not> is_priority_resource_config (jr_config_version j) \<longrightarrow> jr_quota_pause_count j = 0))"

definition lease_agrees :: "job_run \<Rightarrow> job_attempt list \<Rightarrow> bool" where
  "lease_agrees j as \<longleftrightarrow>
     (\<forall>a \<in> set as. ja_finished_at a = None \<longrightarrow> jr_status j = ''running'' \<and> ja_attempt_number a = count_of (jr_attempt_count j))
     \<and> (if jr_status j = ''running'' then (\<exists>a \<in> set as. ja_finished_at a = None) \<and> (\<exists>w. jr_lease_owner j = Some w \<and> py_strip w \<noteq> [])
        else jr_lease_owner j = None \<and> jr_lease_expires_at j = None)"

definition bindings_agree :: "job_attempt list \<Rightarrow> component_heartbeat list \<Rightarrow> bool" where
  "bindings_agree as hs \<longleftrightarrow>
     (\<forall>a \<in> set as. ja_finished_at a = None \<longrightarrow> (\<exists>h \<in> set hs. ch_component_instance_id h = ja_component_instance_id a \<and> ch_component_type h = ''worker'' \<and> bound_to h a))
     \<and> (\<forall>h \<in> set hs. ch_current_job_id h \<noteq> None \<or> ch_current_attempt_id h \<noteq> None \<longrightarrow>
          (\<exists>a \<in> set as. ja_finished_at a = None \<and> ja_component_instance_id a = ch_component_instance_id h \<and> bound_to h a))"

definition control_ok :: "control \<Rightarrow> bool" where
  "control_ok c \<longleftrightarrow> distinct (map jr_job_id (c_jobs c)) \<and> distinct (map ja_attempt_id (c_attempts c)) \<and> distinct (map ch_component_instance_id (c_components c))
     \<and> (\<forall>a \<in> set (c_attempts c). \<exists>j \<in> set (c_jobs c). jr_job_id j = ja_job_id a)
     \<and> (\<forall>j \<in> set (c_jobs c). history_agrees j (attempts_for c (jr_job_id j)) \<and> lease_agrees j (attempts_for c (jr_job_id j)))
     \<and> bindings_agree (c_attempts c) (c_components c)"

section \<open>Tables\<close>

lemma update_where_one:
  assumes "distinct (map key rows)" "r \<in> set rows" "\<And>x. x \<in> set rows \<Longrightarrow> P x \<longleftrightarrow> key x = key r" "key (f r) = key r"
  shows "update_where P f rows = upd_row key (f r) rows"
proof -
  have "x = r" if "x \<in> set rows" "key x = key r" for x
    using assms(1,2) that by (auto simp: distinct_map inj_on_def)
  then show ?thesis using assms(3,4) by (auto simp: update_where_def upd_row_def)
qed

lemma updated_row: "r \<in> set rows \<Longrightarrow> P r \<Longrightarrow> f r \<in> set (update_where P f rows)"
  by (auto simp: in_update_where)

lemma filter_upd_row:
  assumes "\<And>x. x \<in> set rows \<Longrightarrow> key x = key r \<Longrightarrow> P x \<longleftrightarrow> P r"
  shows "filter P (upd_row key r rows) = upd_row key r (filter P rows)"
  using assms by (induction rows) (auto simp: upd_row_def)

lemma map_upd_row:
  assumes "\<And>x. x \<in> set rows \<Longrightarrow> key x = key r \<Longrightarrow> f x = f r"
  shows "map f (upd_row key r rows) = map f rows"
  using assms by (auto simp: upd_row_def)

lemma count_where_upd_row:
  assumes "distinct (map key rows)" "x \<in> set rows" "key r = key x" "\<not> P x"
  shows "count_where P (upd_row key r rows) = count_where P rows + (if P r then 1 else 0)"
  using assms
proof (induction rows)
  case (Cons y rows)
  show ?case
  proof (cases "y = x")
    case True
    then have "upd_row key r rows = rows"
      using Cons.prems by (auto simp: upd_row_def rev_image_eqI intro!: map_idI)
    then show ?thesis using True Cons.prems by (auto simp: upd_row_def count_where_def)
  next
    case False
    then have "key y \<noteq> key r" "x \<in> set rows" using Cons.prems by auto
    then show ?thesis using Cons.IH Cons.prems by (auto simp: upd_row_def count_where_def split: if_splits)
  qed
qed simp

lemma upd_row_twice: "key r' = key r \<Longrightarrow> upd_row key r' (upd_row key r rows) = upd_row key r' rows"
  by (auto simp: upd_row_def)

section \<open>Finishing an attempt\<close>

definition same_attempt :: "job_attempt \<Rightarrow> job_attempt \<Rightarrow> bool" where
  "same_attempt a a' \<longleftrightarrow> ja_attempt_id a' = ja_attempt_id a \<and> ja_job_id a' = ja_job_id a \<and> ja_attempt_number a' = ja_attempt_number a
     \<and> ja_lease_epoch a' = ja_lease_epoch a \<and> ja_component_type a' = ja_component_type a \<and> ja_component_instance_id a' = ja_component_instance_id a"

definition same_budget :: "job_run \<Rightarrow> job_run \<Rightarrow> bool" where
  "same_budget j j' \<longleftrightarrow> jr_job_id j' = jr_job_id j \<and> jr_attempt_count j' = jr_attempt_count j \<and> jr_lease_epoch j' = jr_lease_epoch j
     \<and> jr_max_attempts j' = jr_max_attempts j \<and> jr_config_version j' = jr_config_version j"

definition unleased :: "job_run \<Rightarrow> bool" where
  "unleased j \<longleftrightarrow> jr_status j \<noteq> ''running'' \<and> jr_lease_owner j = None \<and> jr_lease_expires_at j = None"

definition settles :: "job_run \<Rightarrow> job_attempt \<Rightarrow> job_run \<Rightarrow> bool" where
  "settles j a' j' \<longleftrightarrow> same_budget j j' \<and> unleased j' \<and> jr_quota_pause_count j' = jr_quota_pause_count j + (if pause_marked a' then 1 else 0)
     \<and> (pause_marked a' \<longrightarrow> is_priority_resource_config (jr_config_version j))"

definition unbind_where :: "job_attempt \<Rightarrow> (component_heartbeat \<Rightarrow> component_heartbeat) \<Rightarrow> component_heartbeat list \<Rightarrow> component_heartbeat list" where
  "unbind_where a u = update_where
     (\<lambda>h. ch_component_instance_id h = ja_component_instance_id a \<and> ch_component_type h = ja_component_type a \<and> bound_to h a) u"

definition unbinds :: "(component_heartbeat \<Rightarrow> component_heartbeat) \<Rightarrow> bool" where
  "unbinds u \<longleftrightarrow> (\<forall>h. ch_component_instance_id (u h) = ch_component_instance_id h \<and> ch_component_type (u h) = ch_component_type h
     \<and> ch_current_job_id (u h) = None \<and> ch_current_attempt_id (u h) = None)"

lemma key_unique: "distinct (map key rows) \<Longrightarrow> x \<in> set rows \<Longrightarrow> y \<in> set rows \<Longrightarrow> key x = key y \<Longrightarrow> x = y"
  by (auto simp: distinct_map inj_on_def)

lemma one_open_attempt:
  assumes "history_agrees j as" "lease_agrees j as" "a \<in> set as" "b \<in> set as" "ja_finished_at a = None" "ja_finished_at b = None"
  shows "a = b"
proof -
  have "distinct (map ja_attempt_number as)" using assms(1) by (simp add: history_agrees_def Let_def)
  then show ?thesis using assms(2-) by (auto simp: lease_agrees_def intro: key_unique)
qed

lemma history_finish:
  assumes "history_agrees j as" "distinct (map ja_attempt_id as)" "a \<in> set as" "ja_finished_at a = None" "same_attempt a a'" "settles j a' j'"
  shows "history_agrees j' (upd_row ja_attempt_id a' as)"
proof -
  have only: "x = a" if "x \<in> set as" "ja_attempt_id x = ja_attempt_id a" for x
    using assms(2,3) that by (auto intro: key_unique)
  have maps: "map ja_attempt_number (upd_row ja_attempt_id a' as) = map ja_attempt_number as" "map ja_lease_epoch (upd_row ja_attempt_id a' as) = map ja_lease_epoch as"
    using assms(5) by (auto intro!: map_upd_row simp: same_attempt_def dest: only)
  have marks: "count_where pause_marked (upd_row ja_attempt_id a' as) = count_where pause_marked as + (if pause_marked a' then 1 else 0)"
    using assms by (intro count_where_upd_row) (auto simp: same_attempt_def pause_marked_def)
  show ?thesis
    using assms(1,3,5,6) maps marks
    by (auto simp: history_agrees_def Let_def settles_def same_budget_def max_attempts_of_def same_attempt_def dest!: set_upd_row split: if_splits)
qed

lemma lease_finish:
  assumes "history_agrees j as" "lease_agrees j as" "a \<in> set as" "ja_finished_at a = None" "same_attempt a a'" "ja_finished_at a' \<noteq> None" "unleased j'"
  shows "lease_agrees j' (upd_row ja_attempt_id a' as)"
proof -
  have "ja_finished_at x \<noteq> None" if "x \<in> set (upd_row ja_attempt_id a' as)" for x
    using set_upd_row [OF that] one_open_attempt [OF assms(1,2) _ assms(3) _ assms(4)] assms(5,6) by (auto simp: same_attempt_def)
  then show ?thesis using assms(7) by (auto simp: lease_agrees_def unleased_def)
qed

lemma bindings_finish:
  assumes "bindings_agree as hs" "distinct (map ja_attempt_id as)" "a \<in> set as" "same_attempt a a'" "ja_finished_at a' \<noteq> None"
    "ja_component_type a = ''worker''" "unbinds u" "distinct (map ch_component_instance_id hs)" "ja_finished_at a = None"
  shows "bindings_agree (upd_row ja_attempt_id a' as) (unbind_where a u hs)"
proof -
  let ?C = "\<lambda>h. ch_component_instance_id h = ja_component_instance_id a \<and> ch_component_type h = ja_component_type a \<and> bound_to h a"
  have keep: "b \<in> set (upd_row ja_attempt_id a' as) \<and> ja_attempt_id b \<noteq> ja_attempt_id a" if "b \<in> set as" "b \<noteq> a" for b
    using that assms(2,3,4) by (auto simp: in_upd_row same_attempt_def dest: key_unique)
  have orig: "b \<in> set as \<and> ja_attempt_id b \<noteq> ja_attempt_id a" if "b \<in> set (upd_row ja_attempt_id a' as)" "ja_finished_at b = None" for b
    using set_upd_row [OF that(1)] that(2) assms(4,5) by (auto simp: same_attempt_def)
  have unbound: "ch_current_job_id (u h) = None" "ch_current_attempt_id (u h) = None" for h using assms(7) by (auto simp: unbinds_def)
  have fwd: "\<exists>h \<in> set (unbind_where a u hs). ch_component_instance_id h = ja_component_instance_id b \<and> ch_component_type h = ''worker'' \<and> bound_to h b"
    if b: "b \<in> set as" "ja_attempt_id b \<noteq> ja_attempt_id a" "ja_finished_at b = None" for b
  proof -
    obtain h where h: "h \<in> set hs" "ch_component_instance_id h = ja_component_instance_id b" "ch_component_type h = ''worker''" "bound_to h b"
      using assms(1) b by (auto simp: bindings_agree_def)
    moreover have "\<not> ?C h" using h(4) b(2) by (auto simp: bound_to_def)
    ultimately show ?thesis by (auto simp: unbind_where_def in_update_where intro!: bexI [of _ h])
  qed
  have bwd: "\<exists>b \<in> set (upd_row ja_attempt_id a' as). ja_finished_at b = None \<and> ja_component_instance_id b = ch_component_instance_id h \<and> bound_to h b"
    if h: "h \<in> set (unbind_where a u hs)" "ch_current_job_id h \<noteq> None \<or> ch_current_attempt_id h \<noteq> None" for h
  proof -
    obtain h0 where h0: "h0 \<in> set hs" "h = (if ?C h0 then u h0 else h0)" using h(1) by (auto simp: unbind_where_def in_update_where)
    then have "h = h0" "\<not> ?C h0" using h(2) unbound [of h0] by (auto split: if_splits)
    moreover obtain b where b: "b \<in> set as" "ja_finished_at b = None" "ja_component_instance_id b = ch_component_instance_id h0" "bound_to h0 b"
      using assms(1) h(2) h0(1) \<open>h = h0\<close> unfolding bindings_agree_def by blast
    moreover have "b \<noteq> a"
    proof
      assume "b = a"
      then obtain h1 where h1: "h1 \<in> set hs" "ch_component_instance_id h1 = ja_component_instance_id a" "ch_component_type h1 = ''worker''"
        using assms(1,3,9) unfolding bindings_agree_def by blast
      then have "h1 = h0" using key_unique [OF assms(8) h1(1) h0(1)] b(3) \<open>b = a\<close> by simp
      then show False using \<open>\<not> ?C h0\<close> b(4) h1 assms(6) \<open>b = a\<close> by simp
    qed
    ultimately show ?thesis using keep by auto
  qed
  show ?thesis
    unfolding bindings_agree_def using fwd bwd orig by blast
qed

lemma attempts_for_upd:
  assumes "distinct (map ja_attempt_id (c_attempts c))" "a \<in> set (c_attempts c)" "same_attempt a a'" "c_attempts c' = upd_row ja_attempt_id a' (c_attempts c)"
  shows "attempts_for c' k = (if k = ja_job_id a then upd_row ja_attempt_id a' (attempts_for c k) else attempts_for c k)"
proof -
  have "x = a" if "x \<in> set (c_attempts c)" "ja_attempt_id x = ja_attempt_id a" for x using assms(1,2) that by (auto intro: key_unique)
  then have "attempts_for c' k = upd_row ja_attempt_id a' (attempts_for c k)"
    unfolding attempts_for_def assms(4) using assms(3) by (intro filter_upd_row) (auto simp: same_attempt_def)
  moreover have "upd_row ja_attempt_id a' (attempts_for c k) = attempts_for c k" if "k \<noteq> ja_job_id a"
    using that assms(1-3) by (auto simp: upd_row_def attempts_for_def same_attempt_def intro!: map_idI dest: key_unique)
  ultimately show ?thesis by simp
qed

lemma control_okD:
  assumes "control_ok c"
  shows "distinct (map jr_job_id (c_jobs c))" "distinct (map ja_attempt_id (c_attempts c))" "distinct (map ch_component_instance_id (c_components c))"
    "a \<in> set (c_attempts c) \<Longrightarrow> \<exists>j \<in> set (c_jobs c). jr_job_id j = ja_job_id a"
    "j \<in> set (c_jobs c) \<Longrightarrow> history_agrees j (attempts_for c (jr_job_id j))"
    "j \<in> set (c_jobs c) \<Longrightarrow> lease_agrees j (attempts_for c (jr_job_id j))"
    "bindings_agree (c_attempts c) (c_components c)"
  using assms by (auto simp: control_ok_def)

lemma in_attempts_for: "a \<in> set (attempts_for c k) \<longleftrightarrow> a \<in> set (c_attempts c) \<and> ja_job_id a = k"
  by (auto simp: attempts_for_def)

lemma keys_unbind: "unbinds u \<Longrightarrow> map ch_component_instance_id (unbind_where a u hs) = map ch_component_instance_id hs"
  by (simp add: unbind_where_def unbinds_def keys_update_where)

lemma control_ok_finish:
  assumes ok: "control_ok c"
    and a: "a \<in> set (c_attempts c)" "ja_finished_at a = None" "same_attempt a a'" "ja_finished_at a' \<noteq> None"
    and j: "j \<in> set (c_jobs c)" "jr_job_id j = ja_job_id a" "settles j a' j'"
    and c': "c_jobs c' = upd_row jr_job_id j' (c_jobs c)" "c_attempts c' = upd_row ja_attempt_id a' (c_attempts c)"
      "c_components c' = unbind_where a u (c_components c)" "unbinds u"
  shows "control_ok c'"
proof -
  note D = control_okD [OF ok]
  have ids: "jr_job_id j' = jr_job_id j" using j(3) by (simp add: settles_def same_budget_def)
  have own: "a \<in> set (attempts_for c (jr_job_id j))" using a(1) j(2) by (simp add: in_attempts_for)
  have da: "distinct (map ja_attempt_id (attempts_for c k))" for k using D(2) by (simp add: attempts_for_def distinct_map_filter)
  have for': "attempts_for c' k = (if k = ja_job_id a then upd_row ja_attempt_id a' (attempts_for c k) else attempts_for c k)" for k
    using D(2) a(1,3) c'(2) by (rule attempts_for_upd)
  have worker: "ja_component_type a = ''worker''" using D(5) [OF j(1)] own by (auto simp: history_agrees_def Let_def)
  have rows: "history_agrees x (attempts_for c' (jr_job_id x)) \<and> lease_agrees x (attempts_for c' (jr_job_id x))" if "x \<in> set (c_jobs c')" for x
  proof (cases "x = j'")
    case True
    have "history_agrees j' (upd_row ja_attempt_id a' (attempts_for c (jr_job_id j)))"
      using D(5) [OF j(1)] da own a(2,3) j(3) by (rule history_finish)
    moreover have "lease_agrees j' (upd_row ja_attempt_id a' (attempts_for c (jr_job_id j)))"
      using D(5) [OF j(1)] D(6) [OF j(1)] own a(2,3,4) by (rule lease_finish) (use j(3) in \<open>simp add: settles_def\<close>)
    ultimately show ?thesis using True ids j(2) by (simp add: for')
  next
    case False
    then have "x \<in> set (c_jobs c)" "jr_job_id x \<noteq> ja_job_id a" using that c'(1) ids j(2) by (auto dest: set_upd_row)
    then show ?thesis using D(5,6) by (simp add: for')
  qed
  have "bindings_agree (c_attempts c') (c_components c')"
    unfolding c'(2,3) using D(7,2) a(1,3,4) worker c'(4) D(3) a(2) by (rule bindings_finish)
  moreover have "\<exists>x \<in> set (c_jobs c'). jr_job_id x = ja_job_id b" if "b \<in> set (c_attempts c')" for b
  proof -
    have "ja_job_id b = ja_job_id a \<or> b \<in> set (c_attempts c)" using that c'(2) a(3) by (auto dest: set_upd_row simp: same_attempt_def)
    then have "ja_job_id b \<in> jr_job_id ` set (c_jobs c)" using D(4) a(1) by force
    then show ?thesis using c'(1) keys_upd_row [of jr_job_id j' "c_jobs c"] by (metis (no_types, lifting) image_iff list.set_map)
  qed
  ultimately show ?thesis
    using D(1-3) rows c' by (simp add: control_ok_def keys_unbind)
qed

section \<open>Starting an attempt\<close>

lemma upto_snoc: "0 \<le> n \<Longrightarrow> [1..n + 1] = [1..n] @ [n + (1::int)]"
  by (simp add: upto_rec2)

lemma history_start:
  assumes "history_agrees j as" and "count_of (jr_attempt_count j) < max_attempts_of j + jr_quota_pause_count j"
  shows "history_agrees (claimed_job w s now j) (as @ [new_attempt j k h now])"
  using assms
  by (auto simp: history_agrees_def Let_def claimed_job_def new_attempt_def count_of_def [of "Some _"] max_attempts_of_def upto_snoc count_where_def
      pause_marked_def)

lemma lease_start:
  assumes "lease_agrees j as" and "jr_status j \<noteq> ''running''" and "py_strip w \<noteq> []"
  shows "lease_agrees (claimed_job w s now j) (as @ [new_attempt j k h now])"
  using assms by (auto simp: lease_agrees_def claimed_job_def new_attempt_def count_of_def [of "Some _"])

lemma bindings_start:
  assumes "bindings_agree as (c_components c)" and "ja_attempt_id a \<notin> ja_attempt_id ` set as" and "ja_finished_at a = None"
    and "ja_component_instance_id a = k" and "distinct (map ch_component_instance_id (c_components c))"
    and "h \<in> set (c_components c)" "ch_component_instance_id h = k" "ch_component_type h = ''worker''" "ch_current_job_id h = None" "ch_current_attempt_id h = None"
  shows "bindings_agree (as @ [a]) (c_components (bind_component k a now c))"
proof -
  have only: "x = h" if "x \<in> set (c_components c)" "ch_component_instance_id x = k" for x
    using that assms(5-7) by (auto intro: key_unique)
  have fwd: "\<exists>x \<in> set (c_components (bind_component k a now c)). ch_component_instance_id x = ja_component_instance_id b \<and> ch_component_type x = ''worker'' \<and> bound_to x b"
    if b: "b \<in> set as" "ja_finished_at b = None" for b
  proof -
    obtain x where x: "x \<in> set (c_components c)" "ch_component_instance_id x = ja_component_instance_id b" "ch_component_type x = ''worker''" "bound_to x b"
      using assms(1) b unfolding bindings_agree_def by blast
    then have "ch_component_instance_id x \<noteq> k" using only assms(9) by (auto simp: bound_to_def)
    then show ?thesis using x by (auto simp: bind_component_def in_update_where intro!: bexI [of _ x])
  qed
  have bwd: "\<exists>b \<in> set (as @ [a]). ja_finished_at b = None \<and> ja_component_instance_id b = ch_component_instance_id x \<and> bound_to x b"
    if x: "x \<in> set (c_components (bind_component k a now c))" "ch_current_job_id x \<noteq> None \<or> ch_current_attempt_id x \<noteq> None" for x
  proof (cases "ch_component_instance_id x = k")
    case True
    obtain r where r: "x = (if ch_component_instance_id r = k then r\<lparr>ch_status := ''healthy'', ch_last_heartbeat_at := now, ch_current_job_id := Some (ja_job_id a),
          ch_current_attempt_id := Some (ja_attempt_id a), ch_updated_at := now\<rparr> else r)"
      using x(1) by (auto simp: bind_component_def in_update_where)
    then have "bound_to x a" using True by (cases "ch_component_instance_id r = k") (simp_all add: bound_to_def)
    then show ?thesis using True assms(3,4) by auto
  next
    case False
    then have "x \<in> set (c_components c)" using x(1) by (auto simp: bind_component_def in_update_where split: if_splits)
    then show ?thesis using assms(1) x(2) unfolding bindings_agree_def by auto
  qed
  have new: "\<exists>x \<in> set (c_components (bind_component k a now c)). ch_component_instance_id x = ja_component_instance_id a \<and> ch_component_type x = ''worker'' \<and> bound_to x a"
  proof
    let ?h = "h\<lparr>ch_status := ''healthy'', ch_last_heartbeat_at := now, ch_current_job_id := Some (ja_job_id a),
          ch_current_attempt_id := Some (ja_attempt_id a), ch_updated_at := now\<rparr>"
    show "?h \<in> set (c_components (bind_component k a now c))"
      using assms(6,7) by (simp add: bind_component_def updated_row [where f = "\<lambda>h. h\<lparr>ch_status := _, ch_last_heartbeat_at := _, ch_current_job_id := _,
          ch_current_attempt_id := _, ch_updated_at := _\<rparr>"])
    show "ch_component_instance_id ?h = ja_component_instance_id a \<and> ch_component_type ?h = ''worker'' \<and> bound_to ?h a"
      using assms(4,7,8) by (simp add: bound_to_def)
  qed
  have "\<exists>x \<in> set (c_components (bind_component k a now c)). ch_component_instance_id x = ja_component_instance_id b \<and> ch_component_type x = ''worker'' \<and> bound_to x b"
    if "b \<in> set (as @ [a])" "ja_finished_at b = None" for b
    using that fwd [of b] new by (cases "b = a") simp_all
  then show ?thesis unfolding bindings_agree_def using bwd by blast
qed

lemma control_ok_start:
  assumes ok: "control_ok c" and j: "j \<in> set (c_jobs c)" "jr_status j \<noteq> ''running''" "count_of (jr_attempt_count j) < max_attempts_of j + jr_quota_pause_count j"
    and w: "py_strip w \<noteq> []" and fresh: "add_attempt (new_attempt j i k now) (put_job (claimed_job w s now j) c) = Inr c1"
    and h: "h \<in> set (c_components c)" "ch_component_instance_id h = k" "ch_component_type h = ''worker''" "ch_current_job_id h = None" "ch_current_attempt_id h = None"
  shows "control_ok (bind_component k (new_attempt j i k now) now c1)"
proof -
  note D = control_okD [OF ok]
  let ?a = "new_attempt j i k now" and ?j = "claimed_job w s now j" and ?c = "bind_component k (new_attempt j i k now) now c1"
  have new: "i \<notin> ja_attempt_id ` set (c_attempts c)"
    and c1: "c_jobs c1 = upd_row jr_job_id ?j (c_jobs c)" "c_attempts c1 = c_attempts c @ [?a]" "c_components c1 = c_components c"
    using fresh by (auto simp: add_attempt_def put_job_def new_attempt_def add_row_def split: if_splits)
  have for': "attempts_for ?c l = (if l = jr_job_id j then attempts_for c l @ [?a] else attempts_for c l)" for l
    by (auto simp: attempts_for_def bind_component_def c1 new_attempt_def)
  have rows: "history_agrees x (attempts_for ?c (jr_job_id x)) \<and> lease_agrees x (attempts_for ?c (jr_job_id x))" if "x \<in> set (c_jobs c1)" for x
  proof (cases "x = ?j")
    case True
    then show ?thesis
      using history_start [OF D(5) [OF j(1)] j(3)] lease_start [OF D(6) [OF j(1)] j(2) w] by (simp add: for')
  next
    case False
    then have "x \<in> set (c_jobs c)" "jr_job_id x \<noteq> jr_job_id j" using that c1(1) by (auto dest: set_upd_row)
    then show ?thesis using D(5,6) by (simp add: for')
  qed
  have "bindings_agree (c_attempts c @ [?a]) (c_components (bind_component k ?a now c1))"
    using D(7,3) h new unfolding c1(3) [symmetric] by (intro bindings_start) (auto simp: new_attempt_def c1(3))
  moreover have "jr_job_id ` set (c_jobs c1) = jr_job_id ` set (c_jobs c)"
    unfolding c1(1) by (metis keys_upd_row list.set_map)
  then have "ja_job_id b \<in> jr_job_id ` set (c_jobs c1)" if "b \<in> set (c_attempts c @ [?a])" for b
    using that D(4) j(1) by (force simp: new_attempt_def)
  then have "\<exists>x \<in> set (c_jobs c1). jr_job_id x = ja_job_id b" if "b \<in> set (c_attempts c @ [?a])" for b
    using that by (metis imageE)
  ultimately show ?thesis
    using D(1-3) rows new c1 by (simp add: control_ok_def bind_component_def keys_update_where new_attempt_def)
qed

text \<open>Writes of the other columns of a component keep the bindings.\<close>

definition component_view :: "component_heartbeat \<Rightarrow> string \<times> string \<times> string option \<times> string option" where
  "component_view h = (ch_component_instance_id h, ch_component_type h, ch_current_job_id h, ch_current_attempt_id h)"

lemma bindings_view:
  assumes "bindings_agree as hs" and "map component_view hs' = map component_view hs"
  shows "bindings_agree as hs'"
proof -
  have img: "component_view ` set hs' = component_view ` set hs" using arg_cong [OF assms(2), of set] by simp
  have eq: "ch_component_instance_id x = ch_component_instance_id y" "ch_component_type x = ch_component_type y" "ch_current_job_id x = ch_current_job_id y"
    "ch_current_attempt_id x = ch_current_attempt_id y" "bound_to x b = bound_to y b" if "component_view x = component_view y" for x y b
    using that by (simp_all add: component_view_def bound_to_def)
  have "\<exists>h \<in> set hs'. ch_component_instance_id h = ja_component_instance_id a \<and> ch_component_type h = ''worker'' \<and> bound_to h a"
    if a: "a \<in> set as" "ja_finished_at a = None" for a
  proof -
    obtain h where h: "h \<in> set hs" "ch_component_instance_id h = ja_component_instance_id a" "ch_component_type h = ''worker''" "bound_to h a"
      using assms(1) a unfolding bindings_agree_def by blast
    obtain y where y: "y \<in> set hs'" "component_view y = component_view h" using h(1) img by (metis imageE image_eqI)
    then show ?thesis using h eq [OF y(2)] by auto
  qed
  moreover have "\<exists>a \<in> set as. ja_finished_at a = None \<and> ja_component_instance_id a = ch_component_instance_id h \<and> bound_to h a"
    if h: "h \<in> set hs'" "ch_current_job_id h \<noteq> None \<or> ch_current_attempt_id h \<noteq> None" for h
  proof -
    obtain y where y: "y \<in> set hs" "component_view y = component_view h" using h(1) img by (metis imageE image_eqI)
    then have "ch_current_job_id y \<noteq> None \<or> ch_current_attempt_id y \<noteq> None" using h(2) eq [OF y(2)] by auto
    then obtain a where "a \<in> set as" "ja_finished_at a = None" "ja_component_instance_id a = ch_component_instance_id y" "bound_to y a"
      using assms(1) y(1) unfolding bindings_agree_def by blast
    then show ?thesis using eq [OF y(2)] by auto
  qed
  ultimately show ?thesis unfolding bindings_agree_def by blast
qed

lemma control_ok_components:
  assumes "control_ok c" and "map component_view hs = map component_view (c_components c)"
  shows "control_ok (c\<lparr>c_components := hs\<rparr>)"
proof -
  have "map ch_component_instance_id hs = map ch_component_instance_id (c_components c)"
    using arg_cong [OF assms(2), of "map fst"] by (simp add: component_view_def comp_def)
  then show ?thesis
    using assms bindings_view [OF control_okD(7) [OF assms(1)] assms(2)] by (simp add: control_ok_def attempts_for_def)
qed

lemma control_ok_prepare:
  assumes ok: "control_ok c" and lock: "lock_worker_component c k prev = Inr existing"
  shows "control_ok (prepare_worker_component k now existing c)"
proof (cases existing)
  case None
  then have "k \<notin> ch_component_instance_id ` set (c_components c)"
    using lock by (auto simp: lock_worker_component_def find_row_None split: option.splits if_splits)
  then show ?thesis using ok None by (auto simp: control_ok_def prepare_worker_component_def attempts_for_def bindings_agree_def)
next
  case (Some h)
  then have h: "h \<in> set (c_components c)" using lock by (auto simp: lock_worker_component_def dest: find_row_Some split: option.splits if_splits)
  have "map component_view (upd_row ch_component_instance_id (h\<lparr>ch_status := ''healthy'', ch_last_heartbeat_at := now, ch_updated_at := now\<rparr>) (c_components c))
      = map component_view (c_components c)"
    using h control_okD(3) [OF ok] by (intro map_upd_row) (auto simp: component_view_def dest: key_unique)
  then show ?thesis using Some control_ok_components [OF ok] by (simp add: prepare_worker_component_def)
qed

section \<open>The transactions of a token\<close>

lemma lock_active_parts:
  assumes "lock_active_execution_state c t b now = Some j"
  obtains a h where "j \<in> set (c_jobs c)" "active_lease t now j" "a \<in> set (c_attempts c)" "token_attempt t a" "ja_component_type a = ''worker''"
    "ja_component_instance_id a = lt_component_instance_id t" "h \<in> set (c_components c)" "token_component t h"
  using assms lock_active_job [OF assms] by (auto simp: lock_active_execution_state_def split: option.splits if_splits)

lemma control_ok_end:
  assumes ok: "control_ok c" and lock: "lock_active_execution_state c t b now = Some j"
    and fin: "end_attempt t now f x e s d y g r p c = Inr (b', c')"
    and f: "same_budget j (f j)" "unleased (f j)"
      "jr_quota_pause_count (f j) = jr_quota_pause_count j + (if \<exists>m \<in> set scheduler_pause_markers. e = Some m then 1 else 0)"
      "(\<exists>m \<in> set scheduler_pause_markers. e = Some m) \<longrightarrow> is_priority_resource_config (jr_config_version j)"
  shows "control_ok c'"
proof -
  note D = control_okD [OF ok]
  obtain a h where j: "j \<in> set (c_jobs c)" "active_lease t now j" and a: "a \<in> set (c_attempts c)" "token_attempt t a" "ja_component_type a = ''worker''"
    "ja_component_instance_id a = lt_component_instance_id t" using lock by (rule lock_active_parts)
  let ?fa = "\<lambda>a. a\<lparr>ja_finished_at := Some now, ja_exit_type := Some x, ja_error_code := e, ja_error_summary := s\<rparr>"
  let ?u = "\<lambda>h. h\<lparr>ch_status := d, ch_current_job_id := None, ch_current_attempt_id := None, ch_updated_at := now\<rparr>"
  have ids: "jr_job_id j = ja_job_id a" using j(2) a(2) by (simp add: active_lease_def token_attempt_def)
  have onlyj: "active_lease t now z \<longleftrightarrow> jr_job_id z = jr_job_id j" if "z \<in> set (c_jobs c)" for z
    using that j key_unique [OF D(1) that j(1)] by (auto simp: active_lease_def)
  have onlya: "token_attempt t z \<longleftrightarrow> ja_attempt_id z = ja_attempt_id a" if "z \<in> set (c_attempts c)" for z
    using that a(2) key_unique [OF D(2) that a(1)] by (auto simp: token_attempt_def)
  have comp: "token_component t = (\<lambda>h. ch_component_instance_id h = ja_component_instance_id a \<and> ch_component_type h = ja_component_type a \<and> bound_to h a)"
    using a by (auto simp: token_component_def bound_to_def token_attempt_def fun_eq_iff)
  have "c_jobs c' = upd_row jr_job_id (f j) (c_jobs c)"
    using end_attempt_jobs [OF fin] update_where_one [where f = f and key = jr_job_id, OF D(1) j(1) onlyj] f(1) by (simp add: same_budget_def)
  moreover have "c_attempts c' = update_where (token_attempt t) ?fa (c_attempts c)" "c_components c' = update_where (token_component t) ?u (c_components c)"
    using fin by (auto simp: end_attempt_def bind_result_Inr finish_attempt_def release_component_attempt_def write_job_def add_job_event_def split: if_splits)
  moreover have "update_where (token_attempt t) ?fa (c_attempts c) = upd_row ja_attempt_id (?fa a) (c_attempts c)"
    by (rule update_where_one [OF D(2) a(1) onlya]) simp_all
  moreover have "settles j (?fa a) (f j)" using f by (simp add: settles_def pause_marked_def)
  ultimately show ?thesis
    using ids j(1) a(1,2)
    by (intro control_ok_finish [OF ok, where a = a and a' = "?fa a" and j = j and j' = "f j" and u = ?u])
      (simp_all add: same_attempt_def unbinds_def unbind_where_def comp token_attempt_def)
qed

lemma control_ok_jobs:
  assumes ok: "control_ok c" and f: "\<And>j. j \<in> set (c_jobs c) \<Longrightarrow> P j \<Longrightarrow> same_budget j (f j) \<and> jr_quota_pause_count (f j) = jr_quota_pause_count j
      \<and> jr_status (f j) = jr_status j \<and> jr_lease_owner (f j) = jr_lease_owner j \<and> (jr_status j = ''running'' \<or> jr_lease_expires_at (f j) = jr_lease_expires_at j)"
  shows "control_ok (c\<lparr>c_jobs := update_where P f (c_jobs c)\<rparr>)"
proof -
  note D = control_okD [OF ok]
  let ?g = "\<lambda>j. if P j then f j else j"
  have keys: "map jr_job_id (update_where P f (c_jobs c)) = map jr_job_id (c_jobs c)"
    using f by (auto simp: update_where_def same_budget_def)
  have rows: "history_agrees (?g x) (attempts_for c (jr_job_id x)) \<and> lease_agrees (?g x) (attempts_for c (jr_job_id x)) \<and> jr_job_id (?g x) = jr_job_id x"
    if "x \<in> set (c_jobs c)" for x
    using D(5,6) [OF that] f [OF that]
    by (auto simp: history_agrees_def Let_def lease_agrees_def same_budget_def max_attempts_of_def)
  have "jr_job_id ` set (update_where P f (c_jobs c)) = jr_job_id ` set (c_jobs c)" using arg_cong [OF keys, of set] by simp
  then have "\<exists>x \<in> set (update_where P f (c_jobs c)). jr_job_id x = ja_job_id b" if "b \<in> set (c_attempts c)" for b
    using D(4) [OF that] by (metis image_iff)
  moreover have "history_agrees y (attempts_for c (jr_job_id y)) \<and> lease_agrees y (attempts_for c (jr_job_id y))"
    if y: "y \<in> set (update_where P f (c_jobs c))" for y
  proof -
    obtain x where "x \<in> set (c_jobs c)" "y = ?g x" using y by (auto simp: in_update_where)
    then show ?thesis using rows [of x] by simp
  qed
  ultimately show ?thesis
    using D(1-3,7) keys by (simp add: control_ok_def attempts_for_def)
qed

lemma heartbeat_keeps_ok:
  assumes "heartbeat_job t n now c = Inr (b, c')" and "control_ok c"
  shows "control_ok c'"
proof -
  have "control_ok ((write_job t now (\<lambda>j. j\<lparr>jr_heartbeat_at := Some now, jr_lease_expires_at := Some (now + seconds n)\<rparr>) c)
     \<lparr>c_components := update_where (token_component t) (\<lambda>h. h\<lparr>ch_last_heartbeat_at := now, ch_updated_at := now\<rparr>) (c_components c)\<rparr>)"
    unfolding write_job_def
    by (intro control_ok_components control_ok_jobs) (auto simp: assms(2) active_lease_def same_budget_def update_where_def component_view_def)
  then show ?thesis using assms by (auto simp: heartbeat_job_def heartbeat_claim_def split: if_splits option.splits)
qed

lemma complete_keeps_ok:
  assumes "complete_claim t n now c = Inr (b, c')" and "control_ok c"
  shows "control_ok c'"
proof (cases "lock_active_execution_state c t False now")
  case (Some j)
  show ?thesis
    using assms(1) unfolding complete_claim_def Some option.case by (rule control_ok_end [OF assms(2) Some]) (simp_all add: same_budget_def unleased_def)
qed (use assms in \<open>simp add: complete_claim_def\<close>)

lemma cancel_keeps_ok:
  assumes "confirm_cancel_job t r now c = Inr (b, c')" and "control_ok c"
  shows "control_ok c'"
proof (cases "lock_active_execution_state c t True now")
  case (Some j)
  have "cancel_claim t (py_strip r) now c = Inr (b, c')" using assms(1) by (simp add: confirm_cancel_job_def split: if_splits)
  then show ?thesis
    unfolding cancel_claim_def Some option.case by (rule control_ok_end [OF assms(2) Some]) (simp_all add: same_budget_def unleased_def)
qed (use assms in \<open>simp add: confirm_cancel_job_def cancel_claim_def split: if_splits\<close>)

text \<open>A failure that is not a pause must not be reported under the code of a pause.\<close>

fun honest_op :: "job_op \<Rightarrow> bool" where
  "honest_op (Fail t kind e s b d now) = (is_scheduler_pause kind \<or> py_strip e \<notin> set scheduler_pause_markers)"
| "honest_op _ = True"

lemma pause_codes:
  assumes "(if is_scheduler_pause kind then scheduler_pause_error_code kind else Inr e) = Inr code"
  shows "if is_scheduler_pause kind then py_strip code \<in> set scheduler_pause_markers else code = e"
proof -
  have "py_strip ''priority_budget_pause'' = ''priority_budget_pause''" "py_strip ''worker_resource_pause'' = ''worker_resource_pause''" by code_simp+
  then show ?thesis using assms by (cases kind) (auto simp: is_scheduler_pause_def scheduler_pause_markers_def)
qed

lemma fail_job_write:
  assumes "fail_job t kind e s base fixed now c = Inr (r, c')" and "c' \<noteq> c" and "lock_active_execution_state c t False now = Some j"
  obtains d code b where "rd_status d \<noteq> ''running''" "(if is_scheduler_pause kind then scheduler_pause_error_code kind else Inr e) = Inr code"
    "fail_claim t (rd_status d) (rd_delay_seconds d) (attempt_exit_type kind d) (py_strip code) (py_strip s) (is_scheduler_pause kind) now c = Inr (b, c')"
    "is_scheduler_pause kind \<longrightarrow> (\<exists>x \<in> set (c_jobs c). jr_job_id x = lt_job_id t \<and> is_priority_resource_config (jr_config_version x))"
proof -
  let ?code = "if is_scheduler_pause kind then scheduler_pause_error_code kind else Inr e"
  obtain code where code: "?code = Inr code"
    using assms by (cases ?code) (auto simp: fail_job_def Let_def split: if_splits)
  have not_running: "rd_status d \<noteq> ''running''" if "retry_policy kind n m q x base fixed = Inr d" for n m q x d
    using retry_policy_status [OF that] by auto
  show thesis
    using assms that [OF _ code] not_running unfolding fail_job_def Let_def code
    by (auto simp: bind_result_Inr split: if_splits) metis+
qed

lemma fail_keeps_ok:
  assumes fail: "fail_job t kind e s base fixed now c = Inr (r, c')" and ok: "control_ok c" and honest: "honest_op (Fail t kind e s base fixed now)"
  shows "control_ok c'"
proof (cases "lock_active_execution_state c t False now")
  case (Some j)
  show ?thesis
  proof (cases "c' = c")
    case False
    obtain d code b where d: "rd_status d \<noteq> ''running''" and code: "(if is_scheduler_pause kind then scheduler_pause_error_code kind else Inr e) = Inr code"
      and f: "fail_claim t (rd_status d) (rd_delay_seconds d) (attempt_exit_type kind d) (py_strip code) (py_strip s) (is_scheduler_pause kind) now c = Inr (b, c')"
      and known: "is_scheduler_pause kind \<longrightarrow> (\<exists>x \<in> set (c_jobs c). jr_job_id x = lt_job_id t \<and> is_priority_resource_config (jr_config_version x))"
      using fail False Some by (rule fail_job_write)
    have j: "j \<in> set (c_jobs c)" "jr_job_id j = lt_job_id t" using lock_active_job [OF Some] by (auto simp: active_lease_def)
    have prio: "is_scheduler_pause kind \<longrightarrow> is_priority_resource_config (jr_config_version j)"
      using known j key_unique [OF control_okD(1) [OF ok] j(1)] by fastforce
    have mark: "(\<exists>m \<in> set scheduler_pause_markers. Some (py_strip code) = Some m) \<longleftrightarrow> is_scheduler_pause kind"
      using pause_codes [OF code] honest by (auto split: if_splits)
    show ?thesis
      using f unfolding fail_claim_def Some option.case
      by (rule control_ok_end [OF ok Some]) (use d prio mark in \<open>simp_all add: failed_job_def same_budget_def unleased_def\<close>)
  qed (use ok in simp)
qed (use fail ok in \<open>auto simp: fail_job_def Let_def bind_result_Inr split: if_splits\<close>)

lemma observe_keeps_ok:
  assumes obs: "record_attempt_observation t x r e s now c = Inr (b, c')" and ok: "control_ok c"
  shows "control_ok c'"
proof -
  note D = control_okD [OF ok]
  let ?f = "\<lambda>a. a\<lparr>ja_exit_code := x, ja_rss_peak_bytes := r, ja_error_code := e, ja_error_summary := s\<rparr>"
  let ?g = "\<lambda>a. if token_attempt t a then ?f a else a"
  have c': "c' = c \<or> c' = c\<lparr>c_attempts := map ?g (c_attempts c)\<rparr>"
    using obs by (auto simp: record_attempt_observation_def update_where_def split: if_splits option.splits)
  have g: "ja_job_id (?g a) = ja_job_id a" "ja_attempt_id (?g a) = ja_attempt_id a" "ja_attempt_number (?g a) = ja_attempt_number a"
    "ja_lease_epoch (?g a) = ja_lease_epoch a" "ja_component_type (?g a) = ja_component_type a" "ja_component_instance_id (?g a) = ja_component_instance_id a"
    "ja_finished_at (?g a) = ja_finished_at a" "pause_marked (?g a) = pause_marked a" "bound_to h (?g a) = bound_to h a" for a h
    by (auto simp: token_attempt_def pause_marked_def bound_to_def)
  have for': "attempts_for (c\<lparr>c_attempts := map ?g (c_attempts c)\<rparr>) k = map ?g (attempts_for c k)" for k
    by (simp add: attempts_for_def filter_map comp_def g(1))
  have "history_agrees j (map ?g as) = history_agrees j as" "lease_agrees j (map ?g as) = lease_agrees j as" for j as
    by (simp_all only: history_agrees_def lease_agrees_def Let_def map_map comp_def g set_map ball_simps bex_simps count_where_def filter_map length_map)
  moreover have "bindings_agree (map ?g (c_attempts c)) (c_components c)"
    using D(7) by (simp only: bindings_agree_def g set_map ball_simps bex_simps)
  ultimately have "control_ok (c\<lparr>c_attempts := map ?g (c_attempts c)\<rparr>)"
    using D(1-6) by (auto simp: control_ok_def for' comp_def g)
  then show ?thesis using c' ok by auto
qed

lemma request_cancel_keeps_ok: "control_ok c \<Longrightarrow> control_ok (request_cancel k now c)"
  unfolding request_cancel_def by (rule control_ok_jobs) (auto simp: same_budget_def)

lemma plan_keeps_ok:
  assumes "control_ok c"
  shows "control_ok (plan_job j c)"
proof (cases "planned_job c j")
  case True
  then have new: "jr_job_id j \<notin> jr_job_id ` set (c_jobs c)" by (simp add: planned_job_def find_row_None)
  then have none: "attempts_for c (jr_job_id j) = []" using control_okD(4) [OF assms] unfolding attempts_for_def filter_empty_conv by (metis image_eqI)
  have "history_agrees j [] \<and> lease_agrees j []"
    using True by (simp add: planned_job_def history_agrees_def lease_agrees_def Let_def count_of_def max_attempts_of_def count_where_def)
  moreover have "attempts_for (c\<lparr>c_jobs := js\<rparr>) = attempts_for c" for js by (simp add: attempts_for_def fun_eq_iff)
  ultimately show ?thesis
    using True new none control_okD [OF assms] by (auto simp: plan_job_def control_ok_def)
qed (use assms in \<open>simp add: plan_job_def\<close>)

section \<open>Quarantine and claims\<close>

lemma release_all:
  "fold (\<lambda>a. release_bound a now) as hs = update_where
     (\<lambda>h. \<exists>a \<in> set as. ch_component_instance_id h = ja_component_instance_id a \<and> ch_component_type h = ja_component_type a \<and> bound_to h a)
     (\<lambda>h. h\<lparr>ch_status := ''degraded'', ch_current_job_id := None, ch_current_attempt_id := None, ch_updated_at := now\<rparr>) hs"
proof (induction as arbitrary: hs)
  case (Cons a as)
  show ?case by (simp add: Cons.IH) (auto simp: release_bound_def update_where_def bound_to_def)
qed (simp add: update_where_def)

lemma update_where_cong: "(\<And>x. x \<in> set rows \<Longrightarrow> P x \<longleftrightarrow> Q x) \<Longrightarrow> update_where P f rows = update_where Q f rows"
  by (auto simp: update_where_def)

lemma set_attempts_of: "set (attempts_of c k) = {a \<in> set (c_attempts c). ja_job_id a = k}"
  by (auto simp: attempts_of_def)

lemma bound_attempt_open:
  assumes "control_ok c" "h \<in> set (c_components c)" "a \<in> set (c_attempts c)" "bound_to h a"
  shows "ja_finished_at a = None" "ja_component_instance_id a = ch_component_instance_id h"
proof -
  obtain b where b: "b \<in> set (c_attempts c)" "ja_finished_at b = None" "ja_component_instance_id b = ch_component_instance_id h" "bound_to h b"
    using control_okD(7) [OF assms(1)] assms(2,4) unfolding bindings_agree_def bound_to_def by blast
  have "b = a" using key_unique [OF control_okD(2) [OF assms(1)] b(1) assms(3)] b(4) assms(4) by (simp add: bound_to_def)
  then show "ja_finished_at a = None" "ja_component_instance_id a = ch_component_instance_id h" using b by auto
qed

lemma control_ok_job:
  assumes ok: "control_ok c" and j: "j \<in> set (c_jobs c)" "jr_job_id j' = jr_job_id j"
    and agree: "history_agrees j' (attempts_for c (jr_job_id j)) \<and> lease_agrees j' (attempts_for c (jr_job_id j))"
    and c': "c_jobs c' = upd_row jr_job_id j' (c_jobs c)" "c_attempts c' = c_attempts c" "c_components c' = c_components c"
  shows "control_ok c'"
proof -
  note D = control_okD [OF ok]
  have keys: "jr_job_id ` set (c_jobs c') = jr_job_id ` set (c_jobs c)" unfolding c'(1) by (metis keys_upd_row list.set_map)
  have for': "attempts_for c' = attempts_for c" using c'(2) by (simp add: attempts_for_def fun_eq_iff)
  have "history_agrees x (attempts_for c (jr_job_id x)) \<and> lease_agrees x (attempts_for c (jr_job_id x))" if "x \<in> set (c_jobs c')" for x
    using that c'(1) agree j(2) D(5,6) by (auto dest: set_upd_row)
  moreover have "\<exists>x \<in> set (c_jobs c'). jr_job_id x = ja_job_id b" if "b \<in> set (c_attempts c)" for b
    using D(4) [OF that] keys by (metis image_iff)
  ultimately show ?thesis using D(1-3,7) c' by (simp add: control_ok_def for')
qed

lemma quarantined_settles: "settles j (quarantined_attempt now a) (quarantined_job now j)"
  by (simp add: settles_def same_budget_def unleased_def quarantined_job_def pause_marked_def quarantined_attempt_def scheduler_pause_markers_def)

lemma quarantine_keeps_ok:
  assumes ok: "control_ok c" and j: "j \<in> set (c_jobs c)"
  shows "control_ok (quarantine_job j now c)"
proof -
  note D = control_okD [OF ok]
  let ?u = "\<lambda>h. h\<lparr>ch_status := ''degraded'', ch_current_job_id := None, ch_current_attempt_id := None, ch_updated_at := now\<rparr>"
  let ?as = "attempts_for c (jr_job_id j)"
  have parts: "c_jobs (quarantine_job j now c) = upd_row jr_job_id (quarantined_job now j) (c_jobs c)"
    "c_attempts (quarantine_job j now c) = update_where (\<lambda>a. ja_job_id a = jr_job_id j \<and> ja_finished_at a = None) (quarantined_attempt now) (c_attempts c)"
    "c_components (quarantine_job j now c) = fold (\<lambda>a. release_bound a now) (attempts_of c (jr_job_id j)) (c_components c)"
    by (simp_all add: quarantine_job_def add_job_event_def put_job_def Let_def)
  show ?thesis
  proof (cases "jr_status j = ''running''")
    case True
    then obtain a where a: "a \<in> set ?as" "ja_finished_at a = None" using D(6) [OF j] by (auto simp: lease_agrees_def)
    then have ain: "a \<in> set (c_attempts c)" "ja_job_id a = jr_job_id j" by (auto simp: in_attempts_for)
    have only: "(ja_job_id z = jr_job_id j \<and> ja_finished_at z = None) \<longleftrightarrow> ja_attempt_id z = ja_attempt_id a" if "z \<in> set (c_attempts c)" for z
    proof
      assume "ja_job_id z = jr_job_id j \<and> ja_finished_at z = None"
      then have "z = a" using one_open_attempt [OF D(5) [OF j] D(6) [OF j] _ a(1) _ a(2), of z] that by (simp add: in_attempts_for)
      then show "ja_attempt_id z = ja_attempt_id a" by simp
    next
      assume "ja_attempt_id z = ja_attempt_id a"
      then have "z = a" by (rule key_unique [OF D(2) that ain(1)])
      then show "ja_job_id z = jr_job_id j \<and> ja_finished_at z = None" using ain(2) a(2) by simp
    qed
    have bound: "z = a" if "z \<in> set (c_attempts c)" "ja_job_id z = jr_job_id j" "h \<in> set (c_components c)" "bound_to h z" for z h
      using only [OF that(1)] key_unique [OF D(2) that(1) ain(1)] bound_attempt_open(1) [OF ok that(3,1,4)] that(2) by simp
    have "c_attempts (quarantine_job j now c) = upd_row ja_attempt_id (quarantined_attempt now a) (c_attempts c)"
      unfolding parts by (rule update_where_one [OF D(2) ain(1) only]) (simp_all add: quarantined_attempt_def)
    moreover have "c_components (quarantine_job j now c) = unbind_where a ?u (c_components c)"
      unfolding parts release_all unbind_where_def
    proof (rule update_where_cong)
      fix h assume h: "h \<in> set (c_components c)"
      show "(\<exists>a \<in> set (attempts_of c (jr_job_id j)). ch_component_instance_id h = ja_component_instance_id a \<and> ch_component_type h = ja_component_type a \<and> bound_to h a)
          \<longleftrightarrow> ch_component_instance_id h = ja_component_instance_id a \<and> ch_component_type h = ja_component_type a \<and> bound_to h a"
        using bound [OF _ _ h] ain by (metis (mono_tags, lifting) mem_Collect_eq set_attempts_of)
    qed
    ultimately show ?thesis
      using ain a(2) j parts(1) quarantined_settles
      by (intro control_ok_finish [OF ok, where a = a and a' = "quarantined_attempt now a" and j = j and j' = "quarantined_job now j" and u = ?u])
        (simp_all add: same_attempt_def quarantined_attempt_def unbinds_def)
  next
    case False
    then have closed: "\<not> (ja_job_id z = jr_job_id j \<and> ja_finished_at z = None)" if "z \<in> set (c_attempts c)" for z
      using D(6) [OF j] that by (auto simp: lease_agrees_def in_attempts_for)
    have "c_attempts (quarantine_job j now c) = c_attempts c" unfolding parts using closed by (rule update_where_none)
    moreover have "c_components (quarantine_job j now c) = c_components c"
      unfolding parts release_all
    proof (rule update_where_none)
      fix h assume "h \<in> set (c_components c)"
      then show "\<not> (\<exists>a \<in> set (attempts_of c (jr_job_id j)). ch_component_instance_id h = ja_component_instance_id a \<and> ch_component_type h = ja_component_type a \<and> bound_to h a)"
        using closed bound_attempt_open(1) [OF ok] unfolding set_attempts_of by blast
    qed
    moreover have "history_agrees (quarantined_job now j) ?as \<and> lease_agrees (quarantined_job now j) ?as"
      using D(5) [OF j] D(6) [OF j] False
      by (simp add: history_agrees_def lease_agrees_def Let_def quarantined_job_def max_attempts_of_def)
    ultimately show ?thesis by (intro control_ok_job [OF ok j _ _ parts(1)]) simp_all
  qed
qed

definition degraded :: "instant \<Rightarrow> component_heartbeat \<Rightarrow> component_heartbeat" where
  "degraded now h = h\<lparr>ch_status := ''degraded'', ch_current_job_id := None, ch_current_attempt_id := None, ch_updated_at := now\<rparr>"

lemma unbinds_degraded [simp]: "unbinds (degraded now)"
  by (simp add: unbinds_def degraded_def)

lemma close_parts:
  obtains a' where "same_attempt a a'" "ja_finished_at a' \<noteq> None" "\<not> pause_marked a'" "ja_error_code a' = Some ''lease_expired''"
    "c_attempts (close_expired_attempt a now c) = upd_row ja_attempt_id a' (c_attempts c)"
    "c_components (close_expired_attempt a now c) = unbind_where a (degraded now) (c_components c)"
  by (rule that [of "a\<lparr>ja_finished_at := Some (attempt_finished_timestamp (ja_started_at a) now), ja_exit_type := Some ''crashed'',
            ja_error_code := Some ''lease_expired'',
            ja_error_summary := Some (fst (preserve_previous_error ''lease expired before the attempt completed'' (ja_error_summary a) []))\<rparr>"])
    (simp_all add: close_expired_attempt_def same_attempt_def pause_marked_def scheduler_pause_markers_def add_job_event_def Let_def release_bound_def
      unbind_where_def degraded_def [abs_def])

lemma exhausted_settles: "\<not> pause_marked a' \<Longrightarrow> settles j a' (exhausted_job now j)"
  by (simp add: settles_def same_budget_def unleased_def exhausted_job_def split: prod.split)

lemma prepared_component:
  assumes "lock_worker_component c k prev = Inr existing"
  obtains h where "h \<in> set (c_components (prepare_worker_component k now existing c))" "ch_component_instance_id h = k" "ch_component_type h = ''worker''"
    "ch_current_job_id h = None \<and> ch_current_attempt_id h = None \<or> (\<exists>a. prev = Some a \<and> bound_to h a)"
proof (cases existing)
  case None
  then show ?thesis
    by (intro that [of "\<lparr>ch_component_instance_id = k, ch_component_type = ''worker'', ch_status = ''healthy'',
                    ch_last_heartbeat_at = now, ch_current_job_id = None, ch_current_attempt_id = None, ch_updated_at = now\<rparr>"])
      (simp_all add: prepare_worker_component_def)
next
  case (Some h)
  have h: "h \<in> set (c_components c)" "ch_component_instance_id h = k" "ch_component_type h = ''worker''"
    "ch_current_job_id h = None \<and> ch_current_attempt_id h = None \<or> (\<exists>a. prev = Some a \<and> bound_to h a)"
    using assms Some by (auto simp: lock_worker_component_def dest: find_row_Some split: option.splits if_splits)
  show ?thesis
    using h Some
    by (intro that [of "h\<lparr>ch_status := ''healthy'', ch_last_heartbeat_at := now, ch_updated_at := now\<rparr>"])
      (auto simp: prepare_worker_component_def bound_to_def upd_row_def intro!: rev_image_eqI [of h])
qed

definition waiting :: "job_run \<Rightarrow> job_run" where
  "waiting j = j\<lparr>jr_status := ''pending'', jr_lease_owner := None, jr_lease_expires_at := None\<rparr>"

lemma waiting_same: "claimed_job w s now (waiting j) = claimed_job w s now j" "new_attempt (waiting j) i k now = new_attempt j i k now"
  by (simp_all add: waiting_def claimed_job_def new_attempt_def)

lemma start_fresh_keeps_ok:
  assumes ok: "control_ok c" and j: "j \<in> set (c_jobs c)" "jr_status j \<noteq> ''running''" "count_of (jr_attempt_count j) < max_attempts_of j + jr_quota_pause_count j"
    and w: "py_strip w \<noteq> []" and start: "start_attempt j None w k s i now c = Inr (r, c')"
  shows "control_ok c'"
proof -
  obtain existing c3 where lock: "lock_worker_component c k None = Inr existing"
    and add: "add_attempt (new_attempt j i k now) (put_job (claimed_job w s now j) (prepare_worker_component k now existing c)) = Inr c3"
    and c': "c_jobs c' = c_jobs (bind_component k (new_attempt j i k now) now c3)" "c_attempts c' = c_attempts (bind_component k (new_attempt j i k now) now c3)"
      "c_components c' = c_components (bind_component k (new_attempt j i k now) now c3)"
    using start by (auto simp: start_attempt_def bind_result_Inr Let_def add_job_event_def)
  obtain h where h: "h \<in> set (c_components (prepare_worker_component k now existing c))" "ch_component_instance_id h = k" "ch_component_type h = ''worker''"
    "ch_current_job_id h = None \<and> ch_current_attempt_id h = None" using prepared_component [OF lock] by (metis option.distinct(1))
  have "control_ok (bind_component k (new_attempt j i k now) now c3)"
    by (rule control_ok_start [OF control_ok_prepare [OF ok lock] _ j(2,3) w add h(1-3)]) (use j(1) h(4) in simp_all)
  then show ?thesis by (simp add: control_ok_def attempts_for_def c')
qed

lemma released_component:
  assumes ok: "control_ok c" and a: "a \<in> set (c_attempts c)" "ja_component_type a = ''worker''"
    and h: "h \<in> set (c_components c)" "ch_component_instance_id h = k" "ch_component_type h = ''worker''"
      "ch_current_job_id h = None \<and> ch_current_attempt_id h = None \<or> bound_to h a"
  obtains h' where "h' \<in> set (unbind_where a (degraded now) (c_components c))" "ch_component_instance_id h' = k" "ch_component_type h' = ''worker''"
    "ch_current_job_id h' = None" "ch_current_attempt_id h' = None"
proof (cases "bound_to h a")
  case True
  have "ja_component_instance_id a = ch_component_instance_id h" using bound_attempt_open(2) [OF ok h(1) a(1) True] .
  then have "degraded now h \<in> set (unbind_where a (degraded now) (c_components c))"
    unfolding unbind_where_def using True a(2) h(1,3) by (intro updated_row) simp_all
  then show ?thesis using h by (intro that [of "degraded now h"]) (simp_all add: degraded_def)
next
  case False
  then have "h \<in> set (unbind_where a (degraded now) (c_components c))"
    using h(1) unfolding unbind_where_def in_update_where by (intro bexI [of _ h]) simp_all
  then show ?thesis using False h by (intro that [of h]) simp_all
qed

lemma start_again_keeps_ok:
  assumes ok: "control_ok c" and j: "j \<in> set (c_jobs c)" "count_of (jr_attempt_count j) < max_attempts_of j + jr_quota_pause_count j"
    and a: "a \<in> set (c_attempts c)" "ja_finished_at a = None" "ja_job_id a = jr_job_id j"
    and w: "py_strip w \<noteq> []" and start: "start_attempt j (Some a) w k s i now c = Inr (r, c')"
  shows "control_ok c'"
proof -
  obtain existing c3 where lock: "lock_worker_component c k (Some a) = Inr existing"
    and add: "add_attempt (new_attempt j i k now) (put_job (claimed_job w s now j) (close_expired_attempt a now (prepare_worker_component k now existing c))) = Inr c3"
    and c': "c_jobs c' = c_jobs (bind_component k (new_attempt j i k now) now c3)" "c_attempts c' = c_attempts (bind_component k (new_attempt j i k now) now c3)"
      "c_components c' = c_components (bind_component k (new_attempt j i k now) now c3)"
    using start by (auto simp: start_attempt_def bind_result_Inr Let_def add_job_event_def)
  let ?c1 = "prepare_worker_component k now existing c"
  let ?c2 = "put_job (waiting j) (close_expired_attempt a now ?c1)"
  have ok1: "control_ok ?c1" using control_ok_prepare [OF ok lock] .
  have same: "c_attempts ?c1 = c_attempts c" by (simp add: prepare_worker_component_def)
  obtain a' where a': "same_attempt a a'" "ja_finished_at a' \<noteq> None" "\<not> pause_marked a'"
    "c_attempts (close_expired_attempt a now ?c1) = upd_row ja_attempt_id a' (c_attempts ?c1)"
    "c_components (close_expired_attempt a now ?c1) = unbind_where a (degraded now) (c_components ?c1)" by (rule close_parts)
  have settles: "settles j a' (waiting j)" using a'(3) by (simp add: settles_def same_budget_def unleased_def waiting_def)
  have ok2: "control_ok ?c2"
    by (rule control_ok_finish [OF ok1 _ a(2) a'(1,2) _ _ settles, where u = "degraded now"])
      (use a j a'(4,5) same in \<open>simp_all add: put_job_def\<close>)
  have worker: "ja_component_type a = ''worker''"
    using control_okD(5) [OF ok j(1)] a by (auto simp: history_agrees_def Let_def in_attempts_for)
  obtain h where h: "h \<in> set (c_components ?c1)" "ch_component_instance_id h = k" "ch_component_type h = ''worker''"
    "ch_current_job_id h = None \<and> ch_current_attempt_id h = None \<or> bound_to h a" using prepared_component [OF lock] by (metis option.inject)
  obtain h' where h': "h' \<in> set (unbind_where a (degraded now) (c_components ?c1))" "ch_component_instance_id h' = k" "ch_component_type h' = ''worker''"
    "ch_current_job_id h' = None" "ch_current_attempt_id h' = None"
    by (rule released_component [OF ok1 _ worker h]) (use a(1) same in simp)
  have twice: "put_job (claimed_job w s now (waiting j)) ?c2 = put_job (claimed_job w s now j) (close_expired_attempt a now ?c1)"
    by (simp add: put_job_def waiting_same upd_row_twice) (simp add: upd_row_twice waiting_def)
  have "waiting j \<in> set (c_jobs ?c2)" using j(1) by (auto simp: upd_row_def waiting_def intro!: rev_image_eqI [of j])
  moreover have "jr_status (waiting j) \<noteq> ''running''" "count_of (jr_attempt_count (waiting j)) < max_attempts_of (waiting j) + jr_quota_pause_count (waiting j)"
    using j(2) by (simp_all add: waiting_def max_attempts_of_def)
  moreover have "add_attempt (new_attempt (waiting j) i k now) (put_job (claimed_job w s now (waiting j)) ?c2) = Inr c3"
    unfolding twice using add by (simp only: waiting_same)
  moreover have "h' \<in> set (c_components ?c2)" using h'(1) a'(5) by (simp add: put_job_def)
  ultimately have "control_ok (bind_component k (new_attempt (waiting j) i k now) now c3)"
    using h'(2-5) w by (intro control_ok_start [OF ok2])
  then show ?thesis by (simp add: control_ok_def attempts_for_def c' waiting_same)
qed

lemma take_keeps_ok:
  assumes ok: "control_ok c" and j: "j \<in> set (c_jobs c)" "ready_to_start now j \<or> expired_running now j" and w: "py_strip w \<noteq> []"
    and take: "take_job j w k s i now c = Inr (r, c')"
  shows "control_ok c'"
proof (cases "jr_status j = ''running''")
  case True
  then obtain a where a: "a \<in> set (c_attempts c)" "ja_finished_at a = None" "ja_job_id a = jr_job_id j"
    and rest: "(if max_attempts_of j + jr_quota_pause_count j \<le> count_of (jr_attempt_count j)
       then Inr (None, fail_job_after_exhausted_crash j a now (close_expired_attempt a now c)) else start_attempt j (Some a) w k s i now c) = Inr (r, c')"
    using take by (auto simp: take_job_def lock_expired_attempt_def bind_result_Inr find_Some_iff split: option.splits) (metis nth_mem)
  show ?thesis
  proof (cases "max_attempts_of j + jr_quota_pause_count j \<le> count_of (jr_attempt_count j)")
    case True
    obtain a' where a': "same_attempt a a'" "ja_finished_at a' \<noteq> None" "\<not> pause_marked a'"
      "c_attempts (close_expired_attempt a now c) = upd_row ja_attempt_id a' (c_attempts c)"
      "c_components (close_expired_attempt a now c) = unbind_where a (degraded now) (c_components c)" by (rule close_parts)
    have c': "c' = fail_job_after_exhausted_crash j a now (close_expired_attempt a now c)" using rest True by simp
    show ?thesis
      unfolding c' by (rule control_ok_finish [OF ok a(1,2) a'(1,2) j(1) _ exhausted_settles [OF a'(3)], where u = "degraded now"])
        (use a(3) a'(4,5) in \<open>simp_all add: fail_job_after_exhausted_crash_def put_job_def add_job_event_def Let_def\<close>)
  next
    case False
    then show ?thesis using rest ok j(1) a w by (auto intro: start_again_keeps_ok)
  qed
next
  case False
  then have "count_of (jr_attempt_count j) < max_attempts_of j + jr_quota_pause_count j"
    using j(2) by (auto simp: ready_to_start_def expired_running_def max_attempts_of_def split: option.splits)
  then show ?thesis using False take ok j(1) w by (auto simp: take_job_def intro: start_fresh_keeps_ok)
qed

lemma claim_keeps_ok:
  assumes "claim_next_heavy_job E w k s kinds job_id i now c = Inr (r, c')" and "control_ok c" and "py_strip w \<noteq> []"
  shows "control_ok c'"
proof -
  have walk: "control_ok c1" if "choose_job E kinds job_id now ks c = Inr (x, c1)" for ks x c1
    using that assms(2) by (rule choose_job_keeps) (blast intro: quarantine_keeps_ok dest: find_row_Some)
  show ?thesis
    using assms(1)
  proof (cases rule: claim_next_heavy_job_cases)
    case (taken j c1)
    then have "find_row jr_job_id (jr_job_id j) (c_jobs c1) = Some j" "heavy_candidate c1 kinds job_id now j"
      using choose_job_steps [OF taken(1)] by auto
    then show ?thesis
      using take_keeps_ok [OF walk [OF taken(1)] _ _ assms(3) taken(2)] by (auto simp: heavy_candidate_def dest: find_row_Some)
  qed (use assms(2) walk in auto)
qed

lemma control_ok_step:
  assumes ok: "control_ok c" and honest: "honest_op op"
  shows "control_ok (apply_job_op op c)"
proof (cases op)
  case (ClaimNext E w k s i now)
  show ?thesis unfolding ClaimNext apply_job_op.simps by (rule committed_claim(1) [where P = control_ok, OF ok]) (rule claim_keeps_ok [OF _ ok])
next
  case (ClaimJob E job_id w k s i now)
  show ?thesis unfolding ClaimJob apply_job_op.simps by (rule committed_claim(2) [where P = control_ok, OF ok]) (rule claim_keeps_ok [OF _ ok])
next
  case (Fail t kind e s base fixed now)
  show ?thesis
    unfolding Fail apply_job_op.simps by (rule committedI [where P = control_ok, OF ok]) (rule fail_keeps_ok [OF _ ok honest [unfolded Fail]])
qed (auto intro!: committedI [where P = control_ok, OF ok]
    dest: heartbeat_keeps_ok [OF _ ok] observe_keeps_ok [OF _ ok] complete_keeps_ok [OF _ ok] cancel_keeps_ok [OF _ ok]
    simp: plan_keeps_ok [OF ok] request_cancel_keeps_ok [OF ok])

interpretation control_tables: kept_by_steps apply_job_op honest_op control_ok
  by unfold_locales (rule control_ok_step)

lemma control_ok_run: "\<forall>op \<in> set ops. honest_op op \<Longrightarrow> control_ok c \<Longrightarrow> control_ok (run_job_ops ops c)"
  unfolding run_job_ops_def by (rule control_tables.keep_run)

lemma control_ok_empty [simp]: "control_ok empty_control"
  by (simp add: control_ok_def empty_control_def bindings_agree_def)

section \<open>The inspection of an agreeing job\<close>

lemma first_of_empty: "first_of xs = [] \<longleftrightarrow> (\<forall>x \<in> set xs. \<not> snd x)"
  by (induction xs rule: first_of.induct) auto

lemma dedup_empty [simp]: "dedup xs = [] \<longleftrightarrow> xs = []"
  by (cases xs) auto

lemma attempts_in_order:
  assumes "history_agrees j (attempts_for c k)"
  shows "attempts_of c k = attempts_for c k" "length (attempts_for c k) = nat (count_of (jr_attempt_count j))"
proof -
  let ?n = "count_of (jr_attempt_count j)"
  have nums: "map ja_attempt_number (attempts_for c k) = [1..?n]" using assms by (simp add: history_agrees_def Let_def)
  have "sorted_wrt (<) (map ja_attempt_number (attempts_for c k))" unfolding nums by (simp add: strict_sorted_iff)
  then have "sorted (map (\<lambda>a. (ja_attempt_number a, ja_attempt_id a)) (attempts_for c k))"
    unfolding sorted_wrt_map by (rule sorted_wrt_mono_rel [rotated]) (simp add: less_eq_prod_def)
  then show "attempts_of c k = attempts_for c k"
    unfolding attempts_of_def attempts_for_def by (rule sort_key_id_if_sorted)
  show "length (attempts_for c k) = nat ?n" using arg_cong [OF nums, of length] by simp
qed

lemma find_in: "find P xs = Some x \<Longrightarrow> x \<in> set xs \<and> P x"
  by (auto simp: find_Some_iff)

lemma binding_valid_open:
  assumes ok: "control_ok c" and a: "a \<in> set (c_attempts c)" "ja_finished_at a = None" "ja_component_type a = ''worker''"
  shows "find_component c a \<noteq> None \<and> binding_valid c a"
proof -
  obtain h where h: "h \<in> set (c_components c)" "ch_component_instance_id h = ja_component_instance_id a" "ch_component_type h = ''worker''" "bound_to h a"
    using control_okD(7) [OF ok] a(1,2) unfolding bindings_agree_def by blast
  then obtain x where x: "find_component c a = Some x"
    using a(3) by (cases "find_component c a") (auto simp: find_component_def find_None_iff)
  then have "x \<in> set (c_components c)" "ch_component_instance_id x = ja_component_instance_id a" by (auto simp: find_component_def dest!: find_in)
  then have "x = h" using key_unique [OF control_okD(3) [OF ok] _ h(1)] h(2) by simp
  then show ?thesis using x h(4) by (simp add: binding_valid_def)
qed

lemma lease_clean:
  assumes ok: "control_ok c" and j: "j \<in> set (c_jobs c)"
  defines "open_attempts \<equiv> filter (\<lambda>a. ja_finished_at a = None) (attempts_for c (jr_job_id j))"
  shows "\<forall>r \<in> set (lease_reasons j open_attempts @ token_reasons c j (find (\<lambda>a. ja_lease_epoch a = count_of (jr_lease_epoch j)) open_attempts)). \<not> snd r"
proof -
  let ?as = "attempts_for c (jr_job_id j)" and ?n = "count_of (jr_attempt_count j)"
  have H: "history_agrees j ?as" and L: "lease_agrees j ?as" using control_okD(5,6) [OF ok j] .
  have n: "0 \<le> ?n" "count_of (jr_lease_epoch j) = ?n" and nums: "map ja_attempt_number ?as = [1..?n]" "map ja_lease_epoch ?as = map ja_attempt_number ?as"
    and worker: "\<forall>a \<in> set ?as. ja_component_type a = ''worker''"
    using H by (auto simp: history_agrees_def Let_def)
  show ?thesis
  proof (cases "jr_status j = ''running''")
    case True
    then obtain a w where a: "a \<in> set ?as" "ja_finished_at a = None" "ja_attempt_number a = ?n" and w: "jr_lease_owner j = Some w" "py_strip w \<noteq> []"
      using L by (auto simp: lease_agrees_def)
    have "distinct ?as" using nums(1) by (metis distinct_map distinct_upto)
    moreover have "set open_attempts \<subseteq> {a}"
      using one_open_attempt [OF H L _ a(1) _ a(2)] by (auto simp: open_attempts_def)
    ultimately have "length open_attempts \<le> 1"
      using distinct_card [of open_attempts] card_mono [of "{a}" "set open_attempts"] by (simp add: open_attempts_def)
    moreover have "a \<in> set open_attempts" using a(1,2) by (simp add: open_attempts_def)
    ultimately have one: "open_attempts = [a]" by (cases open_attempts) auto
    have "ja_lease_epoch a = ?n" using nums(2) a(1,3) by simp
    then have cur: "find (\<lambda>a. ja_lease_epoch a = count_of (jr_lease_epoch j)) open_attempts = Some a" using one n(2) by simp
    have "?n \<in> set [1..?n]" using a(1,3) nums(1) by (metis image_eqI list.set_map)
    then have "1 \<le> ?n" by simp
    then show ?thesis
      using True w n a worker binding_valid_open [OF ok, of a] unfolding cur
      by (auto simp: one lease_reasons_def token_reasons_def Let_def in_attempts_for)
  next
    case False
    then have "open_attempts = []" using L by (auto simp: open_attempts_def lease_agrees_def filter_empty_conv)
    then show ?thesis
      using False L n by (auto simp: lease_reasons_def token_reasons_def Let_def lease_agrees_def)
  qed
qed

lemma inspection_clean:
  assumes ok: "control_ok c" and j: "j \<in> set (c_jobs c)" and short: "count_of (jr_attempt_count j) + 1 \<le> max_control_history_rows"
  shows "cs_reasons (inspect_expired_running_control c j) = []"
proof -
  note D = control_okD [OF ok]
  let ?as = "attempts_for c (jr_job_id j)" and ?n = "count_of (jr_attempt_count j)"
  have H: "history_agrees j ?as" and L: "lease_agrees j ?as" using D(5,6) [OF j] .
  have n: "0 \<le> ?n" "count_of (jr_lease_epoch j) = ?n" "1 \<le> max_attempts_of j" "max_attempts_of j \<le> 3" "?n \<le> max_attempts_of j + jr_quota_pause_count j"
    and nums: "map ja_attempt_number ?as = [1..?n]" "map ja_lease_epoch ?as = [1..?n]"
    and worker: "\<forall>a \<in> set ?as. ja_component_type a = ''worker''"
    and pauses: "count_where pause_marked ?as = jr_quota_pause_count j" "\<not> is_priority_resource_config (jr_config_version j) \<Longrightarrow> jr_quota_pause_count j = 0"
    using H by (auto simp: history_agrees_def Let_def)
  have rows: "take (nat (min (max (?n + 1) 1) max_control_history_rows)) (attempts_of c (jr_job_id j)) = ?as"
    using attempts_in_order [OF H] n(1) short by simp
  have len: "int (length ?as) = ?n" using attempts_in_order(2) [OF H] n(1) by simp
  have same: "ja_attempt_number a = ja_lease_epoch a" if "a \<in> set ?as" for a
    using nums that map_eq_conv [of ja_attempt_number ?as ja_lease_epoch] by simp
  have quota: "0 \<le> jr_quota_pause_count j" "jr_quota_pause_count j \<le> ?n"
    unfolding pauses(1) [symmetric] len [symmetric] by (simp_all add: count_where_def)
  have counters: "\<not> snd r" if "r \<in> set (counter_reasons j ?as @ epoch_reasons j ?as)" for r
    using that n quota len by (auto simp: counter_reasons_def epoch_reasons_def Let_def)
  have history: "\<not> history_non_contiguous j ?as"
    using nums same by (simp add: history_non_contiguous_def Let_def sorted_sort_id)
  have mismatch: "\<not> pause_history_mismatch j ?as"
    using pauses by (auto simp: pause_history_mismatch_def pause_marked_def [abs_def])
  have stale: "\<not> stale_binding c a" if "a \<in> set ?as" for a
    using that bound_attempt_open(1) [OF ok] by (auto simp: stale_binding_def binding_valid_def find_component_def in_attempts_for split: option.splits dest!: find_in)
  note lease = lease_clean [OF ok j]
  show ?thesis
    using counters history mismatch stale lease worker short
    by (auto simp: inspect_expired_running_control_def rows Let_def first_of_empty)
qed

section \<open>What holds after every run\<close>

text \<open>A job is planned, claimed, lost by a crash and claimed again by a second worker.\<close>

definition example_ops :: "job_op list" where
  "example_ops = [Plan example_job 0, ClaimNext example_env ''w1'' ''h1'' 60 ''a1'' 0, ClaimNext example_env ''w2'' ''h2'' 60 ''a2'' 100000000]"

definition second_claim_job :: job_run where
  "second_claim_job = claimed_job ''w2'' 60 100000000 (claimed_job ''w1'' 60 0 example_job)"

lemma example_honest: "\<forall>op \<in> set example_ops. honest_op op"
  by (simp add: example_ops_def)

lemma example_member: "second_claim_job \<in> set (c_jobs (run_job_ops example_ops empty_control))"
  by code_simp

lemma example_short: "count_of (jr_attempt_count second_claim_job) + 1 \<le> max_control_history_rows"
  by code_simp

text \<open>
  C8. The check before a claim condemns no job that the lease code itself wrote: along every sequence of operations from empty tables, in which no genuine
  failure is reported under the code of a scheduler pause, the inspection of every job's counters, attempt history, lease and worker binding finds
  nothing, as long as the history is below the inspected limit of 10000 attempts.
\<close>

theorem control_rows_agree:
  assumes "\<forall>op \<in> set ops. honest_op op" and "j \<in> set (c_jobs (run_job_ops ops empty_control))"
    and "count_of (jr_attempt_count j) + 1 \<le> max_control_history_rows"
  shows "cs_reasons (inspect_expired_running_control (run_job_ops ops empty_control) j) = []"
  using inspection_clean [OF control_ok_run [OF assms(1) control_ok_empty] assms(2,3)] .

theorem control_rows_agree_witness:
  "list_all honest_op example_ops \<and> second_claim_job \<in> set (c_jobs (run_job_ops example_ops empty_control))
     \<and> cs_reasons (inspect_expired_running_control (run_job_ops example_ops empty_control) second_claim_job) = []"
  using control_rows_agree [OF example_honest example_member example_short] example_honest example_member by (simp add: list_all_iff)

text \<open>
  C16. The budget of attempts is respected: after every such sequence the attempt rows of a job are as many as its attempt count says, and
  those that did not end as a scheduler pause are at most three, however often the job was paused, crashed and was claimed again.
\<close>

theorem attempts_within_budget:
  assumes "\<forall>op \<in> set ops. honest_op op" and "j \<in> set (c_jobs (run_job_ops ops empty_control))"
  shows "int (length (filter (\<lambda>a. ja_job_id a = jr_job_id j) (c_attempts (run_job_ops ops empty_control)))) = count_of (jr_attempt_count j)
     \<and> length (filter (\<lambda>a. ja_job_id a = jr_job_id j \<and> \<not> pause_marked a) (c_attempts (run_job_ops ops empty_control))) \<le> 3"
proof -
  let ?c = "run_job_ops ops empty_control"
  let ?as = "attempts_for ?c (jr_job_id j)"
  have H: "history_agrees j ?as" using control_okD(5) [OF control_ok_run [OF assms(1) control_ok_empty] assms(2)] .
  have len: "int (length ?as) = count_of (jr_attempt_count j)"
    using attempts_in_order(2) [OF H] H by (simp add: history_agrees_def Let_def)
  have "length (filter pause_marked ?as) + length (filter (\<lambda>a. \<not> pause_marked a) ?as) = length ?as" by (rule sum_length_filter_compl)
  moreover have "int (length (filter pause_marked ?as)) = jr_quota_pause_count j" using H by (simp add: history_agrees_def Let_def count_where_def)
  moreover have "count_of (jr_attempt_count j) \<le> 3 + jr_quota_pause_count j" using H by (auto simp: history_agrees_def Let_def)
  ultimately have "length (filter (\<lambda>a. \<not> pause_marked a) ?as) \<le> 3" using len by linarith
  then show ?thesis using len by (simp add: attempts_for_def conj_commute)
qed

theorem attempts_within_budget_witness:
  "list_all honest_op example_ops \<and> second_claim_job \<in> set (c_jobs (run_job_ops example_ops empty_control))
     \<and> length (filter (\<lambda>a. ja_job_id a = jr_job_id second_claim_job \<and> \<not> pause_marked a) (c_attempts (run_job_ops example_ops empty_control))) \<le> 3"
  using attempts_within_budget [OF example_honest example_member] example_honest example_member by (simp add: list_all_iff)

section \<open>An expired lease is recovered\<close>

text \<open>Nothing outside the tables stands in the way of a claim of the job by this worker.\<close>

definition claim_unhindered :: "claim_env \<Rightarrow> string \<Rightarrow> string \<Rightarrow> instant \<Rightarrow> control \<Rightarrow> job_run \<Rightarrow> bool" where
  "claim_unhindered E k i now c j \<longleftrightarrow> ce_resource_action E \<noteq> Some (Some ''stop'') \<and> ce_global_lock E \<and> \<not> heavy_sync_rate_limit_cooldown_active c now
     \<and> jr_job_id j \<notin> set (ce_locked E) \<and> ce_gate E c j \<and> resource_admission_allows_job (ce_resource_action E) j
     \<and> (jr_job_kind j = Some ''date_sync'' \<longrightarrow> jr_business_date j \<noteq> None \<and> jr_data_source j \<noteq> None \<and> jr_config_version j \<noteq> None \<and> ce_date_lock E j)
     \<and> (\<forall>h \<in> set (c_components c). ch_component_instance_id h = k \<longrightarrow> ch_component_type h = ''worker'' \<and> ch_current_job_id h = None \<and> ch_current_attempt_id h = None)
     \<and> (\<forall>a \<in> set (c_attempts c). ja_attempt_id a \<noteq> i)"

lemma choose_only:
  assumes "jr_job_id j \<in> set ks" "find_row jr_job_id (jr_job_id j) (c_jobs c) = Some j" "heavy_candidate c kinds None now j" "jr_job_id j \<notin> set (ce_locked E)"
    "judge_candidate E c now j = Take" "\<And>x. x \<in> set (c_jobs c) \<Longrightarrow> jr_job_id x \<noteq> jr_job_id j \<Longrightarrow> \<not> heavy_candidate c kinds None now x"
  shows "choose_job E kinds None now ks c = Inr (Some j, c)"
  using assms(1)
proof (induction ks)
  case (Cons k ks)
  show ?case
  proof (cases "k = jr_job_id j")
    case False
    then have "choose_job E kinds None now ks c = Inr (Some j, c)" using Cons by simp
    moreover have "\<not> heavy_candidate c kinds None now x" if "find_row jr_job_id k (c_jobs c) = Some x" for x
      using find_row_Some [OF that] assms(6) False by auto
    ultimately show ?thesis by (auto split: option.splits)
  qed (use assms in simp)
qed simp

lemma lock_free_component:
  assumes "\<forall>h \<in> set (c_components c). ch_component_instance_id h = k \<longrightarrow> ch_component_type h = ''worker'' \<and> ch_current_job_id h = None \<and> ch_current_attempt_id h = None"
  shows "\<exists>x. lock_worker_component c k prev = Inr x"
  using assms by (auto simp: lock_worker_component_def dest: find_row_Some split: option.splits)

lemma expired_attempt:
  assumes ok: "control_ok c" and j: "j \<in> set (c_jobs c)" "jr_status j = ''running''"
  obtains a where "lock_expired_attempt c (jr_job_id j) (count_of (jr_lease_epoch j)) = Inr a" "a \<in> set (c_attempts c)"
proof -
  have H: "history_agrees j (attempts_for c (jr_job_id j))" and L: "lease_agrees j (attempts_for c (jr_job_id j))" using control_okD(5,6) [OF ok j(1)] .
  obtain a where a: "a \<in> set (attempts_for c (jr_job_id j))" "ja_finished_at a = None" "ja_attempt_number a = count_of (jr_attempt_count j)"
    using L j(2) by (auto simp: lease_agrees_def)
  have "map ja_lease_epoch (attempts_for c (jr_job_id j)) = map ja_attempt_number (attempts_for c (jr_job_id j))" "count_of (jr_lease_epoch j) = count_of (jr_attempt_count j)"
    using H by (auto simp: history_agrees_def Let_def)
  then have "ja_lease_epoch a = count_of (jr_lease_epoch j)" using a by simp
  then have "find (\<lambda>a. ja_job_id a = jr_job_id j \<and> ja_lease_epoch a = count_of (jr_lease_epoch j) \<and> ja_finished_at a = None) (c_attempts c) \<noteq> None"
    using a by (auto simp: find_None_iff in_attempts_for)
  then obtain b where b: "find (\<lambda>a. ja_job_id a = jr_job_id j \<and> ja_lease_epoch a = count_of (jr_lease_epoch j) \<and> ja_finished_at a = None) (c_attempts c) = Some b"
    by blast
  show ?thesis by (rule that [of b]) (use b find_in [OF b] in \<open>simp_all add: lock_expired_attempt_def\<close>)
qed

definition attempt_view :: "job_attempt \<Rightarrow> string \<times> string \<times> int \<times> int" where
  "attempt_view a = (ja_attempt_id a, ja_job_id a, ja_attempt_number a, ja_lease_epoch a)"

lemma add_attempt_fresh:
  assumes H: "history_agrees j (attempts_for c (jr_job_id j))" and "\<forall>a \<in> set (c_attempts c). ja_attempt_id a \<noteq> i"
    and same: "map attempt_view (c_attempts c')
      = map attempt_view (c_attempts c)"
  shows "\<exists>x. add_attempt (new_attempt j i k now) c' = Inr x"
proof -
  let ?n = "count_of (jr_attempt_count j)"
  have img: "attempt_view ` set (c_attempts c') = attempt_view ` set (c_attempts c)" using arg_cong [OF same, of set] by (simp only: set_map)
  have bound: "ja_attempt_number b \<le> ?n \<and> ja_lease_epoch b \<le> ?n" if "b \<in> set (attempts_for c (jr_job_id j))" for b
  proof -
    have "ja_attempt_number b \<in> set (map ja_attempt_number (attempts_for c (jr_job_id j)))" "ja_lease_epoch b \<in> set (map ja_lease_epoch (attempts_for c (jr_job_id j)))"
      using that by simp_all
    moreover have "map ja_attempt_number (attempts_for c (jr_job_id j)) = [1..?n]" "map ja_lease_epoch (attempts_for c (jr_job_id j)) = [1..?n]"
      using H by (simp_all add: history_agrees_def Let_def)
    ultimately show ?thesis by (simp only: set_upto atLeastAtMost_iff)
  qed
  have epoch: "count_of (jr_lease_epoch j) = ?n" using H by (simp add: history_agrees_def Let_def)
  have "\<not> (ja_attempt_id a = i \<or> ja_job_id a = jr_job_id j \<and> (ja_attempt_number a = ?n + 1 \<or> ja_lease_epoch a = ?n + 1))"
    if "a \<in> set (c_attempts c')" for a
  proof -
    have "attempt_view a \<in> attempt_view ` set (c_attempts c)" unfolding img [symmetric] using that by (rule imageI)
    then obtain b where b: "attempt_view a = attempt_view b" "b \<in> set (c_attempts c)" by (rule imageE)
    from b(1) have eq: "ja_attempt_id a = ja_attempt_id b" "ja_job_id a = ja_job_id b" "ja_attempt_number a = ja_attempt_number b" "ja_lease_epoch a = ja_lease_epoch b"
      by (simp_all add: attempt_view_def)
    have "ja_attempt_id b \<noteq> i" using assms(2) b(2) by blast
    moreover have "ja_attempt_number b \<le> ?n \<and> ja_lease_epoch b \<le> ?n" if "ja_job_id b = jr_job_id j"
      by (rule bound) (simp only: in_attempts_for b(2) that)
    ultimately show ?thesis unfolding eq by linarith
  qed
  then have "\<not> (\<exists>x \<in> set (c_attempts c'). ja_attempt_id x = ja_attempt_id (new_attempt j i k now) \<or> ja_job_id x = ja_job_id (new_attempt j i k now)
      \<and> (ja_attempt_number x = ja_attempt_number (new_attempt j i k now) \<or> ja_lease_epoch x = ja_lease_epoch (new_attempt j i k now)))"
    by (simp add: new_attempt_def epoch)
  then show ?thesis unfolding add_attempt_def by simp
qed

lemma recovery_starts:
  assumes ok: "control_ok c" and j: "j \<in> set (c_jobs c)" and a: "a \<in> set (c_attempts c)" and free: "claim_unhindered E k i now c j"
  shows "\<exists>c'. start_attempt j (Some a) w k s i now c = Inr (Some (claimed_token j i w k), c')"
proof -
  obtain x where x: "lock_worker_component c k (Some a) = Inr x"
    using lock_free_component [of c k "Some a"] free by (auto simp: claim_unhindered_def)
  obtain a' where a': "same_attempt a a'"
    "c_attempts (close_expired_attempt a now (prepare_worker_component k now x c)) = upd_row ja_attempt_id a' (c_attempts (prepare_worker_component k now x c))"
    by (rule close_parts)
  have rows: "c_attempts (put_job (claimed_job w s now j) (close_expired_attempt a now (prepare_worker_component k now x c))) = upd_row ja_attempt_id a' (c_attempts c)"
    using a'(2) by (simp add: put_job_def prepare_worker_component_def)
  have "z = a" if "z \<in> set (c_attempts c)" "ja_attempt_id z = ja_attempt_id a" for z
    using key_unique [OF control_okD(2) [OF ok] that(1) a that(2)] .
  then have "map attempt_view (upd_row ja_attempt_id a' (c_attempts c))
      = map attempt_view (c_attempts c)"
    using a'(1) by (intro map_upd_row) (auto simp: same_attempt_def attempt_view_def)
  then obtain c3 where "add_attempt (new_attempt j i k now) (put_job (claimed_job w s now j) (close_expired_attempt a now (prepare_worker_component k now x c))) = Inr c3"
    using add_attempt_fresh [OF control_okD(5) [OF ok j], where c' = "put_job (claimed_job w s now j) (close_expired_attempt a now (prepare_worker_component k now x c))"]
      free unfolding claim_unhindered_def rows by blast
  then show ?thesis using x by (simp add: start_attempt_def)
qed

lemma only_candidate:
  assumes "one_heavy c" "j \<in> set (c_jobs c)" "heavy_running j" "x \<in> set (c_jobs c)" "jr_job_id x \<noteq> jr_job_id j"
  shows "\<not> heavy_candidate c kinds i now x"
  using assms by (auto simp: heavy_candidate_def no_other_running_heavy_job_def heavy_running_def)

lemma expired_judged:
  assumes ok: "control_ok c" and one: "one_heavy c" and j: "j \<in> set (c_jobs c)" "expired_running now j" "jr_execution_slot j = Some ''heavy_sync''"
      "\<exists>k \<in> set default_job_kinds. jr_job_kind j = Some k" and short: "count_of (jr_attempt_count j) + 1 \<le> max_control_history_rows"
    and free: "claim_unhindered E k i now c j"
  shows "choose_job E default_job_kinds None now (claim_order c) c = Inr (Some j, c)"
proof (rule choose_only)
  have run: "heavy_running j" using j(2,3) by (simp add: heavy_running_def expired_running_def in_heavy_slot_def)
  show "jr_job_id j \<in> set (claim_order c)" using j(1) by (auto simp: claim_order_def)
  show "find_row jr_job_id (jr_job_id j) (c_jobs c) = Some j" using control_okD(1) [OF ok] j(1) by (rule find_row_distinct)
  have "no_other_running_heavy_job c j"
    using one j(1) run unfolding no_other_running_heavy_job_def one_heavy_def heavy_running_def by metis
  moreover obtain l where "jr_job_kind j = Some l" "l \<in> set default_job_kinds" using j(4) by blast
  moreover have "jr_job_kind j \<noteq> Some ''date_sync'' \<or> jr_business_date j \<noteq> None" using free unfolding claim_unhindered_def by blast
  ultimately show "heavy_candidate c default_job_kinds None now j"
    unfolding heavy_candidate_def using j(2,3) by (simp only: option.case simp_thms)
  show "jr_job_id j \<notin> set (ce_locked E)" using free by (simp add: claim_unhindered_def)
  show "judge_candidate E c now j = Take"
  proof (cases "jr_job_kind j = Some ''date_sync''")
    case True
    then have "\<not> (jr_business_date j = None \<or> jr_data_source j = None \<or> jr_config_version j = None)" "ce_date_lock E j"
      using free unfolding claim_unhindered_def by blast+
    then show ?thesis
      using free True unfolding judge_candidate_def claim_unhindered_def inspection_clean [OF ok j(1) short] by simp
  qed (use free in \<open>simp add: judge_candidate_def claim_unhindered_def inspection_clean [OF ok j(1) short]\<close>)
  show "\<not> heavy_candidate c default_job_kinds None now x" if "x \<in> set (c_jobs c)" "jr_job_id x \<noteq> jr_job_id j" for x
    using one j(1) run that by (rule only_candidate)
qed

text \<open>
  C9. An expired lease never blocks the heavy slot: after every honest sequence of operations, a heavy job whose lease ran out is recovered by the next
  claim of a free worker that nothing outside the tables hinders. When attempts are left, the worker gets a token with the next attempt number and
  epoch and the row is leased to it; when none are left, the job is failed and the slot is empty. The claim never raises.
\<close>

theorem expired_lease_is_recovered:
  fixes ops :: "job_op list"
  defines "c \<equiv> run_job_ops ops empty_control"
  assumes "\<forall>op \<in> set ops. honest_op op" and j: "j \<in> set (c_jobs c)" "expired_running now j" "jr_execution_slot j = Some ''heavy_sync''"
    "\<exists>k \<in> set default_job_kinds. jr_job_kind j = Some k" and "count_of (jr_attempt_count j) + 1 \<le> max_control_history_rows"
    and free: "claim_unhindered E k i now c j" and inputs: "py_strip w \<noteq> []" "py_strip k \<noteq> []" "0 < s"
  shows "\<exists>r c' j'. claim_next_job E w k s i now c = Inr (r, c') \<and> find_row jr_job_id (jr_job_id j) (c_jobs c') = Some j' \<and>
     (if count_of (jr_attempt_count j) < max_attempts_of j + jr_quota_pause_count j
      then r = Some (claimed_token j i w k) \<and> active_lease (claimed_token j i w k) now j' \<and> jr_lease_epoch j' = Some (count_of (jr_lease_epoch j) + 1)
      else r = None \<and> jr_status j' = ''failed'' \<and> (\<forall>x \<in> set (c_jobs c'). \<not> heavy_running x))"
proof -
  have ok: "control_ok c" unfolding c_def by (rule control_ok_run [OF assms(2) control_ok_empty])
  have one: "one_heavy c" unfolding c_def by (rule one_heavy_run) (simp add: one_heavy_def empty_control_def)
  have run: "jr_status j = ''running''" "heavy_running j" using j(2,3) by (simp_all add: heavy_running_def expired_running_def in_heavy_slot_def)
  have row: "find_row jr_job_id (jr_job_id j) (c_jobs c) = Some j" using control_okD(1) [OF ok] j(1) by (rule find_row_distinct)
  have claim: "claim_next_job E w k s i now c = take_job j w k s i now c"
    using expired_judged [OF ok one j assms(7) free] free inputs
    by (simp add: claim_next_job_def validate_claim_inputs_def claim_next_heavy_job_def claim_unhindered_def)
  obtain a where a: "lock_expired_attempt c (jr_job_id j) (count_of (jr_lease_epoch j)) = Inr a" "a \<in> set (c_attempts c)"
    using expired_attempt [OF ok j(1) run(1)] .
  show ?thesis
  proof (cases "count_of (jr_attempt_count j) < max_attempts_of j + jr_quota_pause_count j")
    case True
    obtain c' where c': "start_attempt j (Some a) w k s i now c = Inr (Some (claimed_token j i w k), c')"
      using recovery_starts [OF ok j(1) a(2) free] by blast
    then have "take_job j w k s i now c = Inr (Some (claimed_token j i w k), c')" using a(1) run(1) True by (simp add: take_job_def)
    moreover have "find_row jr_job_id (jr_job_id j) (c_jobs c') = Some (claimed_job w s now j)"
      using start_attempt_jobs [OF c'] row by (simp add: find_row_upd)
    moreover have "active_lease (claimed_token j i w k) now (claimed_job w s now j)"
      using inputs(3) by (simp add: active_lease_def claimed_token_def claimed_job_def seconds_def)
    ultimately show ?thesis using True claim by (simp add: claimed_job_def)
  next
    case False
    let ?c = "fail_job_after_exhausted_crash j a now (close_expired_attempt a now c)"
    have "take_job j w k s i now c = Inr (None, ?c)" using a(1) run(1) False by (simp add: take_job_def)
    moreover have "find_row jr_job_id (jr_job_id j) (c_jobs ?c) = Some (exhausted_job now j)" using row by (simp add: find_row_upd)
    moreover have "jr_status (exhausted_job now j) = ''failed''" by (simp add: exhausted_job_def split: prod.split)
    moreover have "\<not> heavy_running x" if "x \<in> set (c_jobs ?c)" for x
    proof -
      have "x \<in> set (upd_row jr_job_id (exhausted_job now j) (c_jobs c))" using that by simp
      from set_upd_row [OF this] show ?thesis
      proof
        assume "x \<in> set (c_jobs c) \<and> jr_job_id x \<noteq> jr_job_id (exhausted_job now j)"
        then show ?thesis using one j(1) run(2) unfolding one_heavy_def job_id_of_writes by blast
      qed simp
    qed
    ultimately show ?thesis using False claim by simp
  qed
qed

lemma example_unhindered:
  "second_claim_job \<in> set (c_jobs (run_job_ops example_ops empty_control))" "expired_running 200000000 second_claim_job"
  "jr_execution_slot second_claim_job = Some ''heavy_sync''" "\<exists>k \<in> set default_job_kinds. jr_job_kind second_claim_job = Some k"
  "claim_unhindered example_env ''h1'' ''a3'' 200000000 (run_job_ops example_ops empty_control) second_claim_job"
  "py_strip ''w1'' \<noteq> []" "py_strip ''h1'' \<noteq> []" "0 < (60::int)"
  by code_simp+

theorem expired_lease_is_recovered_witness:
  "expired_running 200000000 second_claim_job
   \<and> (\<exists>r c' j'. claim_next_job example_env ''w1'' ''h1'' 60 ''a3'' 200000000 (run_job_ops example_ops empty_control) = Inr (r, c')
        \<and> find_row jr_job_id (jr_job_id second_claim_job) (c_jobs c') = Some j' \<and> jr_lease_epoch j' = Some 3)"
proof -
  have "count_of (jr_attempt_count second_claim_job) < max_attempts_of second_claim_job + jr_quota_pause_count second_claim_job"
    "count_of (jr_lease_epoch second_claim_job) = 2"
    by code_simp+
  then show ?thesis
    using expired_lease_is_recovered [OF example_honest example_unhindered(1-4) example_short example_unhindered(5-8)] example_unhindered(2)
    by (simp only: if_True) force
qed

end
