(* ===== verification/Spec2Isabelle.thy ===== *)
theory Spec2Isabelle
  imports OrderStatus Headquarters RuleVersions FollowupMetrics TerminalClosure AllocationCandidates AllocationEngine FollowUp Lifecycle Receipts RateLimits RequestQuota RawClues ClueCollection MaterializationQueue JobLeases JobLeaseSafety JobControl
begin

text \<open>
  A verification of the clue services of dy-data: how sales leads (clues) are collected from the platform, kept,
  turned into work, allocated to stores, followed up and closed, and the control plane that runs the jobs doing so. Paths below are
  under \<open>src/\<close>.

  \<^bold>\<open>The program.\<close> Workers claim heavy jobs under a lease (\<open>apps/worker/task_control.py\<close>, \<open>repositories.py\<close>). A job collects pages of
  clues within the request limits of the platform (\<open>collectors/clues.py\<close>, \<open>dy_data/douyin_rate_limits.py\<close>, \<open>douyin_api_quota.py\<close>) and stores
  each observation. A stored change captures an impact, which becomes a work item of the materialization queue. The allocation engine
  (\<open>clue_allocation_engine.py\<close>) binds a lead to a published rule version (\<open>clue_rule_versions.py\<close>), chooses a store and opens an assignment round, or
  sends the lead to headquarters (\<open>clue_headquarters_pool.py\<close>). Stores follow the round up (\<open>clue_follow_up_state.py\<close>), due transitions
  end overdue rounds, and terminal order evidence (\<open>order_status.py\<close>, \<open>dy_api/clue_followup_metrics.py\<close>, \<open>clue_allocation.py\<close>) closes the
  lead. Receipts (\<open>receipt_amounts.py\<close>) price what was verified.

  \<^bold>\<open>Conventions.\<close> Text is its UTF-8 bytes. An operation is a function on a record of tables, a table is a list of rows; a raise is a value of
  the sum type \<open>'a result\<close>. JSON values are the datatype \<open>pyval\<close>. Times are microseconds, the zone Asia/Shanghai is a fixed offset of eight hours.
  Decimals and floats are exact rationals. One call is one transaction; its reads of the clock are one instant, except in a claim of the materialization queue; row locks, savepoints and flush order are not represented, and neither
  are interleavings inside a transaction. Ids, clocks, hashes, the JSON and URL parsers, the great-circle distance, the platform client, the answers of
  advisory locks and the rows another transaction holds are arguments.

  \<^bold>\<open>Theories.\<close>
  \<^item> \<open>Prelude\<close>, \<open>PyValues\<close>: errors, text, tables with the interface \<open>session_table\<close>, JSON values.
  \<^item> \<open>ClueModel\<close>: the rows of \<open>dy_api/models.py\<close> that the clue components use, and their tables as interpretations of \<open>session_table\<close>.
  \<^item> \<open>OrderStatus\<close>: every function of \<open>order_status.py\<close>. A clue is active only with evidence that it waits for use and none that it ended.
  \<^item> \<open>Headquarters\<close>: the pool, against the interface \<open>lead_pool\<close>: a lead has at most one active entry.
  \<^item> \<open>RuleVersions\<close>: rules, drafts, publication and resolution. Keys stay unique, a rule has at most one published version, and it is valid;
    resolution takes the most specific scope.
  \<^item> \<open>FollowupMetrics\<close>, \<open>TerminalClosure\<close>: samples of the follow-up metric, the evidence of verification, refund and closing, and closing a
    lead on it. A numerator has a cause, evidence closes the lead and its entry and nothing else, and status evidence never reopens a lead.
  \<^item> \<open>AllocationCandidates\<close>, \<open>AllocationEngine\<close>: the strategies and \<open>allocate_lead\<close>, \<open>allocate_leads\<close>. The tables stay consistent, the result says where
    the lead is, a selected store is offerable and new to the lead, the best store is chosen, and repeating an allocation changes nothing.
  \<^item> \<open>FollowUp\<close>, \<open>Lifecycle\<close>: follow-ups, reversals, due transitions, and every interleaving of them with allocation and terminal evidence.
    A summary is that of its records, a reversal restores, no round stays overdue, a phone is revealed only for the current round, a store never gets
    a lead twice.
  \<^item> \<open>Receipts\<close>: a resolved receipt is the one the evidence proves, receipts never exceed the lines of the order, batches agree with single lookups.
  \<^item> \<open>RateLimits\<close>, \<open>RequestQuota\<close>: pacing keeps every window within its quota, profiles only tighten the reviewed limits, and interleaved
    governors over the interface \<open>quota_store\<close> stay within the daily quota and leave the reserve.
  \<^item> \<open>RawClues\<close>, \<open>ClueCollection\<close>: observations converge in any order of delivery; a collection ends within its request budget whatever the
    platform answers, and stores every row of a platform whose stock is fixed.
  \<^item> \<open>MaterializationQueue\<close>: capturing, cycles, leases, completion, the cursor and the page checkpoints. A leased item belongs to its
    attempt, claims skip nothing, a cycle drains; and what happens when a capture commits after the cursor has passed its id.
  \<^item> \<open>JobLeases\<close>, \<open>JobLeaseSafety\<close>, \<open>JobControl\<close>: claims, heartbeats, completion, failure with the retry policy, cancellation, recovery and
    quarantine of heavy jobs; every sequence of these operations over the interface \<open>kept_by_steps\<close>. One heavy job runs at a time, a lost lease is final, a lease in
    force is only touched by its token, the control rows agree so that no job is quarantined for what this code wrote, attempts stay within the
    budget, and an expired lease is recovered.

  \<^bold>\<open>Bounds.\<close> Loops over tables are structural. The splitting of a window in \<open>ClueCollection\<close> terminates by its length in seconds, and the
  number of requests is part of the theorem. \<open>drain\<close> in \<open>MaterializationQueue\<close> takes a number of rounds as fuel, and the theorem gives the number that is enough.
  The inspection of a job reads at most 10000 attempts, as the code does; the theorem on it is for jobs below that limit.

  \<^bold>\<open>Assumptions.\<close> A theorem about parameters names what it relies on: ids drawn by the database are fresh, sequence numbers grow, and a genuine failure is not
  reported under the error code of a scheduler pause (\<open>honest_op\<close>).

  \<^bold>\<open>Not modelled.\<close> The planner of daily jobs and the finalize step (\<open>daily_windows.py\<close>, \<open>finalize.py\<close>; hashes of JSON documents identify their rows, a planned job enters
  as an insertion and the gate before a claim is an arbitrary function), hence the hooks of \<open>complete_job\<close>; the SQLite variants used by tests; the queries
  that fan a change out to master leads; the other collectors; settlement, billing, projections, publications and ranking; schedulers and
  process supervision; request handlers, authentication, the command line and the web front end; migrations, scripts and deployment. They are input and
  output, read models of the tables above, or systems of their own.
\<close>

end
